(* ===== verification/GoPrelude.thy ===== *)
theory GoPrelude
  imports Main "HOL-Library.Word" "HOL-Library.Char_ord" "HOL-Library.List_Lexorder"
    "HOL-Library.Signed_Division"
begin

text \<open>
  What the component theories share of Go itself: interface values, panics as results,
  64-bit integers, octet strings, and the functions of the packages \<open>strings\<close>, \<open>bytes\<close> and
  \<open>strconv\<close> that the sources call.

  A Go \<open>string\<close> and a \<open>[]byte\<close> that holds text are both a sequence of octets, modelled by
  \<open>string\<close> (an Isabelle \<open>char\<close> is one octet); they are ordered by octets (List_Lexorder).
  Binary data is \<open>8 word list\<close>.
\<close>

named_theorems go_simps \<open>unfolding rules that evaluate the model on concrete inputs\<close>

section \<open>Interface values and panics\<close>

text \<open>An \<open>interface{}\<close> is nil or a dynamic type with a payload.\<close>

type_synonym ('t, 'v) iface = "('t \<times> 'v) option"

definition TypeOf :: "('t, 'v) iface \<Rightarrow> 't option" where
  "TypeOf x = map_option fst x"

lemma TypeOf_simps [simp]: "TypeOf None = None" "TypeOf (Some (t, v)) = Some t"
  by (simp_all add: TypeOf_def)

text \<open>The result of a call that may panic.\<close>

datatype 'a outcome = Returns 'a | Panics

fun bind_outcome :: "'a outcome \<Rightarrow> ('a \<Rightarrow> 'b outcome) \<Rightarrow> 'b outcome" where
  "bind_outcome (Returns x) f = f x"
| "bind_outcome Panics f = Panics"

fun collect_outcomes :: "'a outcome list \<Rightarrow> 'a list outcome" where
  "collect_outcomes [] = Returns []"
| "collect_outcomes (r # rs) =
     bind_outcome r (\<lambda>x. bind_outcome (collect_outcomes rs) (\<lambda>xs. Returns (x # xs)))"

lemma collect_outcomes_map_Returns:
  "(\<And>x. x \<in> set xs \<Longrightarrow> f x = Returns (g x)) \<Longrightarrow> collect_outcomes (map f xs) = Returns (map g xs)"
  by (induction xs) auto

lemma nth_update_if: "xs[a := x] ! b = (if a = b \<and> b < length xs then x else xs ! b)"
  by (cases "a = b"; cases "b < length xs") (auto simp: list_update_beyond)

section \<open>64-bit integers\<close>

type_synonym i64 = "64 word"

text \<open>Go's \<open>/\<close> on \<open>int64\<close>: truncation towards zero, wrapping at the minimum.\<close>

definition i64_quot :: "i64 \<Rightarrow> i64 \<Rightarrow> i64" where
  "i64_quot a b = word_of_int (sint a sdiv sint b)"

lemmas i64_order = word_sless_alt word_sle_eq

section \<open>Octet strings\<close>

fun str_prefix :: "string \<Rightarrow> string \<Rightarrow> bool" where
  "str_prefix [] s = True"
| "str_prefix (c # cs) [] = False"
| "str_prefix (c # cs) (d # ds) = (c = d \<and> str_prefix cs ds)"

lemma str_prefix_drop: "str_prefix p s \<Longrightarrow> p @ drop (length p) s = s"
  by (induction p s rule: str_prefix.induct) auto

lemma str_prefix_append [simp]: "str_prefix p (p @ s)"
  by (induction p) auto

lemma str_prefix_conv: "str_prefix p s \<longleftrightarrow> (\<exists>t. s = p @ t)"
  by (metis str_prefix_append str_prefix_drop)

text \<open>\<open>strings.Join\<close> and \<open>bytes.Join\<close>.\<close>

fun str_join :: "string \<Rightarrow> string list \<Rightarrow> string" where
  "str_join sep [] = []"
| "str_join sep [s] = s"
| "str_join sep (s # t # ts) = s @ sep @ str_join sep (t # ts)"

text \<open>
  \<open>strings.Split\<close> and \<open>bytes.Split\<close>: the pieces between the non-overlapping occurrences of
  \<open>sep\<close>, found from the left. An empty separator splits after each character (for octet
  strings outside ASCII this is the split into octets).
\<close>

function split_scan :: "string \<Rightarrow> string \<Rightarrow> string \<Rightarrow> string list" where
  "split_scan sep acc s =
     (if s = [] then [rev acc]
      else if sep \<noteq> [] \<and> str_prefix sep s then rev acc # split_scan sep [] (drop (length sep) s)
      else split_scan sep (hd s # acc) (tl s))"
  by pat_completeness auto
termination
  by (relation "measure (\<lambda>(sep, acc, s). length s)") auto

declare split_scan.simps [simp del]

definition str_split :: "string \<Rightarrow> string \<Rightarrow> string list" where
  "str_split s sep = (if sep = [] then map (\<lambda>c. [c]) s else split_scan sep [] s)"

lemma split_scan_not_Nil [simp]: "split_scan sep acc s \<noteq> []"
  by (induction sep acc s rule: split_scan.induct) (subst split_scan.simps, simp)

lemma str_join_Cons: "xs \<noteq> [] \<Longrightarrow> str_join sep (x # xs) = x @ sep @ str_join sep xs"
  by (cases xs) auto

lemma str_join_split_scan: "str_join sep (split_scan sep acc s) = rev acc @ s"
proof (induction sep acc s rule: split_scan.induct)
  case (1 sep acc s)
  consider "s = []" | "s \<noteq> []" "sep \<noteq> []" "str_prefix sep s"
    | "s \<noteq> []" "\<not> (sep \<noteq> [] \<and> str_prefix sep s)" by blast
  then show ?case
  proof cases
    case 1
    then show ?thesis by (subst split_scan.simps) simp
  next
    case 2
    with "1.IH"(1) show ?thesis
      by (subst split_scan.simps) (simp add: str_join_Cons str_prefix_drop)
  next
    case 3
    with "1.IH"(2) show ?thesis
      by (subst split_scan.simps) auto
  qed
qed

lemma str_join_split: "str_join sep (str_split s sep) = s"
proof (cases "sep = []")
  case True
  have "str_join [] (map (\<lambda>c. [c]) s) = s"
    by (induction s rule: induct_list012) auto
  with True show ?thesis by (simp add: str_split_def)
next
  case False
  then show ?thesis by (simp add: str_split_def str_join_split_scan)
qed

text \<open>\<open>strings.Trim\<close> with a cut set, and \<open>bytes.TrimSpace\<close> on ASCII white space.\<close>

definition str_trim :: "char set \<Rightarrow> string \<Rightarrow> string" where
  "str_trim cutset s = rev (dropWhile (\<lambda>c. c \<in> cutset) (rev (dropWhile (\<lambda>c. c \<in> cutset) s)))"

definition ascii_space :: "char set" where
  "ascii_space = {CHR '' '', CHR 0x09, CHR 0x0A, CHR 0x0B, CHR 0x0C, CHR 0x0D}"

section \<open>Decimal conversion\<close>

text \<open>\<open>strconv.FormatInt(v, 10)\<close> and \<open>strconv.ParseInt(s, 10, 64)\<close>.\<close>

definition digit_char :: "nat \<Rightarrow> char" where
  "digit_char d = char_of (48 + d)"

fun nat_digits :: "nat \<Rightarrow> string" where
  "nat_digits n = (if n < 10 then [digit_char n] else nat_digits (n div 10) @ [digit_char (n mod 10)])"

declare nat_digits.simps [simp del]

definition FormatInt :: "int \<Rightarrow> string" where
  "FormatInt v = (if v < 0 then CHR ''-'' # nat_digits (nat (- v)) else nat_digits (nat v))"

definition char_digit :: "char \<Rightarrow> nat option" where
  "char_digit c = (let n = of_char c in if 48 \<le> n \<and> n \<le> 57 then Some (n - 48) else None)"

fun digits_value :: "nat \<Rightarrow> string \<Rightarrow> nat option" where
  "digits_value acc [] = Some acc"
| "digits_value acc (c # cs) =
     (case char_digit c of None \<Rightarrow> None | Some d \<Rightarrow> digits_value (10 * acc + d) cs)"

datatype num_error = ErrSyntax | ErrRange

definition ParseUint :: "string \<Rightarrow> num_error + int" where
  "ParseUint s =
     (if s = [] then Inl ErrSyntax
      else case digits_value 0 s of
             None \<Rightarrow> Inl ErrSyntax
           | Some n \<Rightarrow> if n < 2 ^ 64 then Inr (int n) else Inl ErrRange)"

definition ParseInt :: "string \<Rightarrow> num_error + int" where
  "ParseInt s =
     (if s = [] then Inl ErrSyntax
      else
        let neg = (hd s = CHR ''-'');
            body = (if hd s = CHR ''-'' \<or> hd s = CHR ''+'' then tl s else s)
        in if body = [] then Inl ErrSyntax
           else case digits_value 0 body of
                  None \<Rightarrow> Inl ErrSyntax
                | Some n \<Rightarrow>
                    if \<not> neg \<and> 2 ^ 63 \<le> n then Inl ErrRange
                    else if neg \<and> 2 ^ 63 < n then Inl ErrRange
                    else Inr (if neg then - int n else int n))"

text \<open>The bounds compared as integers, for evaluation.\<close>

lemma ParseInt_code [code]:
  "ParseInt s =
     (if s = [] then Inl ErrSyntax
      else
        let neg = (hd s = CHR ''-'');
            body = (if hd s = CHR ''-'' \<or> hd s = CHR ''+'' then tl s else s)
        in if body = [] then Inl ErrSyntax
           else case digits_value 0 body of
                  None \<Rightarrow> Inl ErrSyntax
                | Some n \<Rightarrow>
                    if \<not> neg \<and> 2 ^ 63 \<le> int n then Inl ErrRange
                    else if neg \<and> 2 ^ 63 < int n then Inl ErrRange
                    else Inr (if neg then - int n else int n))"
proof -
  have "2 ^ 63 \<le> int n \<longleftrightarrow> 2 ^ 63 \<le> n" "2 ^ 63 < int n \<longleftrightarrow> 2 ^ 63 < n" for n by simp_all
  then show ?thesis unfolding ParseInt_def by presburger
qed

definition in_i64 :: "int \<Rightarrow> bool" where
  "in_i64 v \<longleftrightarrow> - (2 ^ 63) \<le> v \<and> v < 2 ^ 63"

lemma char_digit_digit_char [simp]: "d < 10 \<Longrightarrow> char_digit (digit_char d) = Some d"
  by (simp add: char_digit_def digit_char_def Let_def of_char_of)

lemma digits_value_append:
  "digits_value acc (xs @ ys) =
     (case digits_value acc xs of None \<Rightarrow> None | Some a \<Rightarrow> digits_value a ys)"
  by (induction xs arbitrary: acc) (auto split: option.splits)

lemma nat_digits_not_Nil [simp]: "nat_digits n \<noteq> []"
  by (subst nat_digits.simps) simp

lemma digits_value_nat_digits: "digits_value 0 (nat_digits n) = Some n"
proof (induction n rule: nat_digits.induct)
  case (1 n)
  show ?case
  proof (cases "n < 10")
    case True
    then show ?thesis by (subst nat_digits.simps) simp
  next
    case False
    with 1 show ?thesis by (subst nat_digits.simps) (simp add: digits_value_append)
  qed
qed

lemma hd_nat_digits: "\<exists>d < 10. hd (nat_digits n) = digit_char d"
proof (induction n rule: nat_digits.induct)
  case (1 n)
  show ?case
  proof (cases "n < 10")
    case True
    then show ?thesis by (subst nat_digits.simps) auto
  next
    case False
    with 1 show ?thesis by (subst nat_digits.simps) simp
  qed
qed

lemma set_nat_digits: "set (nat_digits n) \<subseteq> digit_char ` {..<10}"
proof (induction n rule: nat_digits.induct)
  case (1 n)
  then show ?case by (subst nat_digits.simps) auto
qed

lemma digit_char_not_sign: "d < 10 \<Longrightarrow> digit_char d \<noteq> CHR ''-'' \<and> digit_char d \<noteq> CHR ''+''"
  by (auto simp: digit_char_def dest!: arg_cong [of _ _ "of_char :: char \<Rightarrow> nat"])

lemma hd_nat_digits_not_sign [simp]:
  "hd (nat_digits n) \<noteq> CHR ''-''" "hd (nat_digits n) \<noteq> CHR ''+''"
  using hd_nat_digits [of n] digit_char_not_sign by metis+

lemma ParseInt_FormatInt: "in_i64 v \<Longrightarrow> ParseInt (FormatInt v) = Inr v"
  by (auto simp: ParseInt_def FormatInt_def in_i64_def digits_value_nat_digits Let_def nat_less_iff)

end
