(* ===== verification/HelperUtil.thy ===== *)
theory HelperUtil
  imports GoPrelude
begin

text \<open>
  The package root \<open>helper\<close>: hex-key increment (\<open>bytes.go\<close>), string compaction and number parsing with defaults
  (\<open>helper.go\<close>), the sortable key/value slice (\<open>sortedKV.go\<close>) and the repeatable flag (\<open>flag.go\<close>). The rest of
  \<open>helper.go\<close> is in \<open>HelperSys\<close>.
\<close>

section \<open>NextKey\<close>

datatype key_error = EmptyKey | AllFF

text \<open>The loop runs from the last octet to the first: the scan of the reversed key.\<close>

fun next_key_scan :: "string \<Rightarrow> string option" where
  "next_key_scan [] = None"
| "next_key_scan (c # cs) =
     (if c = CHR ''f'' \<or> c = CHR ''F'' then map_option (Cons CHR ''0'') (next_key_scan cs)
      else Some (char_of ((of_char c :: nat) + 1) # cs))"

definition NextKey :: "string \<Rightarrow> string \<times> key_error option" where
  "NextKey key =
     (if key = [] then (key, Some EmptyKey)
      else case next_key_scan (rev key) of
             None \<Rightarrow> (key, Some AllFF)
           | Some s \<Rightarrow> (rev s, None))"

text \<open>What the key means: its digits, most significant first.\<close>

definition hex_digit :: "char \<Rightarrow> nat" where
  "hex_digit c =
     (let n = of_char c in
      if 48 \<le> n \<and> n \<le> 57 then n - 48
      else if 97 \<le> n \<and> n \<le> 102 then n - 87
      else if 65 \<le> n \<and> n \<le> 70 then n - 55 else 0)"

definition is_hex :: "char \<Rightarrow> bool" where
  "is_hex c = (let n = (of_char c :: nat) in
     (48 \<le> n \<and> n \<le> 57) \<or> (97 \<le> n \<and> n \<le> 102) \<or> (65 \<le> n \<and> n \<le> 70))"

fun hex_value_le :: "string \<Rightarrow> nat" where
  "hex_value_le [] = 0"
| "hex_value_le (c # cs) = hex_digit c + 16 * hex_value_le cs"

definition hex_value :: "string \<Rightarrow> nat" where
  "hex_value key = hex_value_le (rev key)"

text \<open>The digit the increment lands on: the last one that is not \<open>f\<close> or \<open>F\<close>.\<close>

fun pivot_scan :: "string \<Rightarrow> char option" where
  "pivot_scan [] = None"
| "pivot_scan (c # cs) = (if c = CHR ''f'' \<or> c = CHR ''F'' then pivot_scan cs else Some c)"

definition pivot :: "string \<Rightarrow> char option" where
  "pivot key = pivot_scan (rev key)"

lemma next_key_scan_length: "next_key_scan cs = Some s \<Longrightarrow> length s = length cs"
  by (induction cs arbitrary: s) (auto split: if_splits)

lemma next_key_scan_None: "next_key_scan cs = None \<longleftrightarrow> pivot_scan cs = None"
  by (induction cs) auto

lemma hex_digit_f: "hex_digit CHR ''f'' = 15" "hex_digit CHR ''F'' = 15" "hex_digit CHR ''0'' = 0"
  by (simp_all add: hex_digit_def)

lemma char_code_neq: "c \<noteq> CHR ''f'' \<longleftrightarrow> (of_char c :: nat) \<noteq> 102"
  "c \<noteq> CHR ''F'' \<longleftrightarrow> (of_char c :: nat) \<noteq> 70" "c \<noteq> CHR ''9'' \<longleftrightarrow> (of_char c :: nat) \<noteq> 57"
  using of_char_eq_iff [of c "CHR ''f''", where ?'a = nat]
    of_char_eq_iff [of c "CHR ''F''", where ?'a = nat]
    of_char_eq_iff [of c "CHR ''9''", where ?'a = nat] by simp_all

lemma hex_digit_succ:
  assumes "is_hex c" "c \<noteq> CHR ''f''" "c \<noteq> CHR ''F''" "c \<noteq> CHR ''9''"
  shows "hex_digit (char_of ((of_char c :: nat) + 1)) = hex_digit c + 1"
  using assms unfolding char_code_neq
  by (auto simp: is_hex_def hex_digit_def Let_def of_char_of)

lemma next_key_scan_value:
  assumes "\<forall>c \<in> set cs. is_hex c" "pivot_scan cs \<noteq> Some CHR ''9''" "next_key_scan cs = Some s"
  shows "hex_value_le s = hex_value_le cs + 1"
  using assms
proof (induction cs arbitrary: s)
  case Nil
  then show ?case by simp
next
  case (Cons c cs)
  show ?case
  proof (cases "c = CHR ''f'' \<or> c = CHR ''F''")
    case True
    with Cons.prems obtain s' where s': "next_key_scan cs = Some s'" "s = CHR ''0'' # s'"
      by auto
    with True Cons have "hex_value_le s' = hex_value_le cs + 1" by (auto split: if_splits)
    with s' True show ?thesis by (auto simp: hex_digit_f)
  next
    case False
    with Cons.prems hex_digit_succ [of c] show ?thesis by auto
  qed
qed

lemma char_of_58: "char_of (58 :: nat) = CHR '':''"
  using char_of_char [of "CHR '':''", where ?'a = nat] by simp

lemma next_key_scan_pivot:
  "next_key_scan (replicate k CHR ''f'' @ CHR ''9'' # cs) = Some (replicate k CHR ''0'' @ CHR '':'' # cs)"
  by (induction k) (simp_all add: char_of_58)

text \<open>
  A successful increment of a hex key keeps its length and adds exactly 1 to the number
  it denotes, whenever the digit the carry stops at is not \<open>9\<close>; it fails only on the empty key and
  on a key that is all \<open>f\<close>, and then returns the key unchanged.
\<close>

theorem NextKey_increments:
  assumes "\<forall>c \<in> set key. is_hex c" and "pivot key \<noteq> Some CHR ''9''"
  shows "case NextKey key of
           (k, None) \<Rightarrow> length k = length key \<and> hex_value k = hex_value key + 1
         | (k, Some e) \<Rightarrow> k = key \<and> (e = EmptyKey \<longleftrightarrow> key = []) \<and> pivot key = None"
proof -
  have "hex_value (rev s) = hex_value key + 1 \<and> length s = length key"
    if "next_key_scan (rev key) = Some s" for s
    using next_key_scan_value [of "rev key" s] next_key_scan_length [of "rev key" s] assms that
    by (simp add: hex_value_def pivot_def)
  then show ?thesis
    by (auto simp: NextKey_def pivot_def next_key_scan_None split: option.splits)
qed

theorem NextKey_increments_witness:
  "list_all is_hex ''10fF'' \<and> pivot ''10fF'' \<noteq> Some CHR ''9''
   \<and> NextKey ''10fF'' = (''1100'', None) \<and> hex_value ''1100'' = hex_value ''10fF'' + 1"
proof -
  have h: "\<forall>c \<in> set ''10fF''. is_hex c" "pivot ''10fF'' \<noteq> Some CHR ''9''"
    by (simp_all add: is_hex_def pivot_def)
  have c: "char_of (49 :: nat) = CHR ''1''"
    using char_of_char [of "CHR ''1''", where ?'a = nat] by simp
  have "NextKey ''10fF'' = (''1100'', None)"
    by (simp add: NextKey_def c)
  with h NextKey_increments [OF h] show ?thesis by simp
qed

text \<open>
  Where the carry stops at a \<open>9\<close> the result is not a hex key: the octet after
  \<open>9\<close> is \<open>:\<close>, so \<open>NextKey("09") = "0:"\<close> and not \<open>"0a"\<close>.
\<close>

theorem NextKey_after_nine:
  "NextKey (p @ CHR ''9'' # replicate k CHR ''f'') = (p @ CHR '':'' # replicate k CHR ''0'', None)
   \<and> \<not> is_hex CHR '':''"
  by (simp add: NextKey_def next_key_scan_pivot is_hex_def)

section \<open>CompactString\<close>

text \<open>Go slices \<open>msg[lo:hi]\<close> panic unless \<open>0 \<le> lo \<le> hi \<le> len\<close>.\<close>

definition str_slice :: "string \<Rightarrow> int \<Rightarrow> int \<Rightarrow> string outcome" where
  "str_slice s lo hi =
     (if 0 \<le> lo \<and> lo \<le> hi \<and> hi \<le> int (length s)
      then Returns (take (nat hi - nat lo) (drop (nat lo) s)) else Panics)"

definition CompactString :: "string \<Rightarrow> int \<Rightarrow> string outcome" where
  "CompactString msg maxLen =
     (if maxLen \<le> 0 then Returns msg
      else
        let l = int (length msg) in
        if l \<le> maxLen \<or> l < 5 then Returns msg
        else
          let cnt = (maxLen - 3) sdiv 2 in
          bind_outcome (str_slice msg 0 cnt) (\<lambda>a.
          bind_outcome (str_slice msg (l - cnt) l) (\<lambda>b.
            Returns (a @ ''...'' @ b))))"

text \<open>\<open>show\<close> is the text that the verb \<open>%+v\<close> gives for a value.\<close>

definition Compact :: "('v \<Rightarrow> string) \<Rightarrow> 'v \<Rightarrow> int \<Rightarrow> string outcome" where
  "Compact show val maxLen = CompactString (show val) maxLen"

lemma half_sdiv: "3 \<le> m \<Longrightarrow> (m - 3) sdiv 2 = (m - 3) div (2 :: int)"
  by (cases "m = 3") (auto simp: signed_divide_int_def sgn_if)

text \<open>
  For a limit of at least 3 the call returns; the result is the message itself
  when it already fits or is shorter than five octets, and otherwise is within the limit, and is a
  prefix and a suffix of equal length around three dots.
\<close>

theorem CompactString_bound:
  assumes "3 \<le> maxLen"
  shows "\<exists>r. CompactString msg maxLen = Returns r \<and>
    (if int (length msg) \<le> maxLen \<or> length msg < 5 then r = msg
     else int (length r) \<le> maxLen \<and>
       (\<exists>n. r = take n msg @ ''...'' @ drop (length msg - n) msg \<and> 2 * int n + 3 \<in> {maxLen - 1, maxLen}))"
proof (cases "int (length msg) \<le> maxLen \<or> length msg < 5")
  case True
  with assms show ?thesis by (auto simp: CompactString_def)
next
  case False
  define n where "n = nat ((maxLen - 3) div 2)"
  have n: "(maxLen - 3) sdiv 2 = int n"
    using assms by (simp add: half_sdiv n_def)
  have two: "2 * int n + 3 \<in> {maxLen - 1, maxLen}"
    using assms unfolding n_def by (auto simp: nat_0_iff)
  with False have le: "n \<le> length msg" by auto
  have "CompactString msg maxLen = Returns (take n msg @ ''...'' @ drop (length msg - n) msg)"
    using False assms le
    by (simp add: CompactString_def Let_def n str_slice_def nat_diff_distrib flip: of_nat_diff)
  moreover have "int (length (take n msg @ ''...'' @ drop (length msg - n) msg)) \<le> maxLen"
    using two le by auto
  ultimately show ?thesis using False two by auto
qed

theorem CompactString_bound_witness:
  "(3 :: int) \<le> 7 \<and> (\<exists>r. CompactString ''abcdefghij'' 7 = Returns r \<and> int (length r) \<le> 7)"
  using CompactString_bound [of 7 "''abcdefghij''"] by auto

text \<open>
  With a limit of 1 every message of at least five octets makes the call panic: the
  count is \<open>(1 - 3) / 2 = -1\<close> and the slice \<open>msg[0:-1]\<close> is out of range.
\<close>

theorem CompactString_limit_one_panics:
  assumes "5 \<le> length msg"
  shows "CompactString msg 1 = Panics"
proof -
  have "(- 2 :: int) sdiv 2 = -1" by (simp add: signed_divide_int_def)
  with assms show ?thesis by (simp add: CompactString_def str_slice_def)
qed

theorem CompactString_limit_one_panics_witness:
  "5 \<le> length ''abcde'' \<and> CompactString ''abcde'' 1 = Panics"
  using CompactString_limit_one_panics [of "''abcde''"] by simp

section \<open>Numbers with defaults\<close>

text \<open>For base 10, the only base the repository passes.\<close>

definition AtoiDef :: "string \<Rightarrow> int \<Rightarrow> int" where
  "AtoiDef s def = (case ParseInt s of Inl _ \<Rightarrow> def | Inr v \<Rightarrow> v)"

definition AtouDef :: "string \<Rightarrow> int \<Rightarrow> int" where
  "AtouDef s def = (case ParseUint s of Inl _ \<Rightarrow> def | Inr v \<Rightarrow> v)"

lemma AtoiDef_FormatInt: "in_i64 v \<Longrightarrow> AtoiDef (FormatInt v) def = v"
  by (simp add: AtoiDef_def ParseInt_FormatInt)

section \<open>The sortable slice and the repeatable flag\<close>

record strkintv =
  skiv_Key :: string
  skiv_Value :: i64

definition SKIV_Less :: "strkintv list \<Rightarrow> nat \<Rightarrow> nat \<Rightarrow> bool" where
  "SKIV_Less s i j = (skiv_Value (s ! i) \<le>s skiv_Value (s ! j))"

definition SKIV_Swap :: "strkintv list \<Rightarrow> nat \<Rightarrow> nat \<Rightarrow> strkintv list" where
  "SKIV_Swap s i j = s[i := s ! j, j := s ! i]"

lemma SKIV_Swap_involutive:
  "i < length s \<Longrightarrow> j < length s \<Longrightarrow> SKIV_Swap (SKIV_Swap s i j) i j = s"
  by (rule nth_equalityI) (auto simp: SKIV_Swap_def nth_list_update)

definition StringList_Set :: "string list \<Rightarrow> string \<Rightarrow> string list" where
  "StringList_Set l v = l @ [v]"

definition StringList_String :: "string list \<Rightarrow> string" where
  "StringList_String l = str_join '' '' l"

end
