(* ===== verification/HelperSys.thy ===== *)
theory HelperSys
  imports HelperUtil
begin

text \<open>
  The rest of \<open>helper.go\<close>: struct-type validation by dereferencing, file-mode tests and directory
  filtering over the results of \<open>os.Stat\<close>, \<open>os.Lstat\<close> and \<open>ioutil.ReadDir\<close> (arguments of the
  model, since they are I/O), the start of a day in a zone of fixed offset, and signal dispatch.
\<close>

unbundle bit_operations_syntax

section \<open>ValidStructType\<close>

text \<open>
  A reflected type: a struct by name, a pointer, or another kind. Self-referential pointer types
  (\<open>type T *T\<close>) are outside the datatype.
\<close>

datatype rtype = RStruct string | RPtr rtype | ROther string

datatype vst_error =
    NilObject
  | ExpectedNotStruct
  | NotStructAfterDeref
  | WrongStruct rtype rtype
  | NotStructKind rtype

fun vst_loop :: "rtype \<Rightarrow> rtype option \<Rightarrow> int \<Rightarrow> vst_error option" where
  "vst_loop (RPtr t) expected count =
     (if count = 0 then Some NotStructAfterDeref
      else vst_loop t expected (if count > 0 then count - 1 else count))"
| "vst_loop (RStruct n) expected count =
     (case expected of
        None \<Rightarrow> None
      | Some e \<Rightarrow> if e = RStruct n then None else Some (WrongStruct (RStruct n) e))"
| "vst_loop (ROther k) expected count = Some (NotStructKind (ROther k))"

definition is_struct :: "rtype \<Rightarrow> bool" where
  "is_struct t = (case t of RStruct _ \<Rightarrow> True | _ \<Rightarrow> False)"

definition ValidStructType ::
    "(rtype, 'v) iface \<Rightarrow> rtype option \<Rightarrow> int \<Rightarrow> vst_error option" where
  "ValidStructType obj expected dereference =
     (case obj of
        None \<Rightarrow> Some NilObject
      | Some (t, _) \<Rightarrow>
          if expected \<noteq> None \<and> \<not> is_struct (the expected) then Some ExpectedNotStruct
          else vst_loop t expected dereference)"

fun ptr_depth :: "rtype \<Rightarrow> nat" where
  "ptr_depth (RPtr t) = Suc (ptr_depth t)"
| "ptr_depth _ = 0"

fun ptr_base :: "rtype \<Rightarrow> rtype" where
  "ptr_base (RPtr t) = ptr_base t"
| "ptr_base t = t"

lemma vst_loop_None:
  "vst_loop t expected count = None \<longleftrightarrow>
     is_struct (ptr_base t) \<and> (expected = None \<or> expected = Some (ptr_base t))
     \<and> (count < 0 \<or> int (ptr_depth t) \<le> count)"
  by (induction t expected count rule: vst_loop.induct) (auto simp: is_struct_def split: option.splits)

text \<open>
  The validation succeeds exactly on a non-nil object whose type, stripped of at
  most \<open>dereference\<close> pointers (of any number when it is negative), is a struct type, the expected one
  if one is given.
\<close>

theorem ValidStructType_ok_iff:
  "ValidStructType obj expected dereference = None \<longleftrightarrow>
     (case obj of None \<Rightarrow> False
      | Some (t, _) \<Rightarrow> is_struct (ptr_base t) \<and> (expected = None \<or> expected = Some (ptr_base t))
          \<and> (dereference < 0 \<or> int (ptr_depth t) \<le> dereference))"
  by (auto simp: ValidStructType_def vst_loop_None is_struct_def split: option.splits rtype.splits)

section \<open>File modes\<close>

record finfo =
  fi_Name :: string
  fi_Mode :: "32 word"
  fi_Size :: i64

text \<open>The type bits of \<open>os.FileMode\<close>.\<close>

definition ModeDir :: "32 word" where "ModeDir = 0x80000000"
definition ModeSymlink :: "32 word" where "ModeSymlink = 0x08000000"
definition ModeSocket :: "32 word" where "ModeSocket = 0x01000000"
definition ModeType :: "32 word" where
  "ModeType = ModeDir OR ModeSymlink OR 0x02000000 OR ModeSocket OR 0x04000000 OR 0x00200000 OR 0x00080000"

lemmas mode_defs = ModeDir_def ModeSymlink_def ModeSocket_def ModeType_def

type_synonym stat_fun = "string \<Rightarrow> finfo option"

definition testFileMode :: "stat_fun \<Rightarrow> stat_fun \<Rightarrow> string \<Rightarrow> 32 word \<Rightarrow> bool \<Rightarrow> bool \<times> bool" where
  "testFileMode stat lstat path m followSymlink =
     (case (if followSymlink then stat path else lstat path) of
        None \<Rightarrow> (False, True)
      | Some fi \<Rightarrow> ((fi_Mode fi AND m) \<noteq> 0, False))"

definition IsDir :: "stat_fun \<Rightarrow> stat_fun \<Rightarrow> string \<Rightarrow> bool" where
  "IsDir stat lstat path = fst (testFileMode stat lstat path ModeDir True)"

definition IsFile :: "stat_fun \<Rightarrow> stat_fun \<Rightarrow> string \<Rightarrow> bool" where
  "IsFile stat lstat path =
     (let (ret, err) = testFileMode stat lstat path ModeType True
      in if err then False else \<not> ret)"

definition IsUnixSocket :: "stat_fun \<Rightarrow> stat_fun \<Rightarrow> string \<Rightarrow> bool" where
  "IsUnixSocket stat lstat path = fst (testFileMode stat lstat path ModeSocket True)"

definition IsSymbolLink :: "stat_fun \<Rightarrow> stat_fun \<Rightarrow> string \<Rightarrow> bool" where
  "IsSymbolLink stat lstat path = fst (testFileMode stat lstat path ModeSymlink False)"

datatype size_error = StatFailed | IsADirectory

definition FileSize :: "stat_fun \<Rightarrow> string \<Rightarrow> i64 \<times> size_error option" where
  "FileSize stat path =
     (case stat path of
        None \<Rightarrow> (- 1, Some StatFailed)
      | Some fi \<Rightarrow>
          if (fi_Mode fi AND ModeDir) \<noteq> 0 then (- 2, Some IsADirectory) else (fi_Size fi, None))"

lemma and_ModeType_0:
  fixes m :: "32 word"
  assumes "m AND ModeType = 0"
  shows "m AND ModeDir = 0" "m AND ModeSocket = 0" "m AND ModeSymlink = 0"
proof -
  have "m AND x = 0" if "x = x AND ModeType" for x
  proof -
    have "m AND x = m AND (x AND ModeType)" using that by simp
    also have "\<dots> = (m AND ModeType) AND x" by (simp add: and.assoc and.commute [of x])
    finally show ?thesis using assms by simp
  qed
  then show "m AND ModeDir = 0" "m AND ModeSocket = 0" "m AND ModeSymlink = 0"
    by (simp_all add: mode_defs)
qed

text \<open>
  A path is a regular file only if it can be examined, and then it is neither a directory
  nor a socket; a path that cannot be examined is none of the three.
\<close>

theorem IsFile_exclusive:
  "(IsFile stat lstat path \<longrightarrow> \<not> IsDir stat lstat path \<and> \<not> IsUnixSocket stat lstat path)
   \<and> (stat path = None \<longrightarrow>
        \<not> IsFile stat lstat path \<and> \<not> IsDir stat lstat path \<and> \<not> IsUnixSocket stat lstat path
        \<and> FileSize stat path = (- 1, Some StatFailed))"
  using and_ModeType_0
  by (auto simp: IsFile_def IsDir_def IsUnixSocket_def testFileMode_def FileSize_def split: option.splits)

definition demo_stat :: stat_fun where
  "demo_stat p = (if p = ''/f'' then Some \<lparr>fi_Name = p, fi_Mode = 0x1A4, fi_Size = 12\<rparr> else None)"

lemma IsFile_exclusive_witness:
  "IsFile demo_stat demo_stat ''/f'' \<and> \<not> IsDir demo_stat demo_stat ''/f''
   \<and> \<not> IsFile demo_stat demo_stat ''/x'' \<and> FileSize demo_stat ''/x'' = (- 1, Some StatFailed)"
proof -
  have "IsFile demo_stat demo_stat ''/f''" "demo_stat ''/x'' = None"
    by (simp_all add: IsFile_def testFileMode_def demo_stat_def mode_defs)
  then show ?thesis
    using IsFile_exclusive [of demo_stat demo_stat "''/f''"] IsFile_exclusive [of demo_stat demo_stat "''/x''"]
    by blast
qed

section \<open>FindFiles\<close>

datatype find_error = InvalidTopDir | ListFailed

definition FindFiles ::
    "stat_fun \<Rightarrow> stat_fun \<Rightarrow> (string \<Rightarrow> finfo list option) \<Rightarrow> string \<Rightarrow> string
     \<Rightarrow> (string \<Rightarrow> string \<Rightarrow> bool) \<Rightarrow> find_error + string list" where
  "FindFiles stat lstat readDir topdir pattern filt =
     (if \<not> IsDir stat lstat topdir then Inl InvalidTopDir
      else case readDir topdir of
             None \<Rightarrow> Inl ListFailed
           | Some info \<Rightarrow>
               Inr (sort (map fi_Name
                 (filter (\<lambda>e. (fi_Mode e AND ModeDir) = 0 \<and> filt (fi_Name e) pattern) info))))"

lemma FindFiles_sorted: "FindFiles stat lstat readDir topdir pattern filt = Inr res \<Longrightarrow> sorted res"
  by (auto simp: FindFiles_def split: if_splits option.splits)

lemma FindFiles_set:
  "FindFiles stat lstat readDir topdir pattern filt = Inr res \<Longrightarrow> readDir topdir = Some info \<Longrightarrow>
   set res = {fi_Name e |e. e \<in> set info \<and> (fi_Mode e AND ModeDir) = 0 \<and> filt (fi_Name e) pattern}"
  by (auto simp: FindFiles_def split: if_splits option.splits)

section \<open>Days\<close>

text \<open>
  \<open>UnixTodayZero\<close> reads the civil date of the instant in the zone and returns the instant of its
  midnight; in a zone of fixed offset \<open>off\<close> (such as \<open>LocationCST\<close>, 8 hours) the civil date is
  the number of whole days of local time.
\<close>

definition LocationCST :: int where "LocationCST = 8 * 3600"

definition UnixTodayZero :: "int \<Rightarrow> int \<Rightarrow> int" where
  "UnixTodayZero tsUtcNow off = ((tsUtcNow + off) div 86400) * 86400 - off"

definition UnixDateLocation :: "int \<Rightarrow> int \<Rightarrow> int \<Rightarrow> int" where
  "UnixDateLocation now offDay off = UnixTodayZero now off + offDay * 86400"

definition UnixDate :: "int \<Rightarrow> int \<Rightarrow> int" where
  "UnixDate now offDay = UnixDateLocation now offDay LocationCST"

text \<open>\<open>off\<close> is the offset of the local time zone in seconds; the error shows it and the zone expected.\<close>

definition IsTimeZone :: "int \<Rightarrow> int \<Rightarrow> (int \<times> int) option" where
  "IsTimeZone off zone = (if off = 3600 * zone then None else Some (off, zone))"

text \<open>
  \<open>GetDirectorySize\<close> over what \<open>filepath.Walk\<close> comes across, in its order: an error, or whether it is a directory
  and its size. An error ends the walk.
\<close>

fun directory_size :: "i64 \<Rightarrow> (string + bool \<times> i64) list \<Rightarrow> i64 \<times> string option" where
  "directory_size acc [] = (acc, None)"
| "directory_size acc (Inl e # es) = (acc, Some e)"
| "directory_size acc (Inr (isDir, sz) # es) = directory_size (if isDir then acc else acc + sz) es"

definition GetDirectorySize :: "(string + bool \<times> i64) list \<Rightarrow> i64 \<times> string option" where
  "GetDirectorySize es = directory_size 0 es"

lemma directory_size_sum:
  "directory_size acc (map Inr es) = (acc + sum_list (map snd (filter (\<lambda>e. \<not> fst e) es)), None)"
  by (induction es arbitrary: acc) (auto simp: add.assoc)

lemma UnixTodayZero_of_midnight: "UnixTodayZero (k * 86400 - off) off = k * 86400 - off"
  by (simp add: UnixTodayZero_def)

text \<open>
  The start of the day is a local midnight at most one day before the instant, is its own
  start of the day, and the starts of two days differ by the number of days between them.
\<close>

theorem UnixTodayZero_midnight:
  "(UnixTodayZero now off + off) mod 86400 = 0
   \<and> UnixTodayZero now off \<le> now \<and> now < UnixTodayZero now off + 86400
   \<and> UnixTodayZero (UnixDateLocation now i off) off = UnixDateLocation now i off
   \<and> UnixDateLocation now j off - UnixDateLocation now i off = (j - i) * 86400"
proof -
  define q where "q = (now + off) div 86400"
  have z: "UnixTodayZero now off = q * 86400 - off" by (simp add: UnixTodayZero_def q_def)
  have d: "UnixDateLocation now k off = (q + k) * 86400 - off" for k
    unfolding UnixDateLocation_def z distrib_right by linarith
  have "q * 86400 \<le> now + off" "now + off < q * 86400 + 86400"
    using div_mult_mod_eq [of "now + off" 86400] pos_mod_bound [of 86400 "now + off"]
      pos_mod_sign [of 86400 "now + off"] unfolding q_def by linarith+
  moreover have "(q + j) * 86400 - off - ((q + i) * 86400 - off) = (j - i) * 86400"
    unfolding distrib_right left_diff_distrib by linarith
  ultimately show ?thesis
    unfolding d UnixTodayZero_of_midnight z by (intro conjI) (simp, linarith, linarith, simp, simp)
qed

section \<open>OnSignal\<close>

text \<open>
  \<open>sigActions\<close> is nil until the first call, which makes the map and starts the capture thread;
  \<open>notified\<close> records the calls of \<open>signal.Notify\<close> and \<open>captureThreads\<close> the threads started.
\<close>

record 'f sigstate =
  sigActions :: "(int \<rightharpoonup> 'f list) option"
  notified :: "int list"
  captureThreads :: nat

definition onsignal_one :: "'f \<Rightarrow> int \<Rightarrow> (int \<rightharpoonup> 'f list) \<times> int list \<Rightarrow> (int \<rightharpoonup> 'f list) \<times> int list" where
  "onsignal_one f sig = (\<lambda>(m, ns).
     (let m' = (if m sig = None then m(sig \<mapsto> []) else m);
          ns' = (if m sig = None then ns @ [sig] else ns)
      in (m'(sig \<mapsto> the (m' sig) @ [f]), ns')))"

definition OnSignal :: "'f \<Rightarrow> int list \<Rightarrow> 'f sigstate \<Rightarrow> 'f sigstate" where
  "OnSignal f sigs st =
     (let st1 = (if sigActions st = None
                 then st\<lparr>sigActions := Some Map.empty, captureThreads := captureThreads st + 1\<rparr> else st);
          (m, ns) = fold (onsignal_one f) sigs (the (sigActions st1), notified st1)
      in st1\<lparr>sigActions := Some m, notified := ns\<rparr>)"

text \<open>One turn of the capture thread: the functions invoked for a signal, in order.\<close>

definition signal_dispatch :: "'f sigstate \<Rightarrow> int \<Rightarrow> 'f list outcome" where
  "signal_dispatch st sig =
     (case sigActions st of None \<Rightarrow> Panics
      | Some m \<Rightarrow> (case m sig of None \<Rightarrow> Panics | Some fs \<Rightarrow> Returns fs))"

definition sig_inv :: "'f sigstate \<Rightarrow> bool" where
  "sig_inv st \<longleftrightarrow>
     distinct (notified st)
     \<and> set (notified st) = (case sigActions st of None \<Rightarrow> {} | Some m \<Rightarrow> dom m)
     \<and> captureThreads st = (case sigActions st of None \<Rightarrow> 0 | Some _ \<Rightarrow> 1)"

definition actions_of :: "(int \<rightharpoonup> 'f list) \<Rightarrow> int \<Rightarrow> 'f list" where
  "actions_of m sig = (case m sig of None \<Rightarrow> [] | Some fs \<Rightarrow> fs)"

definition registered :: "'f sigstate \<Rightarrow> int \<Rightarrow> 'f list" where
  "registered st sig = (case sigActions st of None \<Rightarrow> [] | Some m \<Rightarrow> actions_of m sig)"

lemma fold_onsignal_one:
  assumes "fold (onsignal_one f) sigs (m, ns) = (m', ns')" "distinct ns" "set ns = dom m"
  shows "distinct ns' \<and> set ns' = dom m' \<and> dom m' = dom m \<union> set sigs
    \<and> (\<forall>s. actions_of m' s = actions_of m s @ replicate (count_list sigs s) f)"
  using assms
proof (induction sigs arbitrary: m ns)
  case Nil
  then show ?case by simp
next
  case (Cons s sigs)
  obtain m1 ns1 where one: "onsignal_one f s (m, ns) = (m1, ns1)" by fastforce
  from one Cons.prems(2,3) have
    "distinct ns1" "set ns1 = dom m1" "dom m1 = insert s (dom m)"
    and m1: "\<And>t. actions_of m1 t = actions_of m t @ (if t = s then [f] else [])"
    by (auto simp: onsignal_one_def actions_of_def Let_def domIff split: if_splits)
  moreover from Cons.prems(1) one have "fold (onsignal_one f) sigs (m1, ns1) = (m', ns')" by simp
  ultimately show ?case using Cons.IH [of m1 ns1] by auto
qed

text \<open>
  Registration keeps the invariant that a signal is passed to \<open>signal.Notify\<close> once, when
  it first gets an action, and that there is one capture thread; afterwards a listed signal runs its
  earlier actions in order and then the new one, once for each time it is listed.
\<close>

theorem OnSignal_dispatch:
  assumes "sig_inv st"
  shows "sig_inv (OnSignal f sigs st)
    \<and> registered (OnSignal f sigs st) sig = registered st sig @ replicate (count_list sigs sig) f
    \<and> (sig \<in> set sigs \<longrightarrow>
         signal_dispatch (OnSignal f sigs st) sig = Returns (registered (OnSignal f sigs st) sig))"
proof -
  define m where "m = (case sigActions st of None \<Rightarrow> Map.empty | Some m \<Rightarrow> m)"
  obtain m' ns' where run: "fold (onsignal_one f) sigs (m, notified st) = (m', ns')" by fastforce
  from assms have inv: "distinct (notified st)" "set (notified st) = dom m"
    by (auto simp: sig_inv_def m_def split: option.splits)
  have os: "OnSignal f sigs st = st\<lparr>sigActions := Some m', notified := ns', captureThreads := 1\<rparr>"
    using assms run by (auto simp: OnSignal_def sig_inv_def m_def split: option.splits)
  have reg: "registered st sig = actions_of m sig"
    by (auto simp: registered_def m_def actions_of_def split: option.splits)
  have disp: "sig \<in> dom m' \<Longrightarrow> signal_dispatch (OnSignal f sigs st) sig = Returns (actions_of m' sig)"
    by (auto simp: os signal_dispatch_def actions_of_def)
  have reg': "registered (OnSignal f sigs st) sig = actions_of m' sig"
    by (simp add: os registered_def)
  from fold_onsignal_one [OF run inv] disp show ?thesis
    unfolding reg reg' by (auto simp: os sig_inv_def)
qed

theorem OnSignal_dispatch_witness:
  "sig_inv (\<lparr>sigActions = None, notified = [], captureThreads = 0\<rparr> :: string sigstate)
   \<and> signal_dispatch (OnSignal ''g'' [15, 2] (OnSignal ''f'' [15]
        \<lparr>sigActions = None, notified = [], captureThreads = 0\<rparr>)) 15 = Returns [''f'', ''g'']"
proof -
  let ?st = "\<lparr>sigActions = None, notified = [], captureThreads = 0\<rparr> :: string sigstate"
  have i: "sig_inv ?st" by (simp add: sig_inv_def)
  from OnSignal_dispatch [OF i, of "''f''" "[15]" 15]
  have j: "sig_inv (OnSignal ''f'' [15] ?st)" "registered (OnSignal ''f'' [15] ?st) 15 = [''f'']"
    by (auto simp: registered_def [of ?st])
  from OnSignal_dispatch [OF j(1), of "''g''" "[15, 2]" 15] i j(2) show ?thesis by simp
qed

end
