(* ===== verification/HelperProc.thy ===== *)
theory HelperProc
  imports GoPrelude
begin

text \<open>
  The part of \<open>helper.go\<close> that acts on the process: recovering from a panic, commands of a shell, ending the
  process, and the place of a caller. What happens outside is a list of effects, in order; the text of a panic, the
  values of a format and the call stack are arguments.
\<close>

section \<open>Recovering\<close>

datatype recover_effect = PrintStack | WriteStderr string

text \<open>
  What the deferred call does with a panic of text \<open>e\<close>: its effects, and the text of the panic it starts itself.
  The message is the \<^emph>\<open>format\<close> of \<open>Fprintf\<close>, which has no values; \<open>fprintf\<close> is what that gives.
\<close>

definition recover_text :: "string \<Rightarrow> string \<Rightarrow> string" where
  "recover_text msg e = ''recover: '' @ msg @ '' found exception: '' @ e"

definition Recover :: "(string \<Rightarrow> string) \<Rightarrow> string \<Rightarrow> bool \<Rightarrow> bool \<Rightarrow> string option \<Rightarrow> recover_effect list \<times> string option" where
  "Recover fprintf msg stackTrace panic exc =
     (case exc of
        None \<Rightarrow> ([], None)
      | Some e \<Rightarrow>
          let trace = (if stackTrace then [PrintStack] else []); str = recover_text msg e in
          if panic then (trace @ [WriteStderr str], Some str) else (trace @ [WriteStderr (fprintf str)], None))"

text \<open>A call with a deferred \<open>Recover\<close>: its own outcome, or the panic that stands after it.\<close>

definition with_Recover ::
    "(string \<Rightarrow> string) \<Rightarrow> string \<Rightarrow> bool \<Rightarrow> bool \<Rightarrow> string + 'a \<Rightarrow> recover_effect list \<times> string option \<times> 'a option" where
  "with_Recover fprintf msg stackTrace panic body =
     (case body of
        Inr x \<Rightarrow> (case Recover fprintf msg stackTrace panic None of (es, p) \<Rightarrow> (es, p, Some x))
      | Inl e \<Rightarrow> (case Recover fprintf msg stackTrace panic (Some e) of (es, p) \<Rightarrow> (es, p, None)))"

lemma with_Recover_nested:
  "with_Recover fprintf outer False False
     (case with_Recover fprintf inner False panic body of (es, Some p, r) \<Rightarrow> Inl p | (es, None, r) \<Rightarrow> Inr r)
   = (case body of
        Inr x \<Rightarrow> ([], None, Some (Some x))
      | Inl e \<Rightarrow> if panic then ([WriteStderr (fprintf (recover_text outer (recover_text inner e)))], None, None)
                else ([], None, Some None))"
  by (cases body; cases panic) (simp_all add: with_Recover_def Recover_def Let_def)

section \<open>Commands\<close>

record shell_cmd =
  sc_Path :: string
  sc_Args :: "string list"
  sc_Setpgid :: bool

text \<open>\<open>sprintf\<close> is \<open>fmt.Sprintf\<close>; a format without values is the command as it stands.\<close>

definition ShellCommand :: "(string \<Rightarrow> 'v list \<Rightarrow> string) \<Rightarrow> string \<Rightarrow> 'v list \<Rightarrow> shell_cmd" where
  "ShellCommand sprintf format args =
     \<lparr>sc_Path = ''sh'', sc_Args = [''-c'', if args \<noteq> [] then sprintf format args else format], sc_Setpgid = True\<rparr>"

section \<open>Ending the process\<close>

definition SIGINT :: int where "SIGINT = 2"
definition SIGKILL :: int where "SIGKILL = 9"
definition SIGTERM :: int where "SIGTERM = 15"

datatype proc_effect = ResetSignal int | Kill int int | KillFailed int int string | SleepFor int | WaitTooLong int | PanicKilled int

text \<open>\<open>kill\<close> is the system's answer for a process (or the group of the negated one) and a signal.\<close>

definition send_signal :: "(int \<Rightarrow> int \<Rightarrow> string option) \<Rightarrow> int \<Rightarrow> int \<Rightarrow> proc_effect list" where
  "send_signal kill p sig = Kill p sig # (case kill p sig of None \<Rightarrow> [] | Some e \<Rightarrow> [KillFailed p sig e])"

text \<open>All that is done unless a signal ends the process on the way.\<close>

definition Terminate :: "(int \<Rightarrow> int \<Rightarrow> string option) \<Rightarrow> int \<Rightarrow> int \<Rightarrow> proc_effect list" where
  "Terminate kill pid t =
     [ResetSignal SIGTERM, ResetSignal SIGINT] @ send_signal kill (- pid) SIGTERM @ send_signal kill pid SIGTERM
     @ [SleepFor t, WaitTooLong t] @ send_signal kill (- pid) SIGKILL @ send_signal kill pid SIGKILL @ [PanicKilled pid]"

text \<open>
  What is done up to the signal that ends the process; \<open>deadly p sig\<close> tells whether sending it does. The process gets
  \<open>SIGTERM\<close> for its group first and \<open>SIGKILL\<close> only after the wait.
\<close>

fun until_dead :: "(int \<Rightarrow> int \<Rightarrow> bool) \<Rightarrow> proc_effect list \<Rightarrow> proc_effect list" where
  "until_dead deadly [] = []"
| "until_dead deadly (Kill p sig # es) = Kill p sig # (if deadly p sig then [] else until_dead deadly es)"
| "until_dead deadly (e # es) = e # until_dead deadly es"

lemma until_dead_send:
  "until_dead deadly (send_signal kill p sig @ es) =
     (if deadly p sig then [Kill p sig] else send_signal kill p sig @ until_dead deadly es)"
  by (auto simp: send_signal_def split: option.split)

lemma Terminate_gentle_first:
  "deadly (- pid) SIGTERM \<or> deadly pid SIGTERM \<Longrightarrow> Kill p SIGKILL \<notin> set (until_dead deadly (Terminate kill pid t))"
  by (auto simp: Terminate_def until_dead_send send_signal_def SIGKILL_def SIGTERM_def SIGINT_def split: option.splits)

lemma Terminate_panics_iff:
  "PanicKilled pid \<in> set (until_dead deadly (Terminate kill pid t)) \<longleftrightarrow>
     \<not> (deadly (- pid) SIGTERM \<or> deadly pid SIGTERM \<or> deadly (- pid) SIGKILL \<or> deadly pid SIGKILL)"
  by (auto simp: Terminate_def until_dead_send send_signal_def split: option.splits)

section \<open>Callers\<close>

record pc_file_line =
  pfl_PC :: nat
  pfl_File :: string
  pfl_Line :: int

text \<open>\<open>runtime.Caller\<close> on a call stack, innermost first: position 0 is the caller of it. Outside there are zero values.\<close>

definition runtime_Caller :: "pc_file_line list \<Rightarrow> int \<Rightarrow> pc_file_line \<times> bool" where
  "runtime_Caller stack skip =
     (if skip < 0 \<or> int (length stack) \<le> skip then (\<lparr>pfl_PC = 0, pfl_File = [], pfl_Line = 0\<rparr>, False)
      else (stack ! nat skip, True))"

text \<open>\<open>own\<close> is the frame of \<open>GetPCFileLine\<close> itself.\<close>

definition GetPCFileLine :: "pc_file_line \<Rightarrow> pc_file_line list \<Rightarrow> int \<Rightarrow> pc_file_line" where
  "GetPCFileLine own stack backTraceCnt = fst (runtime_Caller (own # stack) (1 + backTraceCnt))"

lemma GetPCFileLine_nth:
  "0 \<le> n \<Longrightarrow> n < int (length stack) \<Longrightarrow> GetPCFileLine own stack n = stack ! nat n"
  by (simp add: GetPCFileLine_def runtime_Caller_def nat_add_distrib)

end
