(* ===== verification/FlushQueue.thy ===== *)
theory FlushQueue
  imports GoPrelude
begin

text \<open>
  \<open>queue/queue.go\<close>: a mutex-protected queue of interface values whose content is handed to a flush
  function when a capacity is reached, on a ticker, or when the flush thread is stopped.

  The record \<open>queue\<close> has the fields of \<open>Queue\<close>; \<open>q_out\<close> records each batch \<open>flushQueue\<close> removed,
  with the function it was handed to (\<open>None\<close>: no function was set, so the batch went nowhere).
  The second half is a step relation for one client goroutine and the flush thread: the client
  holds the mutex across the two channel operations of \<open>StopFlushThread\<close>.
\<close>

section \<open>The operations under the mutex\<close>

text \<open>A \<open>time.Ticker\<close>: whether it runs and whether a tick waits in its channel of capacity 1.\<close>

record ticker =
  tk_running :: bool
  tk_pending :: bool

record ('t, 'v, 'f) queue =
  q_elemType :: "'t option"
  q_elems :: "('t, 'v) iface list"
  q_flushCap :: int
  q_ticker :: "ticker option"
  q_f :: "'f option"
  q_out :: "('f option \<times> ('t, 'v) iface list) list"

datatype 't queue_error = QNilValue 't | QWrongType 't "'t option"

definition queue_New :: "'t option \<Rightarrow> ('t, 'v, 'f) queue" where
  "queue_New t = \<lparr>q_elemType = t, q_elems = [], q_flushCap = 0, q_ticker = None, q_f = None, q_out = []\<rparr>"

definition flushQueue :: "('t, 'v, 'f) queue \<Rightarrow> ('t, 'v, 'f) queue" where
  "flushQueue q =
     (let count = length (q_elems q) in
      if count = 0 then q
      else q\<lparr>q_out := q_out q @ [(q_f q, q_elems q)], q_elems := []\<rparr>)"

text \<open>The two type checks at the head of \<open>Add\<close>; both require a declared element type.\<close>

definition queue_check :: "('t, 'v, 'f) queue \<Rightarrow> ('t, 'v) iface \<Rightarrow> 't queue_error option" where
  "queue_check q val =
     (case q_elemType q of
        None \<Rightarrow> None
      | Some t \<Rightarrow>
          if val = None then Some (QNilValue t)
          else if TypeOf val \<noteq> Some t then Some (QWrongType t (TypeOf val))
          else None)"

definition queue_Add ::
    "('t, 'v, 'f) queue \<Rightarrow> ('t, 'v) iface \<Rightarrow> ('t, 'v, 'f) queue \<times> 't queue_error option" where
  "queue_Add q val =
     (case queue_check q val of
        Some e \<Rightarrow> (q, Some e)
      | None \<Rightarrow>
          let q1 = q\<lparr>q_elems := q_elems q @ [val]\<rparr> in
          (if q_flushCap q1 > 0 \<and> int (length (q_elems q1)) \<ge> q_flushCap q1
           then flushQueue q1 else q1, None))"

text \<open>
  \<open>Elements\<close> returns the slice itself, or a new typed slice; setting an element of the typed slice
  panics unless the element has exactly the slice's type.
\<close>

datatype ('t, 'v) elements = UntypedSlice "('t, 'v) iface list" | TypedSlice 't "'v list"

definition queue_Elements :: "('t, 'v, 'f) queue \<Rightarrow> ('t, 'v) elements outcome" where
  "queue_Elements q =
     (case q_elemType q of
        None \<Rightarrow> Returns (UntypedSlice (q_elems q))
      | Some t \<Rightarrow>
          bind_outcome
            (collect_outcomes (map (\<lambda>e. case e of
               None \<Rightarrow> Panics
             | Some (t', v) \<Rightarrow> if t' = t then Returns v else Panics) (q_elems q)))
            (\<lambda>vs. Returns (TypedSlice t vs)))"

definition queue_typed :: "('t, 'v, 'f) queue \<Rightarrow> bool" where
  "queue_typed q \<longleftrightarrow>
     (\<forall>t. q_elemType q = Some t \<longrightarrow> (\<forall>e \<in> set (q_elems q). TypeOf e = Some t))"

lemma flushQueue_simps [simp]:
  "q_elems (flushQueue q) = []" "q_elemType (flushQueue q) = q_elemType q"
  "q_flushCap (flushQueue q) = q_flushCap q" "q_ticker (flushQueue q) = q_ticker q"
  "q_f (flushQueue q) = q_f q"
  by (simp_all add: flushQueue_def Let_def)

lemma concat_flushQueue:
  "concat (map snd (q_out (flushQueue q))) = concat (map snd (q_out q)) @ q_elems q"
  by (simp add: flushQueue_def Let_def)

lemma queue_Add_fst:
  "fst (queue_Add q v) \<in> {q, q\<lparr>q_elems := q_elems q @ [v]\<rparr>, flushQueue (q\<lparr>q_elems := q_elems q @ [v]\<rparr>)}"
  by (simp add: queue_Add_def Let_def split: option.split)

lemma queue_Add_frame [simp]:
  "q_elemType (fst (queue_Add q v)) = q_elemType q" "q_f (fst (queue_Add q v)) = q_f q"
  "q_ticker (fst (queue_Add q v)) = q_ticker q"
  "q_flushCap (fst (queue_Add q v)) = q_flushCap q"
  using queue_Add_fst [of q v] by auto

lemma queue_Add_error: "snd (queue_Add q v) = queue_check q v"
  "queue_check q v \<noteq> None \<Longrightarrow> fst (queue_Add q v) = q"
  by (auto simp: queue_Add_def Let_def split: option.split)

lemma queue_check_None:
  "queue_check q v = None \<longleftrightarrow> (\<forall>t. q_elemType q = Some t \<longrightarrow> TypeOf v = Some t)"
  by (auto simp: queue_check_def split: option.splits)

lemma queue_Add_typed: "queue_typed q \<Longrightarrow> queue_typed (fst (queue_Add q v))"
  by (auto simp: queue_typed_def queue_Add_def Let_def queue_check_None split: option.splits)

lemma queue_Add_concat:
  "queue_check q v = None \<Longrightarrow>
   concat (map snd (q_out (fst (queue_Add q v)))) @ q_elems (fst (queue_Add q v)) =
   concat (map snd (q_out q)) @ q_elems q @ [v]"
  by (simp add: queue_Add_def Let_def concat_flushQueue)

lemma queue_typed_flush [simp]: "queue_typed (flushQueue q)"
  by (simp add: queue_typed_def)

text \<open>
  C26. \<open>Add\<close> rejects exactly a value whose type is not the declared element type (nil
  included) and then changes nothing; otherwise the value goes behind what is queued, and if that
  fills the capacity the whole batch, the value last, is removed for the flush function. In either
  case the queue keeps its type invariant and, when a capacity is set, is below it after an
  accepted value.
\<close>

theorem queue_Add_spec:
  assumes "queue_typed q" and "queue_Add q v = (q', e)"
  shows "queue_typed q' \<and>
    (if \<exists>t. q_elemType q = Some t \<and> TypeOf v \<noteq> Some t then e \<noteq> None \<and> q' = q
     else e = None \<and>
       q' = (if q_flushCap q > 0 \<and> int (length (q_elems q)) + 1 \<ge> q_flushCap q
             then q\<lparr>q_out := q_out q @ [(q_f q, q_elems q @ [v])], q_elems := []\<rparr>
             else q\<lparr>q_elems := q_elems q @ [v]\<rparr>)
       \<and> (q_flushCap q > 0 \<longrightarrow> int (length (q_elems q')) < q_flushCap q'))"
proof (cases "queue_check q v")
  case None
  with queue_Add_typed [OF assms(1), of v] assms(2) show ?thesis
    by (simp add: queue_check_None) (auto simp: queue_Add_def Let_def flushQueue_def None)
next
  case (Some err)
  then have "\<exists>t. q_elemType q = Some t \<and> TypeOf v \<noteq> Some t"
    using queue_check_None [of q v] by auto
  moreover from assms Some have "q' = q" "e = Some err"
    by (simp_all add: queue_Add_def)
  ultimately show ?thesis using assms(1) by auto
qed

theorem queue_Add_spec_witness:
  "queue_typed (queue_New (Some ''int'') :: (string, int, string) queue)
   \<and> queue_Add (queue_New (Some ''int'') :: (string, int, string) queue) (Some (''string'', 1))
     = (queue_New (Some ''int''), Some (QWrongType ''int'' (Some ''string'')))"
proof -
  let ?q = "queue_New (Some ''int'') :: (string, int, string) queue"
  have t: "queue_typed ?q" by (simp add: queue_typed_def queue_New_def)
  have a: "queue_Add ?q (Some (''string'', 1)) = (?q, Some (QWrongType ''int'' (Some ''string'')))"
    by (simp add: queue_Add_def queue_check_def queue_New_def)
  from queue_Add_spec [OF t a] t a show ?thesis by simp
qed

text \<open>
  On a queue that respects its element type \<open>Elements\<close> never panics: without a
  declared type it is the queued values, with one it is the slice of their payloads.
\<close>

theorem queue_Elements_total:
  assumes "queue_typed q"
  shows "queue_Elements q = Returns (case q_elemType q of
      None \<Rightarrow> UntypedSlice (q_elems q)
    | Some t \<Rightarrow> TypedSlice t (map (snd \<circ> the) (q_elems q)))"
proof (cases "q_elemType q")
  case None
  then show ?thesis by (simp add: queue_Elements_def)
next
  case (Some t)
  have "collect_outcomes (map (\<lambda>e. case e of None \<Rightarrow> Panics
      | Some (t', v) \<Rightarrow> if t' = t then Returns v else Panics) (q_elems q))
    = Returns (map (snd \<circ> the) (q_elems q))"
    by (rule collect_outcomes_map_Returns)
      (use assms Some in \<open>auto simp: queue_typed_def TypeOf_def split: option.splits\<close>)
  with Some show ?thesis by (simp add: queue_Elements_def)
qed

theorem queue_Elements_total_witness:
  "queue_typed (fst (queue_Add (queue_New (Some ''int'') :: (string, int, string) queue) (Some (''int'', 7))))
   \<and> queue_Elements (fst (queue_Add (queue_New (Some ''int'') :: (string, int, string) queue) (Some (''int'', 7))))
     = Returns (TypedSlice ''int'' [7])"
proof -
  let ?q = "fst (queue_Add (queue_New (Some ''int'') :: (string, int, string) queue) (Some (''int'', 7)))"
  have t: "queue_typed ?q"
    by (rule queue_Add_typed) (simp add: queue_typed_def queue_New_def)
  from queue_Elements_total [OF t] t show ?thesis
    by (simp add: queue_Add_def queue_check_def queue_New_def)
qed

section \<open>The client and the flush thread\<close>

text \<open>
  A client goroutine calls the operations one after the other; the flush thread runs \<open>flushThread\<close>.
  \<open>CStop\<close> states are inside \<open>StopFlushThread\<close> (called directly, or by \<open>StartFlushThread\<close> with the
  arguments it continues with): first the send on \<open>abortChan\<close>, then the receive from \<open>threadDone\<close>,
  both with the mutex held and both unbuffered. Sections that hold the mutex and do not block are
  one step, enabled when the mutex is free.
\<close>

type_synonym 'f start_args = "('f \<times> int \<times> int) option"

datatype 'f client = CIdle | CSendAbort "'f start_args" | CWaitDone "'f start_args" | CStart "'f \<times> int \<times> int"

text \<open>
  \<open>TEnter\<close> is about to evaluate the operands of its \<open>select\<close>, \<open>TSelect\<close> waits in it, \<open>TWantLock\<close>
  received a tick and is at \<open>q.Lock()\<close>, \<open>TAborted\<close> left the loop.
\<close>

datatype fthread = TNone | TEnter | TSelect | TWantLock | TAborted

record ('t, 'v, 'f) qsys =
  qs_q :: "('t, 'v, 'f) queue"
  qs_held :: bool
  qs_client :: "'f client"
  qs_thread :: fthread
  qs_crashed :: bool
  qs_accepted :: "('t, 'v) iface list"

definition stop_tail :: "'f start_args \<Rightarrow> 'f client" where
  "stop_tail cont = (case cont of None \<Rightarrow> CIdle | Some a \<Rightarrow> CStart a)"

text \<open>\<open>StopFlushThread\<close> up to the channel send.\<close>

definition stop_begin :: "'f start_args \<Rightarrow> ('t, 'v, 'f) qsys \<Rightarrow> ('t, 'v, 'f) qsys" where
  "stop_begin cont s =
     (if q_f (qs_q s) \<noteq> None
      then s\<lparr>qs_q := flushQueue (qs_q s), qs_held := True, qs_client := CSendAbort cont\<rparr>
      else s\<lparr>qs_client := stop_tail cont\<rparr>)"

text \<open>\<open>StartFlushThread\<close> after \<open>StopFlushThread\<close> has returned.\<close>

definition start_tail :: "'f \<times> int \<times> int \<Rightarrow> ('t, 'v, 'f) qsys \<Rightarrow> ('t, 'v, 'f) qsys" where
  "start_tail = (\<lambda>(f, cap, t) s.
     let q1 = (qs_q s)\<lparr>q_f := Some f\<rparr>;
         q2 = (if cap > 0 then q1\<lparr>q_flushCap := cap\<rparr> else q1);
         q3 = (if t > 0 then q2\<lparr>q_ticker := Some \<lparr>tk_running = True, tk_pending = False\<rparr>\<rparr> else q2)
     in s\<lparr>qs_q := q3, qs_client := CIdle, qs_thread := TEnter\<rparr>)"

text \<open>The flush thread after its loop: stop the ticker, then the hand-over on \<open>threadDone\<close>.\<close>

definition stop_ticker :: "('t, 'v, 'f) queue \<Rightarrow> ('t, 'v, 'f) queue" where
  "stop_ticker q = q\<lparr>q_ticker := map_option (\<lambda>k. k\<lparr>tk_running := False\<rparr>) (q_ticker q)\<rparr>"

inductive qstep :: "('t, 'v, 'f) qsys \<Rightarrow> ('t, 'v, 'f) qsys \<Rightarrow> bool" where
  step_add: "\<not> qs_crashed s \<Longrightarrow> qs_client s = CIdle \<Longrightarrow> \<not> qs_held s \<Longrightarrow>
     qstep s (s\<lparr>qs_q := fst (queue_Add (qs_q s) v),
                qs_accepted := qs_accepted s @ (if queue_check (qs_q s) v = None then [v] else [])\<rparr>)"
| step_flush: "\<not> qs_crashed s \<Longrightarrow> qs_client s = CIdle \<Longrightarrow> \<not> qs_held s \<Longrightarrow>
     qstep s (s\<lparr>qs_q := flushQueue (qs_q s)\<rparr>)"
| step_stop: "\<not> qs_crashed s \<Longrightarrow> qs_client s = CIdle \<Longrightarrow> \<not> qs_held s \<Longrightarrow> qstep s (stop_begin cont s)"
| step_abort: "\<not> qs_crashed s \<Longrightarrow> qs_client s = CSendAbort cont \<Longrightarrow> qs_thread s = TSelect \<Longrightarrow>
     qstep s (s\<lparr>qs_client := CWaitDone cont, qs_thread := TAborted\<rparr>)"
| step_done: "\<not> qs_crashed s \<Longrightarrow> qs_client s = CWaitDone cont \<Longrightarrow> qs_thread s = TAborted \<Longrightarrow>
     qstep s (s\<lparr>qs_q := (stop_ticker (qs_q s))\<lparr>q_f := None\<rparr>, qs_held := False,
                qs_client := stop_tail cont, qs_thread := TNone\<rparr>)"
| step_start: "\<not> qs_crashed s \<Longrightarrow> qs_client s = CStart a \<Longrightarrow> \<not> qs_held s \<Longrightarrow> qstep s (start_tail a s)"
| step_enter: "\<not> qs_crashed s \<Longrightarrow> qs_thread s = TEnter \<Longrightarrow>
     qstep s (case q_ticker (qs_q s) of None \<Rightarrow> s\<lparr>qs_crashed := True\<rparr> | Some _ \<Rightarrow> s\<lparr>qs_thread := TSelect\<rparr>)"
| step_timer: "\<not> qs_crashed s \<Longrightarrow> q_ticker (qs_q s) = Some k \<Longrightarrow> tk_running k \<Longrightarrow>
     qstep s (s\<lparr>qs_q := (qs_q s)\<lparr>q_ticker := Some (k\<lparr>tk_pending := True\<rparr>)\<rparr>\<rparr>)"
| step_tick: "\<not> qs_crashed s \<Longrightarrow> qs_thread s = TSelect \<Longrightarrow> q_ticker (qs_q s) = Some k \<Longrightarrow> tk_pending k \<Longrightarrow>
     qstep s (s\<lparr>qs_q := (qs_q s)\<lparr>q_ticker := Some (k\<lparr>tk_pending := False\<rparr>)\<rparr>,
                qs_thread := (if q_f (qs_q s) \<noteq> None then TWantLock else TEnter)\<rparr>)"
| step_tick_flush: "\<not> qs_crashed s \<Longrightarrow> qs_thread s = TWantLock \<Longrightarrow> \<not> qs_held s \<Longrightarrow>
     qstep s (s\<lparr>qs_q := flushQueue (qs_q s), qs_thread := TEnter\<rparr>)"

definition qsys_New :: "'t option \<Rightarrow> ('t, 'v, 'f) qsys" where
  "qsys_New t = \<lparr>qs_q = queue_New t, qs_held = False, qs_client = CIdle, qs_thread = TNone,
     qs_crashed = False, qs_accepted = []\<rparr>"

inductive qreach :: "'t option \<Rightarrow> ('t, 'v, 'f) qsys \<Rightarrow> bool" for t where
  qreach_new: "qreach t (qsys_New t)"
| qreach_step: "qreach t s \<Longrightarrow> qstep s s' \<Longrightarrow> qreach t s'"

text \<open>
  The invariant: the mutex is held exactly inside \<open>StopFlushThread\<close>; a flush thread lives exactly
  while a flush function is set; the two sides of the stop handshake agree; the queue is typed; and
  the flushed batches followed by what is queued are the accepted values in order.
\<close>

definition handshake_inv :: "('t, 'v, 'f) qsys \<Rightarrow> bool" where
  "handshake_inv s \<longleftrightarrow>
     (qs_held s \<longleftrightarrow> (\<exists>c. qs_client s = CSendAbort c \<or> qs_client s = CWaitDone c))
     \<and> (qs_thread s = TAborted \<longleftrightarrow> (\<exists>c. qs_client s = CWaitDone c))
     \<and> (q_f (qs_q s) = None \<longleftrightarrow> qs_thread s = TNone)
     \<and> ((\<exists>a. qs_client s = CStart a) \<longrightarrow> qs_thread s = TNone)
     \<and> ((\<exists>c. qs_client s = CSendAbort c) \<longrightarrow> q_elems (qs_q s) = [] \<and> qs_thread s \<noteq> TNone)"

definition content_inv :: "'t option \<Rightarrow> ('t, 'v, 'f) qsys \<Rightarrow> bool" where
  "content_inv t s \<longleftrightarrow>
     q_elemType (qs_q s) = t \<and> queue_typed (qs_q s)
     \<and> concat (map snd (q_out (qs_q s))) @ q_elems (qs_q s) = qs_accepted s"

lemma stop_ticker_simps [simp]:
  "q_elems (stop_ticker q) = q_elems q" "q_elemType (stop_ticker q) = q_elemType q"
  "q_out (stop_ticker q) = q_out q" "q_f (stop_ticker q) = q_f q"
  by (simp_all add: stop_ticker_def)

lemma queue_typed_cong [simp]:
  "queue_typed (q\<lparr>q_ticker := k\<rparr>) = queue_typed q" "queue_typed (q\<lparr>q_f := f\<rparr>) = queue_typed q"
  "queue_typed (q\<lparr>q_flushCap := c\<rparr>) = queue_typed q" "queue_typed (stop_ticker q) = queue_typed q"
  by (simp_all add: queue_typed_def stop_ticker_def)

lemma qstep_handshake: "qstep s s' \<Longrightarrow> handshake_inv s \<Longrightarrow> handshake_inv s'"
  by (induction rule: qstep.induct)
    (auto simp: handshake_inv_def stop_begin_def stop_tail_def start_tail_def Let_def
      split: option.splits if_splits)

lemma qstep_content: "qstep s s' \<Longrightarrow> content_inv t s \<Longrightarrow> content_inv t s'"
proof (induction rule: qstep.induct)
  case (step_add s v)
  then show ?case
    by (cases "queue_check (qs_q s) v")
      (auto simp: content_inv_def queue_Add_typed queue_Add_concat queue_Add_error)
qed (auto simp: content_inv_def stop_begin_def start_tail_def Let_def concat_flushQueue
      split: option.splits prod.splits)

lemma qreach_inv: "qreach t s \<Longrightarrow> handshake_inv s \<and> content_inv t s"
  by (induction rule: qreach.induct)
    (auto simp: qsys_New_def queue_New_def handshake_inv_def [of "\<lparr>qs_q = _, qs_held = _,
       qs_client = _, qs_thread = _, qs_crashed = _, qs_accepted = _\<rparr>"]
       content_inv_def [of _ "\<lparr>qs_q = _, qs_held = _,
       qs_client = _, qs_thread = _, qs_crashed = _, qs_accepted = _\<rparr>"] queue_typed_def
       intro: qstep_handshake qstep_content)

section \<open>Properties of every interleaving\<close>



text \<open>The stop is stuck when the flush thread, having received a tick, is at the mutex.\<close>

definition stop_stuck :: "('t, 'v, 'f) qsys \<Rightarrow> bool" where
  "stop_stuck s \<longleftrightarrow> (\<exists>c. qs_client s = CSendAbort c) \<and> qs_held s \<and> qs_thread s = TWantLock
     \<and> q_f (qs_q s) \<noteq> None"

lemma stop_stuck_step: "qstep s s' \<Longrightarrow> stop_stuck s \<Longrightarrow> stop_stuck s'"
  by (induction rule: qstep.induct) (auto simp: stop_stuck_def)

lemma stop_stuck_steps: "qstep\<^sup>*\<^sup>* s s' \<Longrightarrow> stop_stuck s \<Longrightarrow> stop_stuck s'"
  by (induction rule: rtranclp_induct) (auto intro: stop_stuck_step)

lemma stop_from_select:
  assumes "\<not> qs_crashed s" "qs_client s = CSendAbort c" "qs_thread s = TSelect"
  shows "\<exists>s'. qstep\<^sup>*\<^sup>* s s' \<and> q_f (qs_q s') = None \<and> qs_client s' = stop_tail c"
proof -
  let ?s1 = "s\<lparr>qs_client := CWaitDone c, qs_thread := TAborted\<rparr>"
  have "qstep s ?s1" using assms by (rule step_abort)
  moreover have "qstep ?s1 (?s1\<lparr>qs_q := (stop_ticker (qs_q ?s1))\<lparr>q_f := None\<rparr>, qs_held := False,
                qs_client := stop_tail c, qs_thread := TNone\<rparr>)"
    using assms by (intro step_done) simp_all
  ultimately have "qstep\<^sup>*\<^sup>* s (?s1\<lparr>qs_q := (stop_ticker (qs_q ?s1))\<lparr>q_f := None\<rparr>, qs_held := False,
                qs_client := stop_tail c, qs_thread := TNone\<rparr>)"
    by (meson converse_rtranclp_into_rtranclp rtranclp.rtrancl_refl)
  then show ?thesis by (intro exI conjI) (assumption, simp_all)
qed

text \<open>
  C27. A client that is inside \<open>StopFlushThread\<close> of a queue with a ticker can get out, with
  the flush function reset and everything flushed, exactly when the flush thread has not yet taken a
  tick: a thread at \<open>q.Lock()\<close> waits for the client and the client waits for the thread, for ever.
\<close>

theorem stop_completes_iff:
  assumes "qreach t s" and "\<not> qs_crashed s" and "qs_client s = CSendAbort c"
    and "q_ticker (qs_q s) \<noteq> None"
  shows "(\<exists>s'. qstep\<^sup>*\<^sup>* s s' \<and> q_f (qs_q s') = None \<and> qs_client s' = stop_tail c)
    \<longleftrightarrow> qs_thread s \<noteq> TWantLock"
proof -
  from qreach_inv [OF assms(1)] assms(3) have inv: "qs_held s" "qs_thread s \<noteq> TNone"
      "qs_thread s \<noteq> TAborted" "q_f (qs_q s) \<noteq> None"
    by (auto simp: handshake_inv_def)
  show ?thesis
  proof (cases "qs_thread s")
    case TWantLock
    with inv assms(3) have "stop_stuck s" by (simp add: stop_stuck_def)
    then have "q_f (qs_q s') \<noteq> None" if "qstep\<^sup>*\<^sup>* s s'" for s'
      using stop_stuck_steps [OF that] by (simp add: stop_stuck_def)
    with TWantLock show ?thesis by blast
  next
    case TEnter
    from assms(4) obtain k where k: "q_ticker (qs_q s) = Some k" by blast
    with TEnter assms(2) step_enter [of s] have "qstep s (s\<lparr>qs_thread := TSelect\<rparr>)" by simp
    moreover from stop_from_select [of "s\<lparr>qs_thread := TSelect\<rparr>" c] assms(2,3)
    obtain s' where "qstep\<^sup>*\<^sup>* (s\<lparr>qs_thread := TSelect\<rparr>) s'" "q_f (qs_q s') = None"
      "qs_client s' = stop_tail c" by auto
    ultimately have "\<exists>s'. qstep\<^sup>*\<^sup>* s s' \<and> q_f (qs_q s') = None \<and> qs_client s' = stop_tail c"
      by (meson converse_rtranclp_into_rtranclp)
    with TEnter show ?thesis by simp
  next
    case TSelect
    with stop_from_select [OF assms(2,3)] show ?thesis by simp
  qed (use inv in simp_all)
qed

section \<open>Runs that go wrong\<close>

text \<open>The reachable states extended by one step of each kind, with the successor as an equation.\<close>

lemma run_enter: "qreach t s \<Longrightarrow> \<not> qs_crashed s \<Longrightarrow> qs_thread s = TEnter \<Longrightarrow>
    q_ticker (qs_q s) = Some k \<Longrightarrow> s' = s\<lparr>qs_thread := TSelect\<rparr> \<Longrightarrow> qreach t s'"
  using qreach_step [OF _ step_enter, of t s] by simp

lemma run_timer: "qreach t s \<Longrightarrow> \<not> qs_crashed s \<Longrightarrow> q_ticker (qs_q s) = Some k \<Longrightarrow> tk_running k \<Longrightarrow>
    s' = s\<lparr>qs_q := (qs_q s)\<lparr>q_ticker := Some (k\<lparr>tk_pending := True\<rparr>)\<rparr>\<rparr> \<Longrightarrow> qreach t s'"
  using qreach_step [OF _ step_timer, of t s] by simp

lemma run_tick: "qreach t s \<Longrightarrow> \<not> qs_crashed s \<Longrightarrow> qs_thread s = TSelect \<Longrightarrow>
    q_ticker (qs_q s) = Some k \<Longrightarrow> tk_pending k \<Longrightarrow> q_f (qs_q s) \<noteq> None \<Longrightarrow>
    s' = s\<lparr>qs_q := (qs_q s)\<lparr>q_ticker := Some (k\<lparr>tk_pending := False\<rparr>)\<rparr>, qs_thread := TWantLock\<rparr> \<Longrightarrow>
    qreach t s'"
  using qreach_step [OF _ step_tick, of t s] by simp

lemma run_stop: "qreach t s \<Longrightarrow> \<not> qs_crashed s \<Longrightarrow> qs_client s = CIdle \<Longrightarrow> \<not> qs_held s \<Longrightarrow>
    s' = stop_begin cont s \<Longrightarrow> qreach t s'"
  using qreach_step [OF _ step_stop, of t s] by simp

lemma run_start: "qreach t s \<Longrightarrow> \<not> qs_crashed s \<Longrightarrow> qs_client s = CStart a \<Longrightarrow> \<not> qs_held s \<Longrightarrow>
    s' = start_tail a s \<Longrightarrow> qreach t s'"
  using qreach_step [OF _ step_start, of t s] by simp

lemma run_add: "qreach t s \<Longrightarrow> \<not> qs_crashed s \<Longrightarrow> qs_client s = CIdle \<Longrightarrow> \<not> qs_held s \<Longrightarrow>
    s' = s\<lparr>qs_q := fst (queue_Add (qs_q s) v),
            qs_accepted := qs_accepted s @ (if queue_check (qs_q s) v = None then [v] else [])\<rparr> \<Longrightarrow>
    qreach t s'"
  using qreach_step [OF _ step_add, of t s] by simp

lemma run_handshake: "qreach t s \<Longrightarrow> \<not> qs_crashed s \<Longrightarrow> qs_client s = CSendAbort c \<Longrightarrow> qs_thread s = TSelect \<Longrightarrow>
    s' = s\<lparr>qs_q := (stop_ticker (qs_q s))\<lparr>q_f := None\<rparr>, qs_held := False,
            qs_client := stop_tail c, qs_thread := TNone\<rparr> \<Longrightarrow> qreach t s'"
  using qreach_step [OF qreach_step [OF _ step_abort] step_done, of t s c] by simp

text \<open>The state after \<open>New\<close> and \<open>StartFlushThread(f, cap, i)\<close>.\<close>

definition started :: "'t option \<Rightarrow> 'f \<Rightarrow> int \<Rightarrow> int \<Rightarrow> ('t, 'v, 'f) qsys" where
  "started t f cap i = start_tail (f, cap, i) ((qsys_New t)\<lparr>qs_client := CStart (f, cap, i)\<rparr>)"

lemma started_simps [simp]:
  "qs_thread (started t f cap i) = TEnter" "qs_client (started t f cap i) = CIdle"
  "\<not> qs_crashed (started t f cap i)" "\<not> qs_held (started t f cap i)"
  "qs_accepted (started t f cap i) = []"
  "qs_q (started t f cap i) = \<lparr>q_elemType = t, q_elems = [], q_flushCap = max cap 0,
     q_ticker = (if i > 0 then Some \<lparr>tk_running = True, tk_pending = False\<rparr> else None),
     q_f = Some f, q_out = []\<rparr>"
  by (simp_all add: started_def start_tail_def qsys_New_def queue_New_def Let_def)

lemma qreach_started: "qreach t (started t f cap i)"
proof -
  have "qreach t ((qsys_New t)\<lparr>qs_client := CStart (f, cap, i)\<rparr>)"
    by (rule run_stop [OF qreach_new, where cont = "Some (f, cap, i)"])
      (simp_all add: stop_begin_def qsys_New_def queue_New_def stop_tail_def)
  then show ?thesis
    by (rule run_start) (simp_all add: qsys_New_def started_def)
qed

lemma qreach_tick_before_stop:
  assumes "0 < i"
  shows "qreach t ((started t f cap i)\<lparr>qs_thread := TWantLock\<rparr>)"
proof -
  let ?s = "started t f cap i" and ?k = "\<lparr>tk_running = True, tk_pending = False\<rparr>"
  have 1: "qreach t (?s\<lparr>qs_thread := TSelect\<rparr>)"
    using assms by (intro run_enter [OF qreach_started, where k = ?k]) simp_all
  have 2: "qreach t (?s\<lparr>qs_thread := TSelect, qs_q := (qs_q ?s)\<lparr>q_ticker := Some (?k\<lparr>tk_pending := True\<rparr>)\<rparr>\<rparr>)"
    using assms by (intro run_timer [OF 1, where k = ?k]) simp_all
  show ?thesis
    by (rule run_tick [OF 2, where k = "?k\<lparr>tk_pending := True\<rparr>"]) (use assms in \<open>simp_all add: started_def start_tail_def qsys_New_def Let_def queue_New_def\<close>)
qed

theorem stop_completes_iff_witness:
  "\<exists>s :: (string, int, string) qsys. qreach None s \<and> qs_client s = CSendAbort None
     \<and> (\<exists>s'. qstep\<^sup>*\<^sup>* s s' \<and> q_f (qs_q s') = None \<and> qs_client s' = stop_tail None)"
proof -
  let ?s = "stop_begin None (started None ''f'' 3 5 :: (string, int, string) qsys)"
  have r: "qreach None ?s" by (rule run_stop [OF qreach_started]) simp_all
  then have "(\<exists>s'. qstep\<^sup>*\<^sup>* ?s s' \<and> q_f (qs_q s') = None \<and> qs_client s' = stop_tail None)
    \<longleftrightarrow> qs_thread ?s \<noteq> TWantLock"
    by (rule stop_completes_iff) (simp_all add: stop_begin_def flushQueue_def)
  moreover have "qs_thread ?s \<noteq> TWantLock" "qs_client ?s = CSendAbort None"
    by (simp_all add: stop_begin_def)
  ultimately show ?thesis using r by blast
qed

text \<open>
  C28. A queue whose flush thread runs on a ticker can reach a state in which the client
  stopping it and the flush thread wait for each other and stay so in every continuation.
\<close>

theorem queue_stop_can_deadlock:
  assumes "0 < (interval :: int)"
  shows "\<exists>s :: ('t, 'v, 'f) qsys. qreach t s \<and> qs_client s = CSendAbort None
    \<and> (\<forall>s'. qstep\<^sup>*\<^sup>* s s' \<longrightarrow> qs_client s' = CSendAbort None \<and> qs_thread s' = TWantLock)"
proof -
  let ?s = "(started t f cap interval)\<lparr>qs_thread := TWantLock\<rparr> :: ('t, 'v, 'f) qsys"
  let ?d = "stop_begin None ?s"
  have r: "qreach t ?d"
    by (rule run_stop [OF qreach_tick_before_stop]) (use assms in simp_all)
  have stay: "qs_client s' = CSendAbort None \<and> stop_stuck s'" if "qstep\<^sup>*\<^sup>* ?d s'" for s'
    using that
  proof (induction rule: rtranclp_induct)
    case base
    then show ?case by (simp add: stop_begin_def stop_stuck_def)
  next
    case (step y z)
    from step.hyps(2) step.IH show ?case
      by (auto dest: stop_stuck_step elim!: qstep.cases simp: stop_stuck_def)
  qed
  from r stay show ?thesis by (auto simp: stop_stuck_def)
qed

theorem queue_stop_can_deadlock_witness:
  "(0 :: int) < 3 \<and> (\<exists>s :: (string, int, string) qsys. qreach None s \<and> qs_client s = CSendAbort None
     \<and> qs_thread s = TWantLock)"
proof -
  have "\<exists>s :: (string, int, string) qsys. qreach None s \<and> qs_client s = CSendAbort None
     \<and> (\<forall>s'. qstep\<^sup>*\<^sup>* s s' \<longrightarrow> qs_client s' = CSendAbort None \<and> qs_thread s' = TWantLock)"
    by (rule queue_stop_can_deadlock [of 3]) simp
  then show ?thesis by auto
qed

text \<open>
  Started with no interval on a fresh queue, the flush thread dereferences the nil
  ticker in its first \<open>select\<close> and the program crashes; and a crash happens for no other reason.
\<close>

theorem queue_nil_ticker_crash:
  "(i \<le> 0 \<longrightarrow> qreach t ((started t f cap i)\<lparr>qs_crashed := True\<rparr>))
   \<and> (qreach t s \<and> qs_crashed s \<longrightarrow> q_ticker (qs_q s) = None)"
proof
  show "i \<le> 0 \<longrightarrow> qreach t ((started t f cap i)\<lparr>qs_crashed := True\<rparr>)"
    using qreach_step [OF qreach_started step_enter, of t f cap i] by auto
  have "qs_crashed s \<longrightarrow> q_ticker (qs_q s) = None" if "qreach t s"
    using that
  proof (induction rule: qreach.induct)
    case (qreach_step s s')
    from qreach_step.hyps(2) show ?case
      by cases (auto simp: stop_begin_def start_tail_def Let_def split: option.splits prod.splits)
  qed (simp add: qsys_New_def)
  then show "qreach t s \<and> qs_crashed s \<longrightarrow> q_ticker (qs_q s) = None" by blast
qed

theorem queue_nil_ticker_crash_witness:
  "qreach None ((started None ''f'' 3 0 :: (string, int, string) qsys)\<lparr>qs_crashed := True\<rparr>)
   \<and> q_ticker (qs_q ((started None ''f'' 3 0 :: (string, int, string) qsys)\<lparr>qs_crashed := True\<rparr>)) = None"
proof -
  let ?s = "(started None ''f'' 3 0 :: (string, int, string) qsys)\<lparr>qs_crashed := True\<rparr>"
  from queue_nil_ticker_crash [of 0 None "''f''" 3 ?s] show ?thesis by simp
qed

text \<open>
  \<open>StopFlushThread\<close> resets the flush function but not the capacity, so an
  accepted value can be removed from the queue for no function at all: a run in which every value
  added after the stop is discarded at once.
\<close>

theorem queue_drops_after_stop:
  "\<exists>s :: ('t, 'v, 'f) qsys. qreach None s \<and> qs_client s = CIdle \<and> q_f (qs_q s) = None
     \<and> qs_accepted s = [v] \<and> q_elems (qs_q s) = [] \<and> q_out (qs_q s) = [(None, [v])]"
proof -
  let ?s = "started None f 1 1 :: ('t, 'v, 'f) qsys" and ?k = "\<lparr>tk_running = True, tk_pending = False\<rparr>"
  let ?q = "\<lparr>q_elemType = None, q_elems = [], q_flushCap = 1,
     q_ticker = Some \<lparr>tk_running = False, tk_pending = False\<rparr>, q_f = None, q_out = []\<rparr>"
  have 1: "qreach None (?s\<lparr>qs_thread := TSelect\<rparr>)"
    by (intro run_enter [OF qreach_started, where k = ?k]) simp_all
  have 2: "qreach None (stop_begin None (?s\<lparr>qs_thread := TSelect\<rparr>))"
    by (rule run_stop [OF 1]) simp_all
  have 3: "qreach None (?s\<lparr>qs_thread := TNone, qs_q := ?q\<rparr>)"
    by (rule run_handshake [OF 2, where c = None])
      (simp_all add: stop_begin_def flushQueue_def stop_ticker_def stop_tail_def started_def
        start_tail_def qsys_New_def queue_New_def Let_def)
  let ?t = "?s\<lparr>qs_thread := TNone, qs_q := ?q\<lparr>q_out := [(None, [v])]\<rparr>, qs_accepted := [v]\<rparr>"
  have "qreach None ?t"
    by (rule run_add [OF 3, where v = v])
      (simp_all add: queue_Add_def queue_check_def flushQueue_def Let_def)
  then show ?thesis by (intro exI [of _ ?t]) simp
qed

end
