(* ===== verification/Statistics.thy ===== *)
theory Statistics
  imports GoPrelude "HOL-Library.Multiset" "HOL-Library.AList"
begin

text \<open>
  \<open>stats/stats.go\<close>: counters with one statistic per period. All integers are \<open>int64\<close> words
  compared as signed numbers. \<open>Terms\<close> (a Go map from the period in seconds) is an association list
  with distinct keys; every loop over it treats its entries independently of their order. The
  handler goroutine is a step relation over the counter, its two channels and the armed timers.
\<close>

unbundle bit_operations_syntax

section \<open>Statistic\<close>

record statistic =
  st_Total :: i64
  st_Min :: i64
  st_Max :: i64
  st_ValueTotal :: i64
  st_ValueAvg :: i64
  st_ValueAvgMin :: i64
  st_ValueAvgMax :: i64
  st_Duration :: i64
  st_TSStart :: i64

definition new_statistic :: "i64 \<Rightarrow> statistic" where
  "new_statistic key = \<lparr>st_Total = 0, st_Min = 0, st_Max = 0, st_ValueTotal = 0, st_ValueAvg = 0,
     st_ValueAvgMin = 0, st_ValueAvgMax = 0, st_Duration = key, st_TSStart = 0\<rparr>"

definition stat_Add :: "i64 \<Rightarrow> i64 \<Rightarrow> statistic \<Rightarrow> statistic" where
  "stat_Add tot val c =
     c\<lparr>st_Total := st_Total c + tot, st_ValueTotal := st_ValueTotal c + val\<rparr>"

definition stat_Reset :: "statistic \<Rightarrow> statistic" where
  "stat_Reset c =
     (if st_Total c = 0 then c
      else
        let c1 = (if st_Max c <s st_Total c then c\<lparr>st_Max := st_Total c\<rparr> else c);
            c2 = (if st_Min c1 = 0 \<or> st_Total c1 <s st_Min c1 then c1\<lparr>st_Min := st_Total c1\<rparr> else c1);
            c3 = c2\<lparr>st_ValueAvg := i64_quot (st_ValueTotal c2) (st_Total c2)\<rparr>;
            c4 = (if st_ValueAvgMax c3 <s st_ValueAvg c3 then c3\<lparr>st_ValueAvgMax := st_ValueAvg c3\<rparr> else c3);
            c5 = (if st_ValueAvgMin c4 = 0 \<or> st_ValueAvg c4 <s st_ValueAvgMin c4
                  then c4\<lparr>st_ValueAvgMin := st_ValueAvg c4\<rparr> else c4)
        in c5\<lparr>st_Total := 0, st_ValueTotal := 0\<rparr>)"

definition stat_ordered :: "statistic \<Rightarrow> bool" where
  "stat_ordered c \<longleftrightarrow> st_Min c \<le>s st_Max c \<and> st_ValueAvgMin c \<le>s st_ValueAvgMax c"

lemma stat_Reset_simps [simp]:
  "st_Total (stat_Reset c) = 0" "st_Duration (stat_Reset c) = st_Duration c"
  "st_TSStart (stat_Reset c) = st_TSStart c"
  "st_Total c \<noteq> 0 \<Longrightarrow> st_ValueTotal (stat_Reset c) = 0"
  by (simp_all add: stat_Reset_def Let_def)

lemma stat_Reset_MinMax:
  "st_Max (stat_Reset c) = (if st_Total c \<noteq> 0 \<and> st_Max c <s st_Total c then st_Total c else st_Max c)"
  "st_Min (stat_Reset c) =
     (if st_Total c \<noteq> 0 \<and> (st_Min c = 0 \<or> st_Total c <s st_Min c) then st_Total c else st_Min c)"
  by (simp_all add: stat_Reset_def Let_def)

lemma stat_Reset_Avg:
  "st_ValueAvg (stat_Reset c) = (if st_Total c \<noteq> 0 then i64_quot (st_ValueTotal c) (st_Total c) else st_ValueAvg c)"
  "st_Total c \<noteq> 0 \<Longrightarrow> st_ValueAvgMax (stat_Reset c) =
     (let a = i64_quot (st_ValueTotal c) (st_Total c) in if st_ValueAvgMax c <s a then a else st_ValueAvgMax c)"
  "st_Total c \<noteq> 0 \<Longrightarrow> st_ValueAvgMin (stat_Reset c) =
     (let a = i64_quot (st_ValueTotal c) (st_Total c) in
      if st_ValueAvgMin c = 0 \<or> a <s st_ValueAvgMin c then a else st_ValueAvgMin c)"
  by (simp_all add: stat_Reset_def Let_def)

lemma stat_Reset_ordered: "stat_ordered c \<Longrightarrow> stat_ordered (stat_Reset c)"
  by (cases "st_Total c = 0")
    (auto simp: stat_ordered_def stat_Reset_MinMax stat_Reset_Avg Let_def i64_order,
     simp add: stat_Reset_def)









section \<open>Counter\<close>

record count_message =
  cm_Count :: i64
  cm_Value :: i64
  cm_TS :: i64

text \<open>
  \<open>c_msg\<close> is \<open>None\<close> until the handler goroutine has made the channels. \<open>c_armed\<close> are the keys of
  the timers set by \<open>time.AfterFunc\<close> that have not delivered yet, \<open>c_reset\<close> is the content of the
  reset channel (a statistic is sent by its key).
\<close>

record counter =
  c_Name :: string
  c_Terms :: "(i64 \<times> statistic) list"
  c_StartTime :: i64
  c_msg :: "count_message list option"
  c_reset :: "i64 list"
  c_armed :: "i64 list"

definition checkThreshHold :: i64 where "checkThreshHold = 10"
definition channelBufferNum :: nat where "channelBufferNum = 10"

type_synonym builtin_term = "64 word"
definition TermCustom :: builtin_term where "TermCustom = 0"
definition TermSecond :: builtin_term where "TermSecond = push_bit 1 1"
definition TermMinue :: builtin_term where "TermMinue = push_bit 2 1"
definition TermHour :: builtin_term where "TermHour = push_bit 3 1"
definition TermDay :: builtin_term where "TermDay = push_bit 4 1"
definition TermWeek :: builtin_term where "TermWeek = push_bit 5 1"

lemmas term_defs = TermCustom_def TermSecond_def TermMinue_def TermHour_def TermDay_def TermWeek_def

definition put_term :: "i64 \<Rightarrow> (i64 \<times> statistic) list \<Rightarrow> (i64 \<times> statistic) list" where
  "put_term key ts = AList.update key (new_statistic key) ts"

definition NewCounter :: "string \<Rightarrow> builtin_term \<Rightarrow> counter" where
  "NewCounter name terms =
     (let sel = (\<lambda>flag key ts. if terms AND flag > 0 then put_term key ts else ts);
          ts = sel TermWeek (60 * 60 * 24 * 7) (sel TermDay (60 * 60 * 24) (sel TermHour (60 * 60)
                 (sel TermMinue 60 (sel TermSecond 1 []))))
      in \<lparr>c_Name = name, c_Terms = ts, c_StartTime = 0, c_msg = None, c_reset = [], c_armed = []\<rparr>)"

datatype term_error = TooShort | AlreadyStarted

text \<open>\<open>time.Second\<close> is \<open>10^9\<close> nanoseconds.\<close>

definition AddTerm :: "i64 \<Rightarrow> counter \<Rightarrow> counter \<times> term_error option" where
  "AddTerm dur c =
     (if dur <s 1000000000 then (c, Some TooShort)
      else if c_StartTime c \<noteq> 0 then (c, Some AlreadyStarted)
      else
        let key = i64_quot dur 1000000000 in
        if map_of (c_Terms c) key \<noteq> None then (c, None)
        else (c\<lparr>c_Terms := put_term key (c_Terms c)\<rparr>, None))"

text \<open>The loop over the terms for one message.\<close>

definition on_message :: "count_message \<Rightarrow> i64 \<Rightarrow> statistic \<Rightarrow> statistic" where
  "on_message m k c =
     (if k \<le>s checkThreshHold then
        let elapsed = cm_TS m - st_TSStart c in
        if st_Duration c <s elapsed then (stat_Reset c)\<lparr>st_TSStart := cm_TS m\<rparr>
        else stat_Add (cm_Count m) (cm_Value m) c
      else stat_Add (cm_Count m) (cm_Value m) c)"

definition map_terms :: "(i64 \<Rightarrow> statistic \<Rightarrow> statistic) \<Rightarrow> counter \<Rightarrow> counter" where
  "map_terms f c = c\<lparr>c_Terms := map (\<lambda>(k, s). (k, f k s)) (c_Terms c)\<rparr>"

definition long_keys :: "counter \<Rightarrow> i64 list" where
  "long_keys c = map fst (filter (\<lambda>(k, s). checkThreshHold <s st_Duration s) (c_Terms c))"

text \<open>The handler up to its loop.\<close>

definition handler_init :: "i64 \<Rightarrow> counter \<Rightarrow> counter" where
  "handler_init now c =
     (map_terms (\<lambda>k s. s\<lparr>st_TSStart := now\<rparr>) c)
       \<lparr>c_msg := Some [], c_reset := [], c_StartTime := now, c_armed := long_keys c\<rparr>"

text \<open>
  \<open>Add\<close> and \<open>Inc\<close> send a message; \<open>None\<close> is a send that blocks, on a full channel or on the nil
  channel of a counter whose handler has not run yet.
\<close>

definition counter_Add :: "i64 \<Rightarrow> i64 \<Rightarrow> i64 \<Rightarrow> counter \<Rightarrow> counter option" where
  "counter_Add now cnt val c =
     (case c_msg c of
        None \<Rightarrow> None
      | Some ms \<Rightarrow>
          if length ms < channelBufferNum * length (c_Terms c)
          then Some (c\<lparr>c_msg := Some (ms @ [\<lparr>cm_Count = cnt, cm_Value = val, cm_TS = now\<rparr>])\<rparr>)
          else None)"

definition counter_Inc :: "i64 \<Rightarrow> counter \<Rightarrow> counter option" where
  "counter_Inc now c = counter_Add now 1 0 c"

text \<open>
  The steps: the handler takes a message or a reset, a timer delivers its statistic while the reset
  channel (capacity \<open>len\<close>) has room, and a client sends a message while the message channel has.
\<close>

inductive counter_step :: "counter \<Rightarrow> counter \<Rightarrow> bool" where
  step_message: "c_msg c = Some (m # ms) \<Longrightarrow>
     counter_step c ((map_terms (on_message m) c)\<lparr>c_msg := Some ms\<rparr>)"
| step_reset: "c_reset c = k # ks \<Longrightarrow>
     counter_step c ((map_terms (\<lambda>k' s. if k' = k then stat_Reset s else s) c)
       \<lparr>c_reset := ks, c_armed := c_armed c @ [k]\<rparr>)"
| step_alarm: "c_armed c = as @ k # bs \<Longrightarrow> length (c_reset c) < length (c_Terms c) \<Longrightarrow>
     counter_step c (c\<lparr>c_armed := as @ bs, c_reset := c_reset c @ [k]\<rparr>)"
| step_send: "counter_Add now cnt val c = Some c' \<Longrightarrow> counter_step c c'"

definition terms_wf :: "counter \<Rightarrow> bool" where
  "terms_wf c \<longleftrightarrow> distinct (map fst (c_Terms c)) \<and>
     (\<forall>(k, s) \<in> set (c_Terms c). st_Duration s = k \<and> 0 <s k)"

text \<open>A long period is always in exactly one place: its timer armed or its reset queued.\<close>

definition timers_wf :: "counter \<Rightarrow> bool" where
  "timers_wf c \<longleftrightarrow> mset (c_armed c) + mset (c_reset c) = mset (long_keys c)"

definition stats_ordered :: "counter \<Rightarrow> bool" where
  "stats_ordered c \<longleftrightarrow> (\<forall>(k, s) \<in> set (c_Terms c). stat_ordered s)"

lemma map_terms_keys [simp]: "map fst (c_Terms (map_terms f c)) = map fst (c_Terms c)"
  by (simp add: map_terms_def case_prod_beta comp_def)

lemma on_message_simps [simp]: "st_Duration (on_message m k s) = st_Duration s"
  by (simp add: on_message_def stat_Add_def Let_def)

lemma stat_ordered_TSStart [simp]: "stat_ordered (s\<lparr>st_TSStart := t\<rparr>) = stat_ordered s"
  by (simp add: stat_ordered_def)

lemma stat_Add_ordered: "stat_ordered s \<Longrightarrow> stat_ordered (stat_Add n v s)"
  by (simp add: stat_ordered_def stat_Add_def)

lemma on_message_ordered: "stat_ordered s \<Longrightarrow> stat_ordered (on_message m k s)"
  using stat_Reset_ordered [of s] stat_Add_ordered [of s]
  by (simp add: on_message_def Let_def)

lemma long_keys_map_terms:
  "(\<And>k s. st_Duration (f k s) = st_Duration s) \<Longrightarrow> long_keys (map_terms f c) = long_keys c"
  by (simp add: long_keys_def map_terms_def filter_map comp_def case_prod_unfold)

lemma long_keys_cong [simp]:
  "long_keys (c\<lparr>c_msg := m\<rparr>) = long_keys c" "long_keys (c\<lparr>c_reset := r\<rparr>) = long_keys c"
  "long_keys (c\<lparr>c_armed := a\<rparr>) = long_keys c" "long_keys (c\<lparr>c_StartTime := t\<rparr>) = long_keys c"
  by (simp_all add: long_keys_def)

lemma terms_wf_map_terms:
  "(\<And>k s. st_Duration (f k s) = st_Duration s) \<Longrightarrow> terms_wf c \<Longrightarrow> terms_wf (map_terms f c)"
  by (auto simp: terms_wf_def) (auto simp: map_terms_def)

lemma stats_ordered_map_terms:
  "(\<And>k s. stat_ordered s \<Longrightarrow> stat_ordered (f k s)) \<Longrightarrow> stats_ordered c \<Longrightarrow> stats_ordered (map_terms f c)"
  by (auto simp: stats_ordered_def map_terms_def)

lemma map_terms_cong [simp]:
  "c_armed (map_terms f c) = c_armed c" "c_reset (map_terms f c) = c_reset c"
  "c_msg (map_terms f c) = c_msg c" "c_StartTime (map_terms f c) = c_StartTime c"
  "length (c_Terms (map_terms f c)) = length (c_Terms c)"
  by (simp_all add: map_terms_def)

lemma wf_cong [simp]:
  "terms_wf (c\<lparr>c_msg := m\<rparr>) = terms_wf c" "terms_wf (c\<lparr>c_reset := r\<rparr>) = terms_wf c"
  "terms_wf (c\<lparr>c_armed := a\<rparr>) = terms_wf c" "terms_wf (c\<lparr>c_StartTime := t\<rparr>) = terms_wf c"
  "stats_ordered (c\<lparr>c_msg := m\<rparr>) = stats_ordered c" "stats_ordered (c\<lparr>c_reset := r\<rparr>) = stats_ordered c"
  "stats_ordered (c\<lparr>c_armed := a\<rparr>) = stats_ordered c" "stats_ordered (c\<lparr>c_StartTime := t\<rparr>) = stats_ordered c"
  by (simp_all add: terms_wf_def stats_ordered_def)

text \<open>Both invariants as conditions on the list of terms.\<close>

definition good_terms :: "(i64 \<times> statistic) list \<Rightarrow> bool" where
  "good_terms ts \<longleftrightarrow> distinct (map fst ts) \<and>
     (\<forall>(k, s) \<in> set ts. st_Duration s = k \<and> 0 <s k \<and> stat_ordered s)"

lemma good_terms_iff: "good_terms (c_Terms c) \<longleftrightarrow> terms_wf c \<and> stats_ordered c"
  by (auto simp: good_terms_def terms_wf_def stats_ordered_def)

lemma set_put_term: "set (put_term k ts) \<subseteq> insert (k, new_statistic k) (set ts)"
  unfolding put_term_def by (induction ts) auto

lemma good_put_term: "good_terms ts \<Longrightarrow> 0 <s key \<Longrightarrow> good_terms (put_term key ts)"
  using set_put_term [of key ts]
  by (fastforce simp: good_terms_def put_term_def distinct_update new_statistic_def stat_ordered_def)

text \<open>The counters that can be started: \<open>NewCounter\<close> followed by any calls of \<open>AddTerm\<close>.\<close>

inductive configured :: "counter \<Rightarrow> bool" where
  conf_new: "configured (NewCounter name terms)"
| conf_add: "configured c \<Longrightarrow> configured (fst (AddTerm dur c))"

inductive running :: "counter \<Rightarrow> bool" where
  run_init: "configured c \<Longrightarrow> running (handler_init now c)"
| run_step: "running c \<Longrightarrow> counter_step c c' \<Longrightarrow> running c'"

lemma sint_quot_pos:
  assumes "\<not> dur <s 1000000000"
  shows "0 <s i64_quot dur 1000000000"
proof -
  have d: "1000000000 \<le> sint dur" using assms by (simp add: word_sless_alt)
  have lt: "sint dur < 2 ^ 63" using sint_lt [of dur] by simp
  have q: "sint dur sdiv 1000000000 = sint dur div 1000000000"
    using d by (simp add: signed_divide_int_def)
  have "1 \<le> sint dur div 1000000000" using d by simp
  moreover have "sint dur div 1000000000 < 2 ^ 63" using d lt by simp
  ultimately show ?thesis
    unfolding i64_quot_def word_sless_alt
    by (simp add: q sint_sbintrunc' signed_take_bit_int_eq_self)
qed

lemma configured_good: "configured c \<Longrightarrow> good_terms (c_Terms c)"
proof (induction rule: configured.induct)
  case (conf_new name terms)
  have n: "good_terms []" by (simp add: good_terms_def)
  have p: "good_terms (if b then put_term k ts else ts)" if "good_terms ts" "0 <s k" for b k ts
    using that good_put_term by simp
  show ?case unfolding NewCounter_def Let_def counter.simps
    by (intro p n) (simp_all add: word_sless_alt)
next
  case (conf_add c dur)
  then show ?case
    using good_put_term [of "c_Terms c" "i64_quot dur 1000000000"] sint_quot_pos [of dur]
    by (auto simp: AddTerm_def Let_def)
qed

lemma counter_step_inv:
  assumes "counter_step c c'" "good_terms (c_Terms c)" "timers_wf c"
  shows "good_terms (c_Terms c') \<and> timers_wf c'"
  using assms unfolding good_terms_iff
proof (induction rule: counter_step.induct)
  case (step_message c m ms)
  then show ?case
    by (simp add: terms_wf_map_terms stats_ordered_map_terms on_message_ordered timers_wf_def
        long_keys_map_terms)
next
  case (step_reset c k ks)
  then show ?case
    by (simp add: terms_wf_map_terms stats_ordered_map_terms stat_Reset_ordered timers_wf_def
        long_keys_map_terms)
qed (auto simp: timers_wf_def counter_Add_def split: option.splits if_splits)

lemma running_inv: "running c \<Longrightarrow> good_terms (c_Terms c) \<and> timers_wf c"
proof (induction rule: running.induct)
  case (run_init c now)
  then have "good_terms (c_Terms c)" by (rule configured_good)
  then show ?case unfolding good_terms_iff
    by (simp add: handler_init_def terms_wf_map_terms stats_ordered_map_terms
        timers_wf_def long_keys_map_terms)
next
  case (run_step c c')
  then show ?case using counter_step_inv by blast
qed

lemma length_long_keys: "length (long_keys c) \<le> length (c_Terms c)"
  by (simp add: long_keys_def)

text \<open>
  C31. In every state of a running counter: the key of a term is its positive period;
  least values do not exceed greatest values; and every period above the threshold has exactly one
  pending reset, either as an armed timer or in the reset channel. So the reset channel never
  overflows, and a timer that fires always finds room in it.
\<close>

theorem counter_running_inv:
  assumes "running c"
  shows "terms_wf c \<and> stats_ordered c
    \<and> mset (c_armed c) + mset (c_reset c) = mset (long_keys c)
    \<and> length (c_reset c) \<le> length (c_Terms c)
    \<and> (c_armed c = [] \<or> length (c_reset c) < length (c_Terms c))"
proof -
  from running_inv [OF assms] have inv: "terms_wf c" "stats_ordered c"
    and t: "mset (c_armed c) + mset (c_reset c) = mset (long_keys c)"
    unfolding good_terms_iff timers_wf_def by auto
  from t have "length (c_armed c) + length (c_reset c) = length (long_keys c)"
    by (metis size_mset size_union)
  with length_long_keys [of c] inv t show ?thesis by (cases "c_armed c") auto
qed

theorem counter_running_inv_witness:
  "running (handler_init 100 (NewCounter ''hits'' (TermSecond OR TermMinue)))
   \<and> c_armed (handler_init 100 (NewCounter ''hits'' (TermSecond OR TermMinue))) = [60]
   \<and> mset [60] + {#} = mset (long_keys (handler_init 100 (NewCounter ''hits'' (TermSecond OR TermMinue))))"
proof -
  let ?c = "handler_init 100 (NewCounter ''hits'' (TermSecond OR TermMinue))"
  have r: "running ?c" by (intro run_init conf_new)
  have a: "c_armed ?c = [60]" "c_reset ?c = []"
    by (simp_all add: handler_init_def NewCounter_def put_term_def long_keys_def term_defs new_statistic_def
        checkThreshHold_def Let_def word_sless_alt)
  from counter_running_inv [OF r] r a show ?thesis by simp
qed

text \<open>
  A message that arrives after a short period has elapsed closes that period and is not
  counted in any: the total of the term is 0 afterwards, and its history holds the old total alone.
\<close>

theorem late_message_is_dropped:
  assumes "k \<le>s checkThreshHold" and "st_Duration s <s cm_TS m - st_TSStart s"
  shows "st_Total (on_message m k s) = 0 \<and> st_TSStart (on_message m k s) = cm_TS m
    \<and> st_Max (on_message m k s) = st_Max (stat_Reset s)
    \<and> st_Min (on_message m k s) = st_Min (stat_Reset s)
    \<and> on_message m k s = on_message (m\<lparr>cm_Count := n, cm_Value := v\<rparr>) k s"
  using assms by (simp add: on_message_def Let_def)

theorem late_message_is_dropped_witness:
  "(1 :: i64) \<le>s checkThreshHold
   \<and> st_Duration (new_statistic 1) <s cm_TS \<lparr>cm_Count = 7, cm_Value = 0, cm_TS = 5\<rparr> - st_TSStart (new_statistic 1)
   \<and> st_Total (on_message \<lparr>cm_Count = 7, cm_Value = 0, cm_TS = 5\<rparr> 1 (new_statistic 1)) = 0"
proof -
  let ?m = "\<lparr>cm_Count = 7, cm_Value = 0, cm_TS = 5\<rparr>"
  have h: "(1 :: i64) \<le>s checkThreshHold"
    "st_Duration (new_statistic 1) <s cm_TS ?m - st_TSStart (new_statistic 1)"
    by (simp_all add: checkThreshHold_def new_statistic_def i64_order)
  from late_message_is_dropped [OF h] h show ?thesis by blast
qed

end
