(* ===== verification/StateMachine.thy ===== *)
theory StateMachine
  imports GoPrelude "HOL-Library.AList"
begin

text \<open>
  \<open>StateMachine/sm.go\<close>: a state machine driven by one loop goroutine, with delayed actions that each
  have a goroutine of their own. State objects and actions are compared by address in the code, so
  they live in two heaps (lists; the address is the index). The loop, the action goroutines, the
  timers and the callers are the steps of one relation; \<open>sm_trace\<close> records the callbacks and the
  fired actions. The mutex of \<open>ActionList\<close> is held across steps only by \<open>ClearActions\<close>, that is in
  the loop positions \<open>LClear\<close> and \<open>LStop\<close>; every other locked section is one step.
\<close>

section \<open>State\<close>

datatype message_type = MTUnknown | MTSetSMState | MTAddSMAction

text \<open>The dynamic types of \<open>Message.Data\<close> the loop distinguishes; actions go by address.\<close>

datatype 'p msg_data = DState string 'p | DAction nat | DOther

datatype 'p message = Message (msg_type: message_type) (msg_data: "'p msg_data")

text \<open>
  A timer: not created, running, expired with its tick in the channel, or stopped with an empty
  channel. The goroutine of an action: not started, in its \<open>select\<close>, past it by the tick or by
  \<open>Exit\<close> and before the mutex, at the send on \<open>actCtrl\<close>, finished.
\<close>

datatype timer = NoTimer | Armed | Expired | Stopped

datatype action_pc = TNew | TWait | TGotTick | TGotExit | TSend | TDone

record 'f action =
  a_ID :: string
  a_Description :: string
  a_FireInState :: string
  a_Delay :: int
  a_T :: timer
  a_F :: 'f
  a_pc :: action_pc

record ('p, 'h) state_object =
  so_Name :: string
  so_Handler :: 'h
  so_Priv :: "'p option"

text \<open>What the trace records: the handler, with the states it sees, and a fired function.\<close>

datatype ('h, 'f) event =
    EvLeave 'h nat nat
  | EvEnter 'h "nat option" nat
  | EvFire 'f string "string option"

datatype loop_pc = LSelect | LClear "nat list" | LStop nat "nat list"

record ('p, 'h, 'f) sm =
  sm_Name :: string
  sm_StateNext :: "nat option"
  sm_StateCurr :: "nat option"
  sm_StatePrev :: "nat option"
  sm_msgCtrl :: "'p message list"
  sm_actCtrl :: "nat list"
  sm_StateElems :: "string \<rightharpoonup> nat"
  sm_ActElems :: "(string \<times> nat) list"
  sm_objs :: "('p, 'h) state_object list"
  sm_acts :: "'f action list"
  sm_loop :: loop_pc
  sm_stops :: "nat list"
  sm_trace :: "('h, 'f) event list"

definition chan_cap :: nat where "chan_cap = 8"

definition NewStateMachine :: "string \<Rightarrow> ('p, 'h, 'f) sm" where
  "NewStateMachine name = \<lparr>sm_Name = name, sm_StateNext = None, sm_StateCurr = None,
     sm_StatePrev = None, sm_msgCtrl = [], sm_actCtrl = [], sm_StateElems = Map.empty,
     sm_ActElems = [], sm_objs = [], sm_acts = [], sm_loop = LSelect, sm_stops = [], sm_trace = []\<rparr>"

section \<open>Operations\<close>

definition SetName :: "string \<Rightarrow> ('p, 'h, 'f) sm \<Rightarrow> ('p, 'h, 'f) sm" where
  "SetName name s = s\<lparr>sm_Name := name\<rparr>"

definition GetState :: "('p, 'h, 'f) sm \<Rightarrow> string \<Rightarrow> nat option" where
  "GetState s name = sm_StateElems s name"

definition RegisterState :: "string \<Rightarrow> 'h \<Rightarrow> ('p, 'h, 'f) sm \<Rightarrow> ('p, 'h, 'f) sm" where
  "RegisterState name h s =
     s\<lparr>sm_objs := sm_objs s @ [\<lparr>so_Name = name, so_Handler = h, so_Priv = None\<rparr>],
       sm_StateElems := (sm_StateElems s)(name \<mapsto> length (sm_objs s))\<rparr>"

definition FindAction :: "('p, 'h, 'f) sm \<Rightarrow> string \<Rightarrow> nat option" where
  "FindAction s name = map_of (sm_ActElems s) name"

definition GetActions :: "('p, 'h, 'f) sm \<Rightarrow> nat list" where
  "GetActions s = map snd (sm_ActElems s)"

definition upd_act :: "nat \<Rightarrow> ('f action \<Rightarrow> 'f action) \<Rightarrow> ('p, 'h, 'f) sm \<Rightarrow> ('p, 'h, 'f) sm" where
  "upd_act a g s = s\<lparr>sm_acts := (sm_acts s)[a := g (sm_acts s ! a)]\<rparr>"

text \<open>\<open>time.Timer.Stop\<close>: a running timer is stopped; a tick that is in the channel stays.\<close>

definition timer_stop :: "timer \<Rightarrow> timer" where
  "timer_stop t = (if t = Armed then Stopped else t)"

text \<open>
  \<open>onAddActionMessage\<close>. An action whose identifier is already listed is updated in place: its timer is
  stopped, a tick left in the channel is taken out, and the timer is set anew. Otherwise the action
  gets a timer and a goroutine and is listed.
\<close>

definition onAddActionMessage :: "'p message \<Rightarrow> ('p, 'h, 'f) sm \<Rightarrow> ('p, 'h, 'f) sm" where
  "onAddActionMessage msg s =
     (case msg_data msg of
        DAction m \<Rightarrow>
          (case FindAction s (a_ID (sm_acts s ! m)) of
             Some a \<Rightarrow>
               (let n = sm_acts s ! m in
                upd_act a (\<lambda>act. act\<lparr>a_T := Armed, a_Description := a_Description n,
                  a_Delay := a_Delay n, a_FireInState := a_FireInState n, a_F := a_F n\<rparr>) s)
           | None \<Rightarrow>
               (upd_act m (\<lambda>act. act\<lparr>a_T := Armed, a_pc := TWait\<rparr>) s)
                 \<lparr>sm_ActElems := (a_ID (sm_acts s ! m), m) # sm_ActElems s\<rparr>)
      | _ \<Rightarrow> s)"

text \<open>
  \<open>onStateMessage\<close> up to \<open>ClearActions\<close>: on a message that changes the state, the handler of the
  current state leaves, the state pointers move and the loop enters \<open>ClearActions\<close> with the mutex.
\<close>

definition onStateMessage :: "'p message \<Rightarrow> ('p, 'h, 'f) sm \<Rightarrow> ('p, 'h, 'f) sm" where
  "onStateMessage msg s =
     (case msg_data msg of
        DState name priv \<Rightarrow>
          if sm_StateElems s = Map.empty then s
          else if sm_StateCurr s = GetState s name then s
          else
            (case GetState s name of
               None \<Rightarrow> s
             | Some n \<Rightarrow>
                 let s1 = s\<lparr>sm_objs := (sm_objs s)[n := (sm_objs s ! n)\<lparr>so_Priv := Some priv\<rparr>]\<rparr>;
                     s2 = (case sm_StateCurr s1 of
                             None \<Rightarrow> s1
                           | Some c \<Rightarrow>
                               s1\<lparr>sm_StateNext := Some n,
                                  sm_trace := sm_trace s1 @ [EvLeave (so_Handler (sm_objs s1 ! c)) c n]\<rparr>)
                 in s2\<lparr>sm_StateNext := None, sm_StatePrev := sm_StateCurr s2, sm_StateCurr := Some n,
                       sm_loop := LClear (GetActions s2)\<rparr>)
      | _ \<Rightarrow> s)"

text \<open>The loop of \<open>ClearActions\<close> at one action: \<open>Stop\<close> halts the timer and goes on to the send on \<open>Exit\<close>.\<close>

definition clear_one :: "nat \<Rightarrow> nat list \<Rightarrow> ('p, 'h, 'f) sm \<Rightarrow> ('p, 'h, 'f) sm" where
  "clear_one a rest s =
     (if a_FireInState (sm_acts s ! a) \<noteq> []
      then (upd_act a (\<lambda>act. act\<lparr>a_T := timer_stop (a_T act)\<rparr>) s)\<lparr>sm_loop := LStop a rest\<rparr>
      else s\<lparr>sm_loop := LClear rest\<rparr>)"

text \<open>The end of \<open>onStateMessage\<close>: the mutex is free again and the new state's handler enters.\<close>

definition enter_state :: "('p, 'h, 'f) sm \<Rightarrow> ('p, 'h, 'f) sm" where
  "enter_state s =
     (case sm_StateCurr s of
        None \<Rightarrow> s\<lparr>sm_loop := LSelect\<rparr>
      | Some c \<Rightarrow>
          s\<lparr>sm_loop := LSelect,
            sm_trace := sm_trace s @ [EvEnter (so_Handler (sm_objs s ! c)) (sm_StatePrev s) c]\<rparr>)"

text \<open>The loop's case for an action taken from \<open>actCtrl\<close>.\<close>

definition fire_action :: "nat \<Rightarrow> ('p, 'h, 'f) sm \<Rightarrow> ('p, 'h, 'f) sm" where
  "fire_action a s =
     (let act = sm_acts s ! a;
          curr = map_option (\<lambda>c. so_Name (sm_objs s ! c)) (sm_StateCurr s);
          fire = s\<lparr>sm_trace := sm_trace s @ [EvFire (a_F act) (a_FireInState act) curr]\<rparr>
      in if length (a_FireInState act) > 0 then
           (case curr of None \<Rightarrow> s | Some name \<Rightarrow> if name \<noteq> a_FireInState act then s else fire)
         else fire)"

definition loop_message :: "'p message \<Rightarrow> ('p, 'h, 'f) sm \<Rightarrow> ('p, 'h, 'f) sm" where
  "loop_message msg s =
     (case msg_type msg of
        MTSetSMState \<Rightarrow> onStateMessage msg s
      | MTAddSMAction \<Rightarrow> onAddActionMessage msg s
      | MTUnknown \<Rightarrow> s)"

text \<open>The callers' sends; \<open>None\<close> is a send that blocks on a full channel.\<close>

definition SendMessage :: "'p message \<Rightarrow> ('p, 'h, 'f) sm \<Rightarrow> ('p, 'h, 'f) sm option" where
  "SendMessage msg s =
     (if length (sm_msgCtrl s) < chan_cap then Some (s\<lparr>sm_msgCtrl := sm_msgCtrl s @ [msg]\<rparr>) else None)"

definition SetState :: "string \<Rightarrow> 'p \<Rightarrow> ('p, 'h, 'f) sm \<Rightarrow> ('p, 'h, 'f) sm option" where
  "SetState name priv s = SendMessage (Message MTSetSMState (DState name priv)) s"

definition AddAction ::
    "string \<Rightarrow> 'f \<Rightarrow> int \<Rightarrow> string \<Rightarrow> string \<Rightarrow> ('p, 'h, 'f) sm \<Rightarrow> ('p, 'h, 'f) sm option" where
  "AddAction name f delay desc fireInState s =
     (let act = \<lparr>a_ID = name, a_Description = desc, a_FireInState = fireInState, a_Delay = delay,
                 a_T = NoTimer, a_F = f, a_pc = TNew\<rparr>;
          a = length (sm_acts s);
          s1 = s\<lparr>sm_acts := sm_acts s @ [act]\<rparr>
      in if delay > 0 then SendMessage (Message MTAddSMAction (DAction a)) s1
         else if length (sm_actCtrl s1) < chan_cap
           then Some (s1\<lparr>sm_actCtrl := sm_actCtrl s1 @ [a]\<rparr>) else None)"

text \<open>\<open>Action.Stop\<close> from outside the loop: the timer is halted, then the caller waits on \<open>Exit\<close>.\<close>

definition Stop_begin :: "nat \<Rightarrow> ('p, 'h, 'f) sm \<Rightarrow> ('p, 'h, 'f) sm" where
  "Stop_begin a s =
     (upd_act a (\<lambda>act. act\<lparr>a_T := timer_stop (a_T act)\<rparr>) s)\<lparr>sm_stops := sm_stops s @ [a]\<rparr>"

definition set_pc :: "nat \<Rightarrow> action_pc \<Rightarrow> ('p, 'h, 'f) sm \<Rightarrow> ('p, 'h, 'f) sm" where
  "set_pc a pc s = upd_act a (\<lambda>act. act\<lparr>a_pc := pc\<rparr>) s"

text \<open>\<open>ActionThread\<close> under the mutex: the entry with the action's identifier is deleted.\<close>

definition thread_delete :: "nat \<Rightarrow> ('p, 'h, 'f) sm \<Rightarrow> ('p, 'h, 'f) sm" where
  "thread_delete a s =
     (set_pc a (if a_pc (sm_acts s ! a) = TGotTick then TSend else TDone) s)
       \<lparr>sm_ActElems := AList.delete (a_ID (sm_acts s ! a)) (sm_ActElems s)\<rparr>"

section \<open>Steps\<close>

text \<open>
  The messages a caller sends through \<open>SendMessage\<close> itself carry a state or foreign data; an action is
  sent by \<open>AddAction\<close>, which makes a new one each time (sending one \<open>Action\<close> object twice is not
  modelled).
\<close>

inductive sm_step :: "('p, 'h, 'f) sm \<Rightarrow> ('p, 'h, 'f) sm \<Rightarrow> bool" where
  st_register: "sm_step s (RegisterState name h s)"
| st_name: "sm_step s (SetName name s)"
| st_set_state: "SetState name priv s = Some s' \<Longrightarrow> sm_step s s'"
| st_add_action: "AddAction name f delay desc fis s = Some s' \<Longrightarrow> sm_step s s'"
| st_send: "(\<And>a. d \<noteq> DAction a) \<Longrightarrow> SendMessage (Message t d) s = Some s' \<Longrightarrow> sm_step s s'"
| st_stop: "a < length (sm_acts s) \<Longrightarrow> a_T (sm_acts s ! a) \<noteq> NoTimer \<Longrightarrow> sm_step s (Stop_begin a s)"
| st_expire: "a < length (sm_acts s) \<Longrightarrow> a_T (sm_acts s ! a) = Armed \<Longrightarrow>
     sm_step s (upd_act a (\<lambda>act. act\<lparr>a_T := Expired\<rparr>) s)"
| st_tick: "a < length (sm_acts s) \<Longrightarrow> a_pc (sm_acts s ! a) = TWait \<Longrightarrow> a_T (sm_acts s ! a) = Expired \<Longrightarrow>
     sm_step s (upd_act a (\<lambda>act. act\<lparr>a_T := Stopped, a_pc := TGotTick\<rparr>) s)"
| st_exit: "a < length (sm_acts s) \<Longrightarrow> a_pc (sm_acts s ! a) = TWait \<Longrightarrow> a \<in> set (sm_stops s) \<Longrightarrow>
     sm_step s ((set_pc a TGotExit s)\<lparr>sm_stops := remove1 a (sm_stops s)\<rparr>)"
| st_exit_loop: "a < length (sm_acts s) \<Longrightarrow> a_pc (sm_acts s ! a) = TWait \<Longrightarrow> sm_loop s = LStop a rest \<Longrightarrow>
     sm_step s ((set_pc a TGotExit s)\<lparr>sm_loop := LClear rest\<rparr>)"
| st_delete: "a < length (sm_acts s) \<Longrightarrow> a_pc (sm_acts s ! a) \<in> {TGotTick, TGotExit} \<Longrightarrow> sm_loop s = LSelect \<Longrightarrow>
     sm_step s (thread_delete a s)"
| st_send_act: "a < length (sm_acts s) \<Longrightarrow> a_pc (sm_acts s ! a) = TSend \<Longrightarrow> length (sm_actCtrl s) < chan_cap \<Longrightarrow>
     sm_step s ((set_pc a TDone s)\<lparr>sm_actCtrl := sm_actCtrl s @ [a]\<rparr>)"
| st_message: "sm_loop s = LSelect \<Longrightarrow> sm_msgCtrl s = m # ms \<Longrightarrow>
     sm_step s (loop_message m (s\<lparr>sm_msgCtrl := ms\<rparr>))"
| st_fire: "sm_loop s = LSelect \<Longrightarrow> sm_actCtrl s = a # as \<Longrightarrow>
     sm_step s (fire_action a (s\<lparr>sm_actCtrl := as\<rparr>))"
| st_clear: "sm_loop s = LClear (xs @ a # ys) \<Longrightarrow> sm_step s (clear_one a (xs @ ys) s)"
| st_enter: "sm_loop s = LClear [] \<Longrightarrow> sm_step s (enter_state s)"

inductive sm_reach :: "('p, 'h, 'f) sm \<Rightarrow> bool" where
  reach_new: "sm_reach (NewStateMachine name)"
| reach_step: "sm_reach s \<Longrightarrow> sm_step s s' \<Longrightarrow> sm_reach s'"

section \<open>Invariants\<close>

lemma upd_act_simps [simp]:
  "length (sm_acts (upd_act a g s)) = length (sm_acts s)"
  "sm_ActElems (upd_act a g s) = sm_ActElems s" "sm_msgCtrl (upd_act a g s) = sm_msgCtrl s"
  "sm_actCtrl (upd_act a g s) = sm_actCtrl s" "sm_loop (upd_act a g s) = sm_loop s"
  "sm_trace (upd_act a g s) = sm_trace s" "sm_StateCurr (upd_act a g s) = sm_StateCurr s"
  "sm_StatePrev (upd_act a g s) = sm_StatePrev s" "sm_StateElems (upd_act a g s) = sm_StateElems s"
  "sm_objs (upd_act a g s) = sm_objs s" "sm_stops (upd_act a g s) = sm_stops s"
  by (simp_all add: upd_act_def)

lemma nth_upd_act:
  "b < length (sm_acts s) \<Longrightarrow> sm_acts (upd_act a g s) ! b = (if b = a then g (sm_acts s ! a) else sm_acts s ! b)"
  by (auto simp: upd_act_def nth_list_update)

lemmas op_defs = set_pc_def thread_delete_def Stop_begin_def clear_one_def

lemmas sm_defs = RegisterState_def SetName_def SetState_def AddAction_def SendMessage_def op_defs
  loop_message_def onStateMessage_def onAddActionMessage_def fire_action_def enter_state_def

text \<open>Registered states keep their names; the state pointers are valid; the channels are bounded.\<close>

definition state_inv :: "('p, 'h, 'f) sm \<Rightarrow> bool" where
  "state_inv s \<longleftrightarrow>
     (\<forall>n x. sm_StateElems s n = Some x \<longrightarrow> x < length (sm_objs s) \<and> so_Name (sm_objs s ! x) = n)
     \<and> (\<forall>c. sm_StateCurr s = Some c \<longrightarrow> c < length (sm_objs s))
     \<and> (\<forall>c. sm_StatePrev s = Some c \<longrightarrow> c < length (sm_objs s))
     \<and> (sm_loop s \<noteq> LSelect \<longrightarrow> sm_StateCurr s \<noteq> None)
     \<and> length (sm_msgCtrl s) \<le> chan_cap \<and> length (sm_actCtrl s) \<le> chan_cap"

lemma state_inv_upd [simp]:
  "state_inv (upd_act a g s) = state_inv s" "state_inv (s\<lparr>sm_stops := q\<rparr>) = state_inv s"
  "state_inv (s\<lparr>sm_ActElems := l\<rparr>) = state_inv s" "state_inv (s\<lparr>sm_trace := t\<rparr>) = state_inv s"
  "state_inv (s\<lparr>sm_acts := as\<rparr>) = state_inv s" "state_inv (s\<lparr>sm_Name := n\<rparr>) = state_inv s"
  "state_inv (s\<lparr>sm_StateNext := nx\<rparr>) = state_inv s"
  by (simp_all add: state_inv_def)

lemma state_inv_loop: "state_inv s \<Longrightarrow> l = LSelect \<or> sm_StateCurr s \<noteq> None \<Longrightarrow> state_inv (s\<lparr>sm_loop := l\<rparr>)"
  by (auto simp: state_inv_def)

lemma state_inv_channels:
  "state_inv s \<Longrightarrow> length q \<le> chan_cap \<Longrightarrow> state_inv (s\<lparr>sm_msgCtrl := q\<rparr>)"
  "state_inv s \<Longrightarrow> length r \<le> chan_cap \<Longrightarrow> state_inv (s\<lparr>sm_actCtrl := r\<rparr>)"
  by (simp_all add: state_inv_def)

lemma state_inv_move:
  assumes "state_inv s" "GetState s name = Some n"
  shows "state_inv (s\<lparr>sm_StateNext := None, sm_StatePrev := sm_StateCurr s, sm_StateCurr := Some n, sm_loop := l\<rparr>)"
  using assms by (auto simp: state_inv_def GetState_def)

lemma so_Name_update:
  "x < length xs \<Longrightarrow> so_Name (xs[n := (xs ! n)\<lparr>so_Priv := v\<rparr>] ! x) = so_Name (xs ! x)"
  by (cases "x = n") simp_all

lemma state_inv_priv:
  "state_inv s \<Longrightarrow> state_inv (s\<lparr>sm_objs := (sm_objs s)[n := (sm_objs s ! n)\<lparr>so_Priv := v\<rparr>]\<rparr>)"
  unfolding state_inv_def by (simp add: so_Name_update)

lemma state_inv_onStateMessage: "state_inv s \<Longrightarrow> state_inv (onStateMessage m s)"
proof (cases "msg_data m")
  case (DState name priv)
  assume inv: "state_inv s"
  show ?thesis
  proof (cases "GetState s name")
    case None
    with inv DState show ?thesis by (simp add: onStateMessage_def)
  next
    case (Some n)
    let ?s1 = "s\<lparr>sm_objs := (sm_objs s)[n := (sm_objs s ! n)\<lparr>so_Priv := Some priv\<rparr>]\<rparr>"
    have "state_inv ?s1" using inv by (rule state_inv_priv)
    then have "state_inv (?s1\<lparr>sm_StateNext := Some n, sm_trace := t\<rparr>)" for t
      by simp
    with \<open>state_inv ?s1\<close> inv DState Some show ?thesis
      using state_inv_move [of ?s1 name n] state_inv_move [of "?s1\<lparr>sm_StateNext := Some n, sm_trace := t\<rparr>" name n for t]
      by (auto simp: onStateMessage_def GetState_def Let_def split: option.split)
  qed
qed (simp_all add: onStateMessage_def)

lemma state_inv_onAddActionMessage: "state_inv s \<Longrightarrow> state_inv (onAddActionMessage m s)"
  by (simp add: onAddActionMessage_def Let_def split: msg_data.split option.split)

lemma state_inv_loop_message: "state_inv s \<Longrightarrow> state_inv (loop_message m s)"
  by (simp add: loop_message_def state_inv_onStateMessage state_inv_onAddActionMessage split: message_type.split)

lemma state_inv_SendMessage: "SendMessage m s = Some s' \<Longrightarrow> state_inv s \<Longrightarrow> state_inv s'"
  by (auto simp: SendMessage_def state_inv_channels split: if_splits)

lemma state_inv_AddAction: "AddAction n f d desc fis s = Some s' \<Longrightarrow> state_inv s \<Longrightarrow> state_inv s'"
  by (auto simp: AddAction_def Let_def state_inv_channels state_inv_SendMessage split: if_splits
      dest!: state_inv_SendMessage)

lemma state_inv_RegisterState: "state_inv s \<Longrightarrow> state_inv (RegisterState n h s)"
  by (auto simp: state_inv_def RegisterState_def nth_append less_SucI)

lemma sm_step_state_inv: "sm_step s s' \<Longrightarrow> state_inv s \<Longrightarrow> state_inv s'"
proof (induction rule: sm_step.induct)
  case (st_message s m ms)
  then have "length ms \<le> chan_cap" by (simp add: state_inv_def)
  with st_message show ?case by (simp add: state_inv_loop_message state_inv_channels)
next
  case (st_fire s a as)
  then have "length as \<le> chan_cap" by (simp add: state_inv_def)
  with st_fire show ?case by (simp add: fire_action_def Let_def state_inv_channels split: option.split)
next
  case (st_exit_loop a s rest)
  then show ?case by (intro state_inv_loop) (auto simp: set_pc_def state_inv_def)
next
  case (st_clear s xs a ys)
  then have "sm_StateCurr s \<noteq> None" by (simp add: state_inv_def)
  with st_clear show ?case by (simp add: clear_one_def state_inv_loop)
next
  case (st_send_act a s)
  then show ?case by (intro state_inv_channels) (auto simp: set_pc_def)
next
  case (st_enter s)
  then show ?case by (simp add: enter_state_def state_inv_loop split: option.split)
next
  case (st_set_state name priv s s')
  then show ?case by (simp add: SetState_def state_inv_SendMessage)
qed (simp_all add: SetName_def op_defs state_inv_SendMessage state_inv_AddAction state_inv_RegisterState)

text \<open>The fold that replays the state callbacks: the state entered last, and a leave still open.\<close>

definition replay_step ::
    "(nat option \<times> nat option) option \<Rightarrow> ('h, 'f) event \<Rightarrow> (nat option \<times> nat option) option" where
  "replay_step r e =
     (case r of None \<Rightarrow> None
      | Some (cur, pend) \<Rightarrow>
          (case e of
             EvLeave h c n \<Rightarrow> if cur = Some c \<and> pend = None \<and> n \<noteq> c then Some (cur, Some n) else None
           | EvEnter h p n \<Rightarrow>
               if p = cur \<and> (if cur = None then pend = None else pend = Some n) then Some (Some n, None) else None
           | EvFire f fis curname \<Rightarrow> if pend = None then Some (cur, pend) else None))"

definition replay :: "('h, 'f) event list \<Rightarrow> (nat option \<times> nat option) option" where
  "replay tr = foldl replay_step (Some (None, None)) tr"

definition fired_ok :: "('h, 'f) event list \<Rightarrow> bool" where
  "fired_ok tr = list_all (\<lambda>e. case e of EvFire f fis cur \<Rightarrow> fis = [] \<or> cur = Some fis | _ \<Rightarrow> True) tr"

definition trace_inv :: "('p, 'h, 'f) sm \<Rightarrow> bool" where
  "trace_inv s \<longleftrightarrow>
     fired_ok (sm_trace s)
     \<and> replay (sm_trace s) =
         Some (if sm_loop s = LSelect then (sm_StateCurr s, None)
               else (sm_StatePrev s, if sm_StatePrev s = None then None else sm_StateCurr s))"


lemma replay_snoc [simp]: "replay (tr @ [e]) = replay_step (replay tr) e" "replay [] = Some (None, None)"
  by (simp_all add: replay_def)

lemma fired_ok_snoc [simp]:
  "fired_ok (tr @ [EvLeave h c n]) = fired_ok tr" "fired_ok (tr @ [EvEnter h q c]) = fired_ok tr"
  "fired_ok (tr @ [EvFire f fis cur]) \<longleftrightarrow> fired_ok tr \<and> (fis = [] \<or> cur = Some fis)" "fired_ok []"
  by (auto simp: fired_ok_def)

lemma trace_inv_frame [simp]:
  "trace_inv (upd_act a g s) = trace_inv s" "trace_inv (s\<lparr>sm_stops := q\<rparr>) = trace_inv s"
  "trace_inv (s\<lparr>sm_ActElems := l\<rparr>) = trace_inv s" "trace_inv (s\<lparr>sm_msgCtrl := ms\<rparr>) = trace_inv s"
  "trace_inv (s\<lparr>sm_acts := as\<rparr>) = trace_inv s" "trace_inv (s\<lparr>sm_Name := n\<rparr>) = trace_inv s"
  "trace_inv (s\<lparr>sm_actCtrl := cs\<rparr>) = trace_inv s" "trace_inv (s\<lparr>sm_objs := os\<rparr>) = trace_inv s"
  "trace_inv (s\<lparr>sm_StateElems := es\<rparr>) = trace_inv s"
  by (simp_all add: trace_inv_def)

lemma trace_inv_loop: "trace_inv s \<Longrightarrow> sm_loop s \<noteq> LSelect \<Longrightarrow> l \<noteq> LSelect \<Longrightarrow> trace_inv (s\<lparr>sm_loop := l\<rparr>)"
  by (simp add: trace_inv_def)

lemma trace_inv_onStateMessage:
  assumes "trace_inv s" "sm_loop s = LSelect"
  shows "trace_inv (onStateMessage m s)"
proof (cases "msg_data m")
  case (DState name priv)
  with assms show ?thesis
    by (cases "GetState s name"; cases "sm_StateCurr s")
      (auto simp: onStateMessage_def trace_inv_def Let_def replay_step_def)
qed (simp_all add: onStateMessage_def assms)

lemma trace_inv_fire_action:
  "trace_inv s \<Longrightarrow> sm_loop s = LSelect \<Longrightarrow> trace_inv (fire_action a s)"
  by (auto simp: fire_action_def trace_inv_def Let_def replay_step_def split: option.split)

lemma trace_inv_enter_state:
  "trace_inv s \<Longrightarrow> sm_loop s = LClear [] \<Longrightarrow> sm_StateCurr s \<noteq> None \<Longrightarrow> trace_inv (enter_state s)"
  by (auto simp: enter_state_def trace_inv_def replay_step_def)

lemma trace_inv_SendMessage: "SendMessage m s = Some s' \<Longrightarrow> trace_inv s \<Longrightarrow> trace_inv s'"
  by (auto simp: SendMessage_def split: if_splits)

lemma trace_inv_AddAction: "AddAction n f d desc fis s = Some s' \<Longrightarrow> trace_inv s \<Longrightarrow> trace_inv s'"
  by (auto simp: AddAction_def Let_def SendMessage_def split: if_splits)

lemma sm_step_trace_inv: "sm_step s s' \<Longrightarrow> state_inv s \<Longrightarrow> trace_inv s \<Longrightarrow> trace_inv s'"
proof (induction rule: sm_step.induct)
  case (st_message s m ms)
  then show ?case
    by (simp add: loop_message_def onAddActionMessage_def trace_inv_onStateMessage Let_def
        split: message_type.split msg_data.split option.split)
next
  case (st_exit_loop a s rest)
  then show ?case by (intro trace_inv_loop) (auto simp: set_pc_def)
next
  case (st_clear s xs a ys)
  then show ?case by (simp add: clear_one_def trace_inv_loop)
next
  case (st_set_state name priv s s')
  then show ?case by (simp add: SetState_def trace_inv_SendMessage)
next
  case (st_enter s)
  then show ?case by (intro trace_inv_enter_state) (auto simp: state_inv_def)
qed (simp_all add: SetName_def RegisterState_def op_defs trace_inv_SendMessage trace_inv_AddAction trace_inv_fire_action)

lemma reach_state_inv: "sm_reach s \<Longrightarrow> state_inv s"
proof (induction rule: sm_reach.induct)
  case (reach_new name)
  show ?case by (simp add: state_inv_def NewStateMachine_def)
qed (rule sm_step_state_inv)

lemma reach_trace_inv: "sm_reach s \<Longrightarrow> trace_inv s"
proof (induction rule: sm_reach.induct)
  case (reach_new name)
  show ?case by (simp add: trace_inv_def NewStateMachine_def)
next
  case (reach_step s s')
  then show ?case by (blast intro: sm_step_trace_inv reach_state_inv)
qed

section \<open>The listed actions\<close>

text \<open>An action is listed, under its identifier, exactly while its goroutine has not passed the deletion.\<close>

definition live_pc :: "action_pc \<Rightarrow> bool" where
  "live_pc pc \<longleftrightarrow> pc = TWait \<or> pc = TGotTick \<or> pc = TGotExit"

definition acts_ok :: "'f action list \<Rightarrow> (string \<times> nat) list \<Rightarrow> bool" where
  "acts_ok acts l \<longleftrightarrow> distinct (map fst l)
     \<and> (\<forall>k a. map_of l k = Some a \<longleftrightarrow> a < length acts \<and> a_ID (acts ! a) = k \<and> live_pc (a_pc (acts ! a)))"

fun queue_ok :: "'f action list \<Rightarrow> 'p message list \<Rightarrow> bool" where
  "queue_ok acts [] = True"
| "queue_ok acts (Message t d # ms) =
     (queue_ok acts ms
      \<and> (case d of DAction a \<Rightarrow> a < length acts \<and> a_pc (acts ! a) = TNew \<and> (\<forall>t'. Message t' d \<notin> set ms) | _ \<Rightarrow> True))"

text \<open>While \<open>ClearActions\<close> runs, every listed action it is done with and that is bound to a state has taken \<open>Exit\<close>.\<close>

definition purged :: "'f action list \<Rightarrow> nat list \<Rightarrow> bool" where
  "purged acts xs \<longleftrightarrow> (\<forall>a < length acts. live_pc (a_pc (acts ! a)) \<longrightarrow> a \<notin> set xs \<longrightarrow>
     a_FireInState (acts ! a) \<noteq> [] \<longrightarrow> a_pc (acts ! a) = TGotExit)"

definition clear_ok :: "'f action list \<Rightarrow> loop_pc \<Rightarrow> bool" where
  "clear_ok acts l =
     (case l of LSelect \<Rightarrow> True
      | LClear xs \<Rightarrow> purged acts xs \<and> (\<forall>a \<in> set xs. a < length acts \<and> live_pc (a_pc (acts ! a)))
      | LStop b xs \<Rightarrow> purged acts (b # xs) \<and> (\<forall>a \<in> set (b # xs). a < length acts \<and> live_pc (a_pc (acts ! a))))"

definition act_inv :: "('p, 'h, 'f) sm \<Rightarrow> bool" where
  "act_inv s \<longleftrightarrow> acts_ok (sm_acts s) (sm_ActElems s) \<and> queue_ok (sm_acts s) (sm_msgCtrl s)
     \<and> clear_ok (sm_acts s) (sm_loop s)"

lemma live_pc_simps [simp]: "live_pc TWait" "live_pc TGotTick" "live_pc TGotExit"
  "\<not> live_pc TNew" "\<not> live_pc TSend" "\<not> live_pc TDone"
  by (simp_all add: live_pc_def)

text \<open>An update that keeps the identifier, the list membership and the pending messages.\<close>

lemma acts_ok_update:
  "acts_ok acts l \<Longrightarrow> a_ID act = a_ID (acts ! a) \<Longrightarrow> live_pc (a_pc act) = live_pc (a_pc (acts ! a)) \<Longrightarrow>
   acts_ok (acts[a := act]) l"
  unfolding acts_ok_def by (auto simp: nth_update_if)

lemma queue_ok_update:
  "queue_ok acts ms \<Longrightarrow> a_pc act = TNew \<or> a_pc (acts ! a) \<noteq> TNew \<Longrightarrow> queue_ok (acts[a := act]) ms"
  by (induction acts ms rule: queue_ok.induct) (auto simp: nth_update_if split: msg_data.splits)

lemma purged_update:
  "purged acts xs \<Longrightarrow> live_pc (a_pc act) = live_pc (a_pc (acts ! a)) \<Longrightarrow>
   a_FireInState act = a_FireInState (acts ! a) \<Longrightarrow> a_pc act = a_pc (acts ! a) \<or> a_pc (acts ! a) = TWait \<Longrightarrow>
   purged (acts[a := act]) xs"
  unfolding purged_def by (auto simp: nth_update_if)

lemma clear_ok_update:
  "clear_ok acts l \<Longrightarrow> live_pc (a_pc act) = live_pc (a_pc (acts ! a)) \<Longrightarrow>
   a_FireInState act = a_FireInState (acts ! a) \<Longrightarrow> a_pc act = a_pc (acts ! a) \<or> a_pc (acts ! a) = TWait \<Longrightarrow>
   clear_ok (acts[a := act]) l"
  unfolding clear_ok_def by (auto simp: purged_update nth_update_if split: loop_pc.split)

lemma clear_ok_done:
  "clear_ok acts l \<Longrightarrow> \<not> live_pc (a_pc (acts ! a)) \<Longrightarrow> \<not> live_pc (a_pc act) \<Longrightarrow> clear_ok (acts[a := act]) l"
  unfolding clear_ok_def purged_def by (auto simp: nth_update_if split: loop_pc.split)

lemma act_inv_update:
  "act_inv s \<Longrightarrow> a_ID (g (sm_acts s ! a)) = a_ID (sm_acts s ! a) \<Longrightarrow>
   a_FireInState (g (sm_acts s ! a)) = a_FireInState (sm_acts s ! a) \<Longrightarrow>
   a_pc (g (sm_acts s ! a)) = a_pc (sm_acts s ! a)
     \<or> a_pc (sm_acts s ! a) = TWait \<and> live_pc (a_pc (g (sm_acts s ! a))) \<Longrightarrow>
   act_inv (upd_act a g s)"
  by (auto simp: act_inv_def upd_act_def acts_ok_update queue_ok_update clear_ok_update)

lemma act_inv_frame [simp]:
  "act_inv (s\<lparr>sm_stops := q\<rparr>) = act_inv s" "act_inv (s\<lparr>sm_trace := t\<rparr>) = act_inv s"
  "act_inv (s\<lparr>sm_actCtrl := cs\<rparr>) = act_inv s" "act_inv (s\<lparr>sm_objs := os\<rparr>) = act_inv s"
  "act_inv (s\<lparr>sm_StateElems := es\<rparr>) = act_inv s" "act_inv (s\<lparr>sm_Name := n\<rparr>) = act_inv s"
  by (simp_all add: act_inv_def)


lemma clear_ok_grow:
  "clear_ok acts l \<Longrightarrow> \<not> live_pc (a_pc act) \<Longrightarrow> clear_ok (acts @ [act]) l"
  unfolding clear_ok_def purged_def by (auto simp: nth_append less_Suc_eq split: loop_pc.splits)

lemma acts_ok_grow: "acts_ok acts l \<Longrightarrow> \<not> live_pc (a_pc act) \<Longrightarrow> acts_ok (acts @ [act]) l"
  unfolding acts_ok_def by (auto simp: nth_append less_Suc_eq)

lemma queue_ok_grow: "queue_ok acts ms \<Longrightarrow> queue_ok (acts @ [act]) ms"
  by (induction acts ms rule: queue_ok.induct) (auto simp: nth_append split: msg_data.splits)

lemma queue_ok_range: "queue_ok acts ms \<Longrightarrow> Message t (DAction a) \<in> set ms \<Longrightarrow> a < length acts"
  by (induction acts ms rule: queue_ok.induct) (auto split: msg_data.splits)

lemma queue_ok_snoc:
  "queue_ok acts ms \<Longrightarrow> (\<forall>a. d \<noteq> DAction a) \<Longrightarrow> queue_ok acts (ms @ [Message t d])"
  "queue_ok acts ms \<Longrightarrow> (\<forall>t'. Message t' (DAction b) \<notin> set ms) \<Longrightarrow> b < length acts \<Longrightarrow>
   a_pc (acts ! b) = TNew \<Longrightarrow> queue_ok acts (ms @ [Message t (DAction b)])"
  by (induction acts ms rule: queue_ok.induct) (auto split: msg_data.splits)

lemma act_inv_SendMessage:
  "SendMessage (Message t d) s = Some s' \<Longrightarrow> (\<forall>a. d \<noteq> DAction a) \<Longrightarrow> act_inv s \<Longrightarrow> act_inv s'"
  by (auto simp: SendMessage_def act_inv_def queue_ok_snoc split: if_splits)

lemma act_inv_AddAction:
  assumes "AddAction n f d desc fis s = Some s'" "act_inv s"
  shows "act_inv s'"
proof -
  let ?act = "\<lparr>a_ID = n, a_Description = desc, a_FireInState = fis, a_Delay = d,
    a_T = NoTimer, a_F = f, a_pc = TNew\<rparr>"
  let ?s1 = "s\<lparr>sm_acts := sm_acts s @ [?act]\<rparr>"
  have ok: "act_inv ?s1"
    using assms(2) by (simp add: act_inv_def acts_ok_grow clear_ok_grow queue_ok_grow)
  have fresh: "\<forall>t'. Message t' (DAction (length (sm_acts s))) \<notin> set (sm_msgCtrl s)"
    using assms(2) queue_ok_range unfolding act_inv_def by blast
  have "queue_ok (sm_acts ?s1) (sm_msgCtrl s @ [Message t (DAction (length (sm_acts s)))])" for t
    using ok fresh by (intro queue_ok_snoc(2)) (simp_all add: act_inv_def)
  with ok assms(1) show ?thesis
    by (auto simp: AddAction_def SendMessage_def act_inv_def Let_def split: if_splits)
qed

lemma queue_ok_start:
  "queue_ok acts ms \<Longrightarrow> (\<forall>t'. Message t' (DAction m) \<notin> set ms) \<Longrightarrow> queue_ok (acts[m := act]) ms"
  by (induction acts ms rule: queue_ok.induct) (auto simp: nth_update_if split: msg_data.splits)

lemma acts_okD:
  "acts_ok acts l \<Longrightarrow> map_of l k = Some a \<longleftrightarrow> a < length acts \<and> a_ID (acts ! a) = k \<and> live_pc (a_pc (acts ! a))"
  "acts_ok acts l \<Longrightarrow> distinct (map fst l)"
  by (simp_all only: acts_ok_def)

lemma acts_okI:
  "distinct (map fst l) \<Longrightarrow>
   (\<And>k a. map_of l k = Some a \<longleftrightarrow> a < length acts \<and> a_ID (acts ! a) = k \<and> live_pc (a_pc (acts ! a))) \<Longrightarrow>
   acts_ok acts l"
  unfolding acts_ok_def by blast

lemma acts_ok_start:
  assumes "acts_ok acts l" "m < length acts" "a_pc (acts ! m) = TNew" "map_of l (a_ID (acts ! m)) = None"
    "a_ID act = a_ID (acts ! m)" "live_pc (a_pc act)"
  shows "acts_ok (acts[m := act]) ((a_ID (acts ! m), m) # l)"
proof (rule acts_okI)
  show "distinct (map fst ((a_ID (acts ! m), m) # l))"
    using assms(1,4) by (simp add: acts_okD map_of_eq_None_iff)
next
  fix k a
  have "\<not> (a < length acts \<and> a_ID (acts ! a) = a_ID (acts ! m) \<and> live_pc (a_pc (acts ! a)))"
    using acts_okD(1) [OF assms(1), of "a_ID (acts ! m)" a] assms(4) by simp
  then show "map_of ((a_ID (acts ! m), m) # l) k = Some a \<longleftrightarrow>
      a < length (acts[m := act]) \<and> a_ID (acts[m := act] ! a) = k \<and> live_pc (a_pc (acts[m := act] ! a))"
    using assms acts_okD(1) [OF assms(1), of k a] by (auto simp: nth_update_if)
qed

lemma acts_ok_delete:
  assumes "acts_ok acts l" "a < length acts" "live_pc (a_pc (acts ! a))" "a_ID act = a_ID (acts ! a)"
    "\<not> live_pc (a_pc act)"
  shows "acts_ok (acts[a := act]) (AList.delete (a_ID (acts ! a)) l)"
proof (rule acts_okI)
  show "distinct (map fst (AList.delete (a_ID (acts ! a)) l))"
    using acts_okD(2) [OF assms(1)] by (rule AList.distinct_delete)
next
  fix k b
  have "map_of l (a_ID (acts ! a)) = Some a"
    using assms by (simp add: acts_okD del: map_of_eq_Some_iff)
  then show "map_of (AList.delete (a_ID (acts ! a)) l) k = Some b \<longleftrightarrow>
      b < length (acts[a := act]) \<and> a_ID (acts[a := act] ! b) = k \<and> live_pc (a_pc (acts[a := act] ! b))"
    using assms acts_okD(1) [OF assms(1), of k b]
    by (auto simp: AList.delete_conv' nth_update_if simp del: map_of_eq_Some_iff)
qed

lemma acts_ok_listed:
  assumes "acts_ok acts l"
  shows "a \<in> set (map snd l) \<longleftrightarrow> a < length acts \<and> live_pc (a_pc (acts ! a))"
proof -
  have "a \<in> set (map snd l) \<longleftrightarrow> (\<exists>k. map_of l k = Some a)"
    using acts_okD(2) [OF assms] by (force simp: map_of_eq_Some_iff)
  then show ?thesis
    using acts_okD(1) [OF assms] by (simp del: map_of_eq_Some_iff)
qed


lemma act_inv_start:
  assumes "act_inv (s\<lparr>sm_msgCtrl := Message t (DAction m) # ms\<rparr>)" "sm_loop s = LSelect"
  shows "act_inv (onAddActionMessage (Message t (DAction m)) (s\<lparr>sm_msgCtrl := ms\<rparr>))"
proof (cases "map_of (sm_ActElems s) (a_ID (sm_acts s ! m))")
  case None
  then show ?thesis
    using assms by (simp add: act_inv_def onAddActionMessage_def FindAction_def upd_act_def
        acts_ok_start queue_ok_start clear_ok_def)
next
  case (Some a)
  then have "a < length (sm_acts s)" "live_pc (a_pc (sm_acts s ! a))"
    using assms acts_okD(1) by (fastforce simp: act_inv_def simp del: map_of_eq_Some_iff)+
  with Some show ?thesis
    using assms by (auto simp: act_inv_def onAddActionMessage_def FindAction_def upd_act_def Let_def
        acts_ok_update clear_ok_def intro!: queue_ok_update)
qed

lemma set_GetActions:
  "act_inv s \<Longrightarrow> a \<in> set (GetActions s) \<longleftrightarrow> a < length (sm_acts s) \<and> live_pc (a_pc (sm_acts s ! a))"
  unfolding act_inv_def GetActions_def by (simp only: acts_ok_listed)

lemma act_inv_onStateMessage:
  assumes "act_inv s" "sm_loop s = LSelect"
  shows "act_inv (onStateMessage m s)"
proof -
  have "clear_ok (sm_acts s) (LClear (GetActions s))"
    using assms by (simp add: clear_ok_def purged_def set_GetActions)
  with assms show ?thesis
    by (auto simp: onStateMessage_def act_inv_def Let_def GetActions_def split: msg_data.splits option.splits)
qed

lemma onAddActionMessage_foreign:
  "(\<And>a. d \<noteq> DAction a) \<Longrightarrow> onAddActionMessage (Message t d) s = s"
  by (simp add: onAddActionMessage_def split: msg_data.split)

lemma act_inv_loop_message:
  assumes "act_inv s" "sm_loop s = LSelect" "sm_msgCtrl s = m # ms"
  shows "act_inv (loop_message m (s\<lparr>sm_msgCtrl := ms\<rparr>))"
proof -
  obtain t d where m: "m = Message t d" by (cases m)
  have rest: "act_inv (s\<lparr>sm_msgCtrl := ms\<rparr>)"
    using assms m by (simp add: act_inv_def)
  have "act_inv (onAddActionMessage m (s\<lparr>sm_msgCtrl := ms\<rparr>))"
  proof (cases d)
    case (DAction a)
    have "s\<lparr>sm_msgCtrl := Message t (DAction a) # ms\<rparr> = s"
      using assms(3) m DAction by simp
    with assms m DAction act_inv_start [of t a ms s] show ?thesis by simp
  qed (use rest m in \<open>simp_all add: onAddActionMessage_foreign\<close>)
  with rest assms(2) show ?thesis
    by (simp add: loop_message_def act_inv_onStateMessage split: message_type.split)
qed

lemma act_inv_thread_delete:
  assumes "act_inv s" "a < length (sm_acts s)" "a_pc (sm_acts s ! a) \<in> {TGotTick, TGotExit}" "sm_loop s = LSelect"
  shows "act_inv (thread_delete a s)"
proof -
  have "live_pc (a_pc (sm_acts s ! a))" "a_pc (sm_acts s ! a) \<noteq> TNew"
    using assms(3) by auto
  with assms show ?thesis
    by (auto simp: act_inv_def thread_delete_def set_pc_def upd_act_def clear_ok_def
        intro!: acts_ok_delete queue_ok_update)
qed


lemma act_inv_exit_loop:
  assumes "act_inv s" "a < length (sm_acts s)" "a_pc (sm_acts s ! a) = TWait" "sm_loop s = LStop a rest"
  shows "act_inv ((set_pc a TGotExit s)\<lparr>sm_loop := LClear rest\<rparr>)"
  using assms
  by (auto simp: act_inv_def set_pc_def upd_act_def clear_ok_def purged_def nth_update_if
      intro!: acts_ok_update queue_ok_update)

lemma act_inv_clear_one:
  assumes "act_inv s" "sm_loop s = LClear (xs @ a # ys)"
  shows "act_inv (clear_one a (xs @ ys) s)"
proof (cases "a_FireInState (sm_acts s ! a) = []")
  case True
  then have "purged (sm_acts s) (xs @ a # ys) \<Longrightarrow> purged (sm_acts s) (xs @ ys)"
    by (auto simp: purged_def)
  with True assms show ?thesis by (simp add: clear_one_def act_inv_def clear_ok_def)
next
  case False
  let ?g = "\<lambda>act. act\<lparr>a_T := timer_stop (a_T act)\<rparr>"
  have "clear_ok (sm_acts s) (LStop a (xs @ ys))"
    using assms by (auto simp: act_inv_def clear_ok_def purged_def)
  then have "act_inv (s\<lparr>sm_loop := LStop a (xs @ ys)\<rparr>)"
    using assms by (simp add: act_inv_def)
  from act_inv_update [OF this, of ?g a] False show ?thesis
    by (simp add: clear_one_def upd_act_def act_inv_def)
qed

lemma act_inv_send_act:
  "act_inv s \<Longrightarrow> a_pc (sm_acts s ! a) = TSend \<Longrightarrow> act_inv (set_pc a TDone s)"
  by (auto simp: act_inv_def set_pc_def upd_act_def intro!: acts_ok_update queue_ok_update clear_ok_done)

lemma act_inv_enter_state: "act_inv s \<Longrightarrow> act_inv (enter_state s)"
  by (simp add: enter_state_def act_inv_def clear_ok_def split: option.split)

lemma act_inv_fire_action: "act_inv s \<Longrightarrow> act_inv (fire_action a s)"
  by (simp add: fire_action_def Let_def split: option.split)

lemma sm_step_act_inv: "sm_step s s' \<Longrightarrow> act_inv s \<Longrightarrow> act_inv s'"
proof (induction rule: sm_step.induct)
  case (st_message s m ms)
  then show ?case by (simp add: act_inv_loop_message)
next
  case (st_set_state name priv s s')
  then show ?case by (simp add: SetState_def act_inv_SendMessage)
next
  case (st_send d t s s')
  then show ?case by (simp add: act_inv_SendMessage)
qed (simp_all add: SetName_def RegisterState_def Stop_begin_def set_pc_def act_inv_AddAction act_inv_update
    act_inv_thread_delete act_inv_exit_loop [unfolded set_pc_def] act_inv_clear_one
    act_inv_send_act [unfolded set_pc_def] act_inv_enter_state act_inv_fire_action)

lemma reach_act_inv: "sm_reach s \<Longrightarrow> act_inv s"
proof (induction rule: sm_reach.induct)
  case (reach_new name)
  show ?case by (simp add: act_inv_def NewStateMachine_def acts_ok_def clear_ok_def)
qed (rule sm_step_act_inv)


section \<open>Schedules\<close>

text \<open>A schedule names the steps one after another; its execution computes, and stays reachable.\<close>

datatype ('p, 'h, 'f) sm_op =
    OpRegister string 'h
  | OpSetState string 'p
  | OpAddAction string 'f int string
  | OpExpire nat
  | OpTick nat
  | OpExitLoop
  | OpDelete nat
  | OpSendAct nat
  | OpMessage
  | OpFire
  | OpClear
  | OpEnter

fun exec_op :: "('p, 'h, 'f) sm_op \<Rightarrow> ('p, 'h, 'f) sm \<Rightarrow> ('p, 'h, 'f) sm option" where
  "exec_op (OpRegister n h) s = Some (RegisterState n h s)"
| "exec_op (OpSetState n p) s = SetState n p s"
| "exec_op (OpAddAction i f d fis) s = AddAction i f d [] fis s"
| "exec_op (OpExpire a) s =
     (if a < length (sm_acts s) \<and> a_T (sm_acts s ! a) = Armed
      then Some (upd_act a (\<lambda>act. act\<lparr>a_T := Expired\<rparr>) s) else None)"
| "exec_op (OpTick a) s =
     (if a < length (sm_acts s) \<and> a_pc (sm_acts s ! a) = TWait \<and> a_T (sm_acts s ! a) = Expired
      then Some (upd_act a (\<lambda>act. act\<lparr>a_T := Stopped, a_pc := TGotTick\<rparr>) s) else None)"
| "exec_op OpExitLoop s =
     (case sm_loop s of
        LStop a rest \<Rightarrow> if a < length (sm_acts s) \<and> a_pc (sm_acts s ! a) = TWait
          then Some ((set_pc a TGotExit s)\<lparr>sm_loop := LClear rest\<rparr>) else None
      | _ \<Rightarrow> None)"
| "exec_op (OpDelete a) s =
     (if a < length (sm_acts s) \<and> a_pc (sm_acts s ! a) \<in> {TGotTick, TGotExit} \<and> sm_loop s = LSelect
      then Some (thread_delete a s) else None)"
| "exec_op (OpSendAct a) s =
     (if a < length (sm_acts s) \<and> a_pc (sm_acts s ! a) = TSend \<and> length (sm_actCtrl s) < chan_cap
      then Some ((set_pc a TDone s)\<lparr>sm_actCtrl := sm_actCtrl s @ [a]\<rparr>) else None)"
| "exec_op OpMessage s =
     (case (sm_loop s, sm_msgCtrl s) of
        (LSelect, m # ms) \<Rightarrow> Some (loop_message m (s\<lparr>sm_msgCtrl := ms\<rparr>)) | _ \<Rightarrow> None)"
| "exec_op OpFire s =
     (case (sm_loop s, sm_actCtrl s) of
        (LSelect, a # as) \<Rightarrow> Some (fire_action a (s\<lparr>sm_actCtrl := as\<rparr>)) | _ \<Rightarrow> None)"
| "exec_op OpClear s =
     (case sm_loop s of LClear (a # ys) \<Rightarrow> Some (clear_one a ys s) | _ \<Rightarrow> None)"
| "exec_op OpEnter s = (if sm_loop s = LClear [] then Some (enter_state s) else None)"

fun exec_ops :: "('p, 'h, 'f) sm_op list \<Rightarrow> ('p, 'h, 'f) sm \<Rightarrow> ('p, 'h, 'f) sm option" where
  "exec_ops [] s = Some s"
| "exec_ops (x # xs) s = (case exec_op x s of None \<Rightarrow> None | Some s' \<Rightarrow> exec_ops xs s')"

lemma exec_op_step: "exec_op x s = Some s' \<Longrightarrow> sm_step s s'"
  by (cases x) (auto intro: sm_step.intros sm_step.st_clear [of s "[]", simplified]
      split: if_splits loop_pc.splits list.splits)

lemma exec_ops_reach: "exec_ops xs s = Some s' \<Longrightarrow> sm_reach s \<Longrightarrow> sm_reach s'"
  by (induction xs arbitrary: s) (auto split: option.splits dest: exec_op_step reach_step)

lemmas exec_reach = exec_ops_reach [OF _ reach_new]

lemmas exec_simps = NewStateMachine_def RegisterState_def SetState_def AddAction_def SendMessage_def
  set_pc_def upd_act_def thread_delete_def clear_one_def loop_message_def onStateMessage_def
  onAddActionMessage_def fire_action_def enter_state_def GetState_def FindAction_def GetActions_def
  chan_cap_def timer_stop_def Let_def

section \<open>Properties\<close>

definition demo_fire :: "(nat, nat, nat) sm_op list" where
  "demo_fire = [OpRegister ''A'' 7, OpSetState ''A'' 0, OpMessage, OpEnter, OpAddAction ''x'' 5 0 ''A'', OpFire]"

definition demo_purge :: "(nat, nat, nat) sm_op list" where
  "demo_purge = [OpRegister ''A'' 7, OpRegister ''B'' 8, OpSetState ''A'' 0, OpMessage, OpEnter,
     OpAddAction ''x'' 5 9 ''A'', OpMessage, OpSetState ''B'' 1, OpMessage, OpClear, OpExitLoop]"

definition demo_deadlock :: "(nat, nat, nat) sm_op list" where
  "demo_deadlock = [OpRegister ''A'' 7, OpRegister ''B'' 8, OpSetState ''A'' 0, OpMessage, OpEnter,
     OpAddAction ''x'' 5 9 ''A'', OpMessage, OpSetState ''B'' 1, OpExpire 0, OpTick 0, OpMessage, OpClear,
     OpSetState ''A'' 2]"

lemma demo_fire_run:
  "\<exists>s. exec_ops demo_fire (NewStateMachine ''m'') = Some s \<and> sm_loop s = LSelect
     \<and> sm_trace s = [EvEnter 7 None 0, EvFire 5 ''A'' (Some ''A'')] \<and> sm_StateCurr s = Some 0"
  by (simp add: demo_fire_def exec_simps)

lemma demo_purge_run:
  "\<exists>s. exec_ops demo_purge (NewStateMachine ''m'') = Some s \<and> sm_loop s = LClear []
     \<and> sm_ActElems s = [(''x'', 0)] \<and> a_FireInState (sm_acts s ! 0) = ''A''"
  by (simp add: demo_purge_def exec_simps)

lemma demo_deadlock_run:
  "\<exists>s. exec_ops demo_deadlock (NewStateMachine ''m'') = Some s \<and> sm_loop s = LStop 0 []
     \<and> 0 < length (sm_acts s) \<and> a_pc (sm_acts s ! 0) = TGotTick \<and> sm_msgCtrl s \<noteq> []"
  by (simp add: demo_deadlock_def exec_simps)


lemma SendMessage_acts: "SendMessage m s = Some s' \<Longrightarrow>
   sm_acts s' = sm_acts s \<and> sm_loop s' = sm_loop s \<and> sm_msgCtrl s' = sm_msgCtrl s @ [m]"
  by (auto simp: SendMessage_def split: if_splits)

lemma AddAction_acts: "AddAction n f d desc fis s = Some s' \<Longrightarrow>
   (\<exists>act. sm_acts s' = sm_acts s @ [act]) \<and> sm_loop s' = sm_loop s \<and> (\<exists>q. sm_msgCtrl s' = sm_msgCtrl s @ q)"
  by (auto simp: AddAction_def SendMessage_def Let_def split: if_splits)

lemma nth_acts_upd:
  "sm_acts (upd_act b g s) ! a = (if b = a \<and> a < length (sm_acts s) then g (sm_acts s ! b) else sm_acts s ! a)"
  by (simp add: upd_act_def nth_update_if)

definition stuck_in_clear :: "nat \<Rightarrow> nat list \<Rightarrow> ('p, 'h, 'f) sm \<Rightarrow> bool" where
  "stuck_in_clear a rest s \<longleftrightarrow> sm_loop s = LStop a rest \<and> a < length (sm_acts s) \<and> a_pc (sm_acts s ! a) = TGotTick"

lemma stuck_step:
  "sm_step s s' \<Longrightarrow> stuck_in_clear a rest s \<Longrightarrow> stuck_in_clear a rest s' \<and> (\<exists>q. sm_msgCtrl s' = sm_msgCtrl s @ q)"
proof (induction rule: sm_step.induct)
  case (st_set_state name priv s s')
  then show ?case by (auto simp: SetState_def stuck_in_clear_def dest!: SendMessage_acts)
next
  case (st_send d t s s')
  then show ?case by (auto simp: stuck_in_clear_def dest!: SendMessage_acts)
next
  case (st_add_action name f delay desc fis s s')
  then show ?case by (auto simp: stuck_in_clear_def nth_append dest!: AddAction_acts)
qed (auto simp: stuck_in_clear_def SetName_def RegisterState_def Stop_begin_def set_pc_def nth_acts_upd)

lemma stuck_forever:
  "sm_step\<^sup>*\<^sup>* s s' \<Longrightarrow> stuck_in_clear a rest s \<Longrightarrow> stuck_in_clear a rest s' \<and> (\<exists>q. sm_msgCtrl s' = sm_msgCtrl s @ q)"
proof (induction rule: rtranclp_induct)
  case (step y z)
  then show ?case using stuck_step [of y z a rest] by fastforce
qed simp

definition exited :: "nat \<Rightarrow> ('p, 'h, 'f) sm \<Rightarrow> bool" where
  "exited a s \<longleftrightarrow> a < length (sm_acts s) \<and> (a_pc (sm_acts s ! a) = TGotExit \<or> a_pc (sm_acts s ! a) = TDone)"

lemma exited_loop_message:
  assumes "act_inv s" "sm_msgCtrl s = m # ms" "exited a s"
  shows "exited a (loop_message m (s\<lparr>sm_msgCtrl := ms\<rparr>))"
proof -
  obtain t d where m: "m = Message t d" by (cases m)
  have fresh: "a_pc (sm_acts s ! b) = TNew" if "d = DAction b" for b
    using assms(1,2) m that by (simp add: act_inv_def)
  have "exited a (onAddActionMessage m (s\<lparr>sm_msgCtrl := ms\<rparr>))"
    using assms(3) m fresh
    by (auto simp: onAddActionMessage_def exited_def nth_acts_upd Let_def split: msg_data.split option.split)
  moreover have "exited a (onStateMessage m (s\<lparr>sm_msgCtrl := ms\<rparr>))"
    using assms(3) m by (auto simp: onStateMessage_def exited_def Let_def split: msg_data.split option.split)
  ultimately show ?thesis
    using assms(3) by (simp add: loop_message_def exited_def split: message_type.split)
qed

lemma exited_step: "sm_step s s' \<Longrightarrow> act_inv s \<Longrightarrow> exited a s \<Longrightarrow> exited a s'"
proof (induction rule: sm_step.induct)
  case (st_set_state name priv s s')
  then show ?case by (auto simp: SetState_def exited_def dest!: SendMessage_acts)
next
  case (st_send d t s s')
  then show ?case by (auto simp: exited_def dest!: SendMessage_acts)
next
  case (st_add_action name f delay desc fis s s')
  then show ?case by (auto simp: exited_def nth_append dest!: AddAction_acts)
next
  case (st_message s m ms)
  then show ?case by (simp add: exited_loop_message)
next
  case (st_fire s b as)
  then show ?case by (auto simp: fire_action_def exited_def Let_def split: option.split)
next
  case (st_enter s)
  then show ?case by (simp add: enter_state_def exited_def split: option.split)
qed (auto simp: exited_def op_defs SetName_def RegisterState_def nth_acts_upd)

lemma exited_forever: "sm_step\<^sup>*\<^sup>* s s' \<Longrightarrow> act_inv s \<Longrightarrow> exited a s \<Longrightarrow> exited a s' \<and> act_inv s'"
  by (induction rule: rtranclp_induct) (auto intro: exited_step sm_step_act_inv)

text \<open>
  C1. In every reachable state, every fired action that names a state was fired while that was the
  name of the machine's current state.
\<close>

theorem fired_in_required_state:
  assumes "sm_reach s" "EvFire f fis cur \<in> set (sm_trace s)"
  shows "fis = [] \<or> cur = Some fis"
  using reach_trace_inv [OF assms(1)] assms(2) by (auto simp: trace_inv_def fired_ok_def list_all_iff)

lemma fired_in_required_state_witness:
  "\<exists>s :: (nat, nat, nat) sm. sm_reach s \<and> EvFire 5 ''A'' (Some ''A'') \<in> set (sm_trace s)
     \<and> (''A'' = [] \<or> Some ''A'' = Some ''A'')"
proof -
  obtain s where s: "exec_ops demo_fire (NewStateMachine ''m'') = Some s"
      "EvFire 5 ''A'' (Some ''A'') \<in> set (sm_trace s)"
    using demo_fire_run by fastforce
  then show ?thesis using fired_in_required_state [OF exec_reach [OF s(1)] s(2)] exec_reach by blast
qed

text \<open>
  C13. Between two turns of the loop the recorded callbacks replay to the current state: the first
  state is entered without a leave, and every later change is one \<open>Leave\<close> of the current state's
  handler, seeing the next state, followed by one \<open>Enter\<close> of that next state that sees the state left
  as the previous one; no action fires in between.
\<close>

theorem callbacks_replay:
  assumes "sm_reach s" "sm_loop s = LSelect"
  shows "replay (sm_trace s) = Some (sm_StateCurr s, None)"
  using reach_trace_inv [OF assms(1)] assms(2) by (simp add: trace_inv_def)

lemma callbacks_replay_witness:
  "\<exists>s :: (nat, nat, nat) sm. sm_reach s \<and> sm_loop s = LSelect \<and> length (sm_trace s) = 2
     \<and> replay (sm_trace s) = Some (Some 0, None)"
proof -
  obtain s where s: "exec_ops demo_fire (NewStateMachine ''m'') = Some s" "sm_loop s = LSelect"
      "length (sm_trace s) = 2" "sm_StateCurr s = Some 0"
    using demo_fire_run by fastforce
  then show ?thesis using callbacks_replay [OF exec_reach [OF s(1)] s(2)] exec_reach by metis
qed

text \<open>
  C20. \<open>ClearActions\<close> purges: when it is done, every listed action that is bound to a state has been
  told to exit, and its goroutine never sends it to the loop again, whatever happens later.
\<close>

theorem clear_actions_purges:
  assumes "sm_reach s" "sm_loop s = LClear []" "(k, a) \<in> set (sm_ActElems s)"
    "a_FireInState (sm_acts s ! a) \<noteq> []" "sm_step\<^sup>*\<^sup>* s s'"
  shows "a_pc (sm_acts s' ! a) = TGotExit \<or> a_pc (sm_acts s' ! a) = TDone"
proof -
  have inv: "act_inv s" using assms(1) by (rule reach_act_inv)
  have "a \<in> set (GetActions s)" using assms(3) by (force simp: GetActions_def)
  then have "exited a s"
    using inv assms(2,4) set_GetActions [OF inv] by (auto simp: act_inv_def clear_ok_def purged_def exited_def)
  with inv assms(5) show ?thesis using exited_forever exited_def by blast
qed

lemma clear_actions_purges_witness:
  "\<exists>s :: (nat, nat, nat) sm. sm_reach s \<and> sm_loop s = LClear [] \<and> (''x'', 0) \<in> set (sm_ActElems s)
     \<and> (a_pc (sm_acts s ! 0) = TGotExit \<or> a_pc (sm_acts s ! 0) = TDone)"
proof -
  obtain s where s: "exec_ops demo_purge (NewStateMachine ''m'') = Some s" "sm_loop s = LClear []"
      "(''x'', 0) \<in> set (sm_ActElems s)" "a_FireInState (sm_acts s ! 0) \<noteq> []"
    using demo_purge_run by fastforce
  then show ?thesis using clear_actions_purges [OF exec_reach [OF s(1)] s(2-4), of s] exec_reach by blast
qed

text \<open>
  \<open>ClearActions\<close> can block the machine for good: there is a reachable state in which the loop
  waits, with the mutex, for a goroutine that has taken its tick and waits for the mutex; no schedule
  leaves that wait, and the messages sent since stay queued.
\<close>

theorem clear_actions_deadlock:
  "\<exists>s :: (nat, nat, nat) sm. sm_reach s \<and> sm_msgCtrl s \<noteq> []
     \<and> (\<forall>s'. sm_step\<^sup>*\<^sup>* s s' \<longrightarrow> sm_loop s' = LStop 0 [] \<and> (\<exists>q. sm_msgCtrl s' = sm_msgCtrl s @ q))"
proof -
  obtain s :: "(nat, nat, nat) sm" where s: "exec_ops demo_deadlock (NewStateMachine ''m'') = Some s"
      "stuck_in_clear 0 [] s" "sm_msgCtrl s \<noteq> []"
    using demo_deadlock_run unfolding stuck_in_clear_def by blast
  have "sm_loop s' = LStop 0 [] \<and> (\<exists>q. sm_msgCtrl s' = sm_msgCtrl s @ q)" if "sm_step\<^sup>*\<^sup>* s s'" for s'
    using stuck_forever [OF that s(2)] by (simp add: stuck_in_clear_def)
  with s show ?thesis using exec_reach by blast
qed

lemma clear_actions_deadlock_witness:
  "\<exists>s :: (nat, nat, nat) sm. sm_reach s \<and> sm_loop s = LStop 0 []"
  using clear_actions_deadlock by blast

text \<open>
  C15. An action is found under its identifier exactly while its goroutine has not deleted it, so at
  most one goroutine per identifier is waiting, and both channels stay within their capacity.
\<close>

theorem actions_listed_iff_live:
  assumes "sm_reach s"
  shows "(FindAction s k = Some a \<longleftrightarrow> a < length (sm_acts s) \<and> a_ID (sm_acts s ! a) = k
           \<and> a_pc (sm_acts s ! a) \<in> {TWait, TGotTick, TGotExit})
         \<and> length (sm_msgCtrl s) \<le> 8 \<and> length (sm_actCtrl s) \<le> 8"
proof -
  have "acts_ok (sm_acts s) (sm_ActElems s)"
    using reach_act_inv [OF assms] by (simp add: act_inv_def)
  from acts_okD(1) [OF this, of k a] reach_state_inv [OF assms] show ?thesis
    by (simp add: FindAction_def live_pc_def state_inv_def chan_cap_def del: map_of_eq_Some_iff)
qed

lemma actions_listed_iff_live_witness:
  "\<exists>s :: (nat, nat, nat) sm. sm_reach s \<and> FindAction s ''x'' = Some 0
     \<and> a_pc (sm_acts s ! 0) \<in> {TWait, TGotTick, TGotExit}"
proof -
  obtain s where s: "exec_ops demo_purge (NewStateMachine ''m'') = Some s" "sm_ActElems s = [(''x'', 0)]"
    using demo_purge_run by fastforce
  then have "FindAction s ''x'' = Some 0" by (simp add: FindAction_def)
  with actions_listed_iff_live [OF exec_reach [OF s(1)]] show ?thesis using exec_reach [OF s(1)] by blast
qed

end
