(* ===== verification/SMProgress.thy ===== *)
theory SMProgress
  imports StateMachine
begin

text \<open>
  Progress of the loop of a state machine in \<open>ClearActions\<close>: exactly when it can come back to its messages.
\<close>

section \<open>What \<open>ClearActions\<close> still has to stop\<close>

definition bound_action :: "('p, 'h, 'f) sm \<Rightarrow> nat \<Rightarrow> bool" where
  "bound_action s a \<longleftrightarrow> a_FireInState (sm_acts s ! a) \<noteq> []"

definition clear_targets :: "('p, 'h, 'f) sm \<Rightarrow> nat list" where
  "clear_targets s =
     (case sm_loop s of
        LSelect \<Rightarrow> []
      | LClear xs \<Rightarrow> filter (bound_action s) xs
      | LStop a xs \<Rightarrow> a # filter (bound_action s) xs)"

text \<open>No action is stopped twice, as the list has every action once.\<close>

definition clear_distinct :: "('p, 'h, 'f) sm \<Rightarrow> bool" where
  "clear_distinct s = (case sm_loop s of LSelect \<Rightarrow> True | LClear xs \<Rightarrow> distinct xs | LStop a xs \<Rightarrow> distinct (a # xs))"

lemma acts_ok_distinct: "acts_ok acts l \<Longrightarrow> distinct (map snd l)"
proof -
  assume ok: "acts_ok acts l"
  then have d: "distinct (map fst l)" by (simp add: acts_ok_def)
  have "fst p = a_ID (acts ! snd p)" if "p \<in> set l" for p
  proof -
    have "map_of l (fst p) = Some (snd p)" using that d by simp
    with ok show ?thesis by (auto simp: acts_ok_def)
  qed
  then have "inj_on snd (set l)" by (intro inj_onI) (metis prod.collapse)
  with d show ?thesis by (simp add: distinct_map)
qed

lemma loop_onStateMessage:
  "sm_loop (onStateMessage m s) = sm_loop s \<or> sm_loop (onStateMessage m s) = LClear (map snd (sm_ActElems s))"
  by (auto simp: onStateMessage_def GetActions_def Let_def split: msg_data.split option.split)

lemma loop_onAddActionMessage: "sm_loop (onAddActionMessage m s) = sm_loop s"
  by (simp add: onAddActionMessage_def Let_def split: msg_data.split option.split)

lemma sm_step_clear_distinct: "sm_step s s' \<Longrightarrow> act_inv s \<Longrightarrow> clear_distinct s \<Longrightarrow> clear_distinct s'"
proof (induction rule: sm_step.induct)
  case (st_message s m ms)
  have "distinct (map snd (sm_ActElems s))" using st_message.prems(1) acts_ok_distinct [of "sm_acts s" "sm_ActElems s"] by (simp add: act_inv_def)
  with loop_onStateMessage [of m "s\<lparr>sm_msgCtrl := ms\<rparr>"] loop_onAddActionMessage [of m "s\<lparr>sm_msgCtrl := ms\<rparr>"] st_message.hyps(1)
  show ?case by (auto simp: clear_distinct_def loop_message_def split: message_type.split)
next
  case (st_set_state name priv s s')
  then show ?case by (auto simp: SetState_def clear_distinct_def dest!: SendMessage_acts)
next
  case (st_send d t s s')
  then show ?case by (auto simp: clear_distinct_def dest!: SendMessage_acts)
next
  case (st_add_action name f delay desc fis s s')
  then show ?case by (auto simp: clear_distinct_def dest!: AddAction_acts)
next
  case (st_enter s)
  then show ?case by (simp add: clear_distinct_def enter_state_def split: option.split)
next
  case (st_fire s a as)
  then show ?case by (simp add: clear_distinct_def fire_action_def Let_def split: option.split)
qed (auto simp: clear_distinct_def SetName_def RegisterState_def Stop_begin_def set_pc_def thread_delete_def clear_one_def)

lemma reach_clear_distinct: "sm_reach s \<Longrightarrow> clear_distinct s"
proof (induction rule: sm_reach.induct)
  case (reach_new name)
  show ?case by (simp add: clear_distinct_def NewStateMachine_def)
next
  case (reach_step s s')
  with sm_step_clear_distinct reach_act_inv show ?case by blast
qed

section \<open>A target whose goroutine has left its \<open>select\<close>\<close>

definition blocks_clear :: "nat \<Rightarrow> ('p, 'h, 'f) sm \<Rightarrow> bool" where
  "blocks_clear b s \<longleftrightarrow> b \<in> set (clear_targets s) \<and> b < length (sm_acts s)
     \<and> (a_pc (sm_acts s ! b) = TGotTick \<or> a_pc (sm_acts s ! b) = TGotExit)"

lemma blocks_clear_step: "sm_step s s' \<Longrightarrow> blocks_clear b s \<Longrightarrow> blocks_clear b s'"
proof (induction rule: sm_step.induct)
  case (st_set_state name priv s s')
  then show ?case
    by (auto simp: SetState_def blocks_clear_def clear_targets_def bound_action_def split: loop_pc.splits dest!: SendMessage_acts)
next
  case (st_send d t s s')
  then show ?case
    by (auto simp: blocks_clear_def clear_targets_def bound_action_def split: loop_pc.splits dest!: SendMessage_acts)
next
  case (st_add_action name f delay desc fis s s')
  then show ?case
    by (auto simp: blocks_clear_def clear_targets_def bound_action_def nth_append split: loop_pc.splits dest!: AddAction_acts)
next
  case (st_clear s xs a ys)
  then show ?case
    by (auto simp: blocks_clear_def clear_targets_def bound_action_def clear_one_def nth_acts_upd)
qed (auto simp: blocks_clear_def clear_targets_def bound_action_def SetName_def RegisterState_def Stop_begin_def set_pc_def
    thread_delete_def nth_acts_upd split: loop_pc.splits if_splits)

lemma blocks_clear_forever: "sm_step\<^sup>*\<^sup>* s s' \<Longrightarrow> blocks_clear b s \<Longrightarrow> blocks_clear b s'"
  by (induction rule: rtranclp_induct) (auto intro: blocks_clear_step)

section \<open>The way through\<close>

lemma enter_loop: "sm_loop (enter_state s) = LSelect"
  by (simp add: enter_state_def split: option.split)

lemma clear_through:
  assumes "sm_loop s = LClear xs" "distinct xs"
    and "\<forall>a \<in> set xs. a < length (sm_acts s) \<and> (bound_action s a \<longrightarrow> a_pc (sm_acts s ! a) = TWait)"
  shows "\<exists>s'. sm_step\<^sup>*\<^sup>* s s' \<and> sm_loop s' = LSelect"
  using assms
proof (induction xs arbitrary: s)
  case Nil
  then show ?case using st_enter [of s] enter_loop by blast
next
  case (Cons a xs)
  let ?s1 = "clear_one a xs s"
  have step1: "sm_step s ?s1" using st_clear [of s "[]" a xs] Cons.prems(1) by simp
  obtain s2 where s2: "sm_step\<^sup>*\<^sup>* ?s1 s2" "sm_loop s2 = LClear xs" "length (sm_acts s2) = length (sm_acts s)"
    "\<forall>b. b \<noteq> a \<longrightarrow> sm_acts s2 ! b = sm_acts s ! b"
  proof (cases "bound_action s a")
    case False
    then have "sm_loop ?s1 = LClear xs" "sm_acts ?s1 = sm_acts s" by (simp_all add: clear_one_def bound_action_def)
    with that [of ?s1] show ?thesis by simp
  next
    case True
    let ?s2 = "(set_pc a TGotExit ?s1)\<lparr>sm_loop := LClear xs\<rparr>"
    have a: "a < length (sm_acts s)" "a_pc (sm_acts s ! a) = TWait" using Cons.prems(3) True by simp_all
    have l: "sm_loop ?s1 = LStop a xs" using True by (simp add: clear_one_def bound_action_def)
    have "a < length (sm_acts ?s1)" "a_pc (sm_acts ?s1 ! a) = TWait"
      using a True by (simp_all add: clear_one_def bound_action_def nth_acts_upd)
    from st_exit_loop [OF this l] have "sm_step\<^sup>*\<^sup>* ?s1 ?s2" by blast
    moreover have "length (sm_acts ?s2) = length (sm_acts s)" "\<forall>b. b \<noteq> a \<longrightarrow> sm_acts ?s2 ! b = sm_acts s ! b"
      by (simp_all add: clear_one_def set_pc_def nth_acts_upd)
    ultimately show ?thesis using that [of ?s2] by simp
  qed
  have "a \<notin> set xs" using Cons.prems(2) by simp
  then have "\<forall>b \<in> set xs. b < length (sm_acts s2) \<and> (bound_action s2 b \<longrightarrow> a_pc (sm_acts s2 ! b) = TWait)"
    using Cons.prems(3) s2(3,4) by (metis bound_action_def list.set_intros(2))
  with Cons.IH [OF s2(2)] Cons.prems(2) obtain s' where "sm_step\<^sup>*\<^sup>* s2 s'" "sm_loop s' = LSelect" by auto
  with step1 s2(1) show ?case by (meson converse_rtranclp_into_rtranclp rtranclp_trans)
qed

text \<open>
  C10. While \<open>ClearActions\<close> runs, the loop can come back to its messages exactly when the goroutine of every action it still has to
  stop waits in its \<open>select\<close>. One that has taken its tick, or the \<open>Exit\<close> of another caller of \<open>Stop\<close>, waits for the
  mutex the loop holds, and the loop waits for it for ever.
\<close>

theorem clear_completes_iff:
  assumes "sm_reach s" "sm_loop s \<noteq> LSelect"
  shows "(\<exists>s'. sm_step\<^sup>*\<^sup>* s s' \<and> sm_loop s' = LSelect) \<longleftrightarrow> list_all (\<lambda>a. a_pc (sm_acts s ! a) = TWait) (clear_targets s)"
proof
  have inv: "clear_ok (sm_acts s) (sm_loop s)" "clear_distinct s"
    using reach_act_inv [OF assms(1)] reach_clear_distinct [OF assms(1)] by (simp_all add: act_inv_def)
  {
    assume "\<exists>s'. sm_step\<^sup>*\<^sup>* s s' \<and> sm_loop s' = LSelect"
    then obtain s' where s': "sm_step\<^sup>*\<^sup>* s s'" "sm_loop s' = LSelect" by blast
    have "a_pc (sm_acts s ! b) = TWait" if b: "b \<in> set (clear_targets s)" for b
    proof (rule ccontr)
      assume "a_pc (sm_acts s ! b) \<noteq> TWait"
      moreover have "b < length (sm_acts s) \<and> live_pc (a_pc (sm_acts s ! b))"
        using inv(1) b by (auto simp: clear_targets_def clear_ok_def split: loop_pc.splits)
      ultimately have "blocks_clear b s" using b by (auto simp: blocks_clear_def live_pc_def)
      from blocks_clear_forever [OF s'(1) this] s'(2) show False by (simp add: blocks_clear_def clear_targets_def)
    qed
    then show "list_all (\<lambda>a. a_pc (sm_acts s ! a) = TWait) (clear_targets s)" by (simp add: list_all_iff)
  next
    assume wait: "list_all (\<lambda>a. a_pc (sm_acts s ! a) = TWait) (clear_targets s)"
    show "\<exists>s'. sm_step\<^sup>*\<^sup>* s s' \<and> sm_loop s' = LSelect"
    proof (cases "sm_loop s")
      case (LClear xs)
      with inv wait show ?thesis
        by (intro clear_through) (auto simp: clear_ok_def clear_distinct_def clear_targets_def list_all_iff)
    next
      case (LStop a xs)
      let ?s = "(set_pc a TGotExit s)\<lparr>sm_loop := LClear xs\<rparr>"
      have a: "a < length (sm_acts s)" "a_pc (sm_acts s ! a) = TWait"
        using inv(1) wait LStop by (simp_all add: clear_ok_def clear_targets_def)
      have "distinct (a # xs)" using inv(2) LStop by (simp add: clear_distinct_def)
      moreover from this have "sm_acts ?s ! b = sm_acts s ! b" if "b \<in> set xs" for b
        using that by (auto simp: set_pc_def nth_acts_upd)
      ultimately have "\<exists>s'. sm_step\<^sup>*\<^sup>* ?s s' \<and> sm_loop s' = LSelect"
        using inv(1) wait LStop
        by (intro clear_through) (auto simp: clear_ok_def clear_targets_def list_all_iff bound_action_def set_pc_def)
      with st_exit_loop [OF a LStop] show ?thesis by (meson converse_rtranclp_into_rtranclp)
    qed (use assms(2) in simp)
  }
qed

text \<open>Two machines that clear one action: its goroutine waits in one, and has taken its tick in the other.\<close>

definition demo_clearing :: "(nat, nat, nat) sm_op list" where
  "demo_clearing = [OpRegister ''A'' 7, OpRegister ''B'' 8, OpSetState ''A'' 0, OpMessage, OpEnter,
     OpAddAction ''x'' 5 9 ''A'', OpMessage, OpSetState ''B'' 1, OpMessage, OpClear]"

theorem clear_completes_iff_witness:
  "(\<exists>s s'. exec_ops demo_clearing (NewStateMachine ''m'') = Some s \<and> sm_step\<^sup>*\<^sup>* s s' \<and> sm_loop s' = LSelect)
   \<and> (\<exists>s. exec_ops demo_deadlock (NewStateMachine ''m'') = Some s \<and> \<not> (\<exists>s'. sm_step\<^sup>*\<^sup>* s s' \<and> sm_loop s' = LSelect))"
proof
  obtain s :: "(nat, nat, nat) sm" where s: "exec_ops demo_clearing (NewStateMachine ''m'') = Some s"
    "sm_loop s = LStop 0 []" "a_pc (sm_acts s ! 0) = TWait"
    by (simp add: demo_clearing_def exec_simps)
  with clear_completes_iff [OF exec_reach [OF s(1)]]
  show "\<exists>s s'. exec_ops demo_clearing (NewStateMachine ''m'') = Some s \<and> sm_step\<^sup>*\<^sup>* s s' \<and> sm_loop s' = LSelect"
    by (auto simp: clear_targets_def)
next
  obtain s :: "(nat, nat, nat) sm" where s: "exec_ops demo_deadlock (NewStateMachine ''m'') = Some s"
    "sm_loop s = LStop 0 []" "a_pc (sm_acts s ! 0) = TGotTick"
    using demo_deadlock_run by blast
  with clear_completes_iff [OF exec_reach [OF s(1)]]
  show "\<exists>s. exec_ops demo_deadlock (NewStateMachine ''m'') = Some s \<and> \<not> (\<exists>s'. sm_step\<^sup>*\<^sup>* s s' \<and> sm_loop s' = LSelect)"
    by (auto simp: clear_targets_def)
qed

end
