(* ===== verification/IOPump.thy ===== *)
theory IOPump
  imports GoPrelude "HOL-Library.Monad_Syntax"
begin

text \<open>
  \<open>iohelper/filter\<close>, \<open>iohelper/source\<close>, \<open>iohelper/sink\<close> and \<open>iohelper/pump\<close>: a source reads chunks from an
  \<open>io.Reader\<close> and passes them through its filters, a sink passes what it is given through its own
  filters to an \<open>io.Writer\<close>, and the pump moves data from one to the other until the end of file. The
  reader, the writer and the \<open>Process\<close> method of the filters are arguments of the operations, as they
  are interfaces in the code; the filters of the package, \<open>bytes.Reader\<close> (as a case of a reader that
  delivers chunks) and \<open>bytes.Buffer\<close> are defined here.
\<close>

unbundle bit_operations_syntax

section \<open>Slices and errors\<close>

type_synonym byte = "8 word"

text \<open>
  What a \<open>[]byte\<close> in a filter chain is: a part of the array the call was given, from an offset on and
  with that array's capacity, or a slice of another array. Either way with its octets.
\<close>

datatype slice = Orig nat "byte list" | Fresh "byte list"

fun slice_bytes :: "slice \<Rightarrow> byte list" where
  "slice_bytes (Orig off bs) = bs"
| "slice_bytes (Fresh bs) = bs"

text \<open>
  \<open>helper.SameSliceBackend\<close> on slices of octets: the addresses one past the capacity agree. A slice
  header is an address, a length and a capacity; \<open>None\<close> is nil.
\<close>

type_synonym slice_header = "(int \<times> nat \<times> nat) option"

definition SameSliceBackend :: "slice_header \<Rightarrow> slice_header \<Rightarrow> bool" where
  "SameSliceBackend a b =
     (case (a, b) of
        (Some (p1, l1, c1), Some (p2, l2, c2)) \<Rightarrow> p1 + int c1 = p2 + int c2
      | _ \<Rightarrow> False)"

text \<open>The header of \<open>s[lo:hi]\<close>.\<close>

definition reslice :: "nat \<Rightarrow> nat \<Rightarrow> slice_header \<Rightarrow> slice_header" where
  "reslice lo hi s = map_option (\<lambda>(p, l, c). (p + int lo, hi - lo, c - lo)) s"

lemma SameSliceBackend_reslice:
  "lo \<le> hi \<Longrightarrow> hi \<le> c \<Longrightarrow> SameSliceBackend (Some (p, l, c)) (reslice lo hi (Some (p, l, c)))"
  by (simp add: SameSliceBackend_def reslice_def)

lemma SameSliceBackend_disjoint:
  "p1 + int c1 \<le> p2 \<Longrightarrow> 0 < c2 \<Longrightarrow> \<not> SameSliceBackend (Some (p1, l1, c1)) (Some (p2, l2, c2))"
  by (simp add: SameSliceBackend_def)

datatype ioerr = EOF | DataModifiedNotInPlace | EOFDataModifiedNotInPlace | FilterNotEOF | IOError string

type_synonym 'f process = "'f \<Rightarrow> slice \<Rightarrow> bool \<Rightarrow> slice \<times> ioerr option \<times> 'f"
type_synonym 'r reader = "'r \<Rightarrow> nat \<Rightarrow> byte list \<times> ioerr option \<times> 'r"
type_synonym 'w writer = "'w \<Rightarrow> byte list \<Rightarrow> nat \<times> ioerr option \<times> 'w"

section \<open>Filters\<close>

text \<open>
  A \<open>hash.Hash\<close> is the octets written to it; its sum is a function of them, an argument of the model.
\<close>

definition hex_nibble :: "byte \<Rightarrow> byte" where
  "hex_nibble n = (if n < 10 then 48 + n else 87 + n)"

definition hex_encode :: "byte list \<Rightarrow> byte list" where
  "hex_encode bs = concat (map (\<lambda>b. [hex_nibble (drop_bit 4 b), hex_nibble (b AND 15)]) bs)"

lemma hex_encode_simps [simp]:
  "hex_encode [] = []" "hex_encode (xs @ ys) = hex_encode xs @ hex_encode ys"
  "length (hex_encode xs) = 2 * length xs" "hex_encode xs = [] \<longleftrightarrow> xs = []"
  by (induction xs) (simp_all add: hex_encode_def)

datatype go_filter = HashFilter (on_the_fly: bool) (written: "byte list") | ToHex

definition NewHash :: "bool \<Rightarrow> go_filter" where
  "NewHash onTheFly = HashFilter onTheFly []"

fun filter_Process :: "(byte list \<Rightarrow> byte list) \<Rightarrow> go_filter process" where
  "filter_Process dig (HashFilter fly w) p eof =
     (let err = (if eof then Some EOF else None) in
      if fly then (p, err, HashFilter fly (if slice_bytes p \<noteq> [] then w @ slice_bytes p else w))
      else if eof then (Fresh (dig w), err, HashFilter fly w)
      else (Fresh [], None, HashFilter fly (w @ slice_bytes p)))"
| "filter_Process dig ToHex p eof =
     (Fresh (hex_encode (slice_bytes p)), if eof then Some EOF else None, ToHex)"

section \<open>Sources\<close>

record ('r, 'f) source =
  src_reader :: 'r
  src_filters :: "'f list"
  src_Name :: string
  src_DataFilterOutput :: "byte list"

definition source_New :: "'r \<Rightarrow> ('r, 'f) source" where
  "source_New r = \<lparr>src_reader = r, src_filters = [], src_Name = [], src_DataFilterOutput = []\<rparr>"

definition source_Chain :: "'f list \<Rightarrow> ('r, 'f) source \<Rightarrow> ('r, 'f) source" where
  "source_Chain fs src = src\<lparr>src_filters := src_filters src @ fs\<rparr>"

text \<open>The loop over the filters: it returns early with a count and an error, or ends with data.\<close>

datatype chain_result = Stop nat "ioerr option" | Through slice "ioerr option"

fun run_filters :: "'f process \<Rightarrow> bool \<Rightarrow> 'f list \<Rightarrow> slice \<Rightarrow> ioerr option \<Rightarrow> chain_result \<times> 'f list" where
  "run_filters proc rEOF [] data err = (Through data err, [])"
| "run_filters proc rEOF (f # fs) data err =
     (case proc f data rEOF of (data', err', f') \<Rightarrow>
        let n = length (slice_bytes data') in
        if err' \<noteq> None \<and> err' \<noteq> Some EOF then (Stop n err', f' # fs)
        else if n = 0 \<and> err' = None then (Stop 0 (if rEOF then Some FilterNotEOF else None), f' # fs)
        else (case run_filters proc rEOF fs data' err' of (res, fs') \<Rightarrow> (res, f' # fs')))"

text \<open>
  \<open>Read\<close> with a buffer of \<open>k\<close> octets. The result holds the count, the first octets of the buffer that
  the call has put there, and the error; the error of the reader is overwritten by the filters'.
\<close>

record read_result =
  rr_n :: nat
  rr_data :: "byte list"
  rr_err :: "ioerr option"

definition source_Read ::
    "'f process \<Rightarrow> 'r reader \<Rightarrow> nat \<Rightarrow> ('r, 'f) source \<Rightarrow> read_result \<times> ('r, 'f) source" where
  "source_Read proc rd k src =
     (case rd (src_reader src) k of (bs, err, r') \<Rightarrow>
        if src_filters src = []
        then (\<lparr>rr_n = length bs, rr_data = bs, rr_err = err\<rparr>, src\<lparr>src_reader := r'\<rparr>)
        else
          let rEOF = (err = Some EOF) in
          case run_filters proc rEOF (src_filters src) (Orig 0 bs) err of (res, fs') \<Rightarrow>
            let src1 = src\<lparr>src_reader := r', src_filters := fs', src_DataFilterOutput := []\<rparr> in
            case res of
              Stop n err' \<Rightarrow> (\<lparr>rr_n = n, rr_data = [], rr_err = err'\<rparr>, src1)
            | Through data err' \<Rightarrow>
                let n = length (slice_bytes data) in
                if n = 0 then (\<lparr>rr_n = 0, rr_data = [], rr_err = err'\<rparr>, src1)
                else (case data of
                        Orig off c \<Rightarrow>
                          (\<lparr>rr_n = n, rr_data = c, rr_err = (if rEOF then Some EOF else err')\<rparr>, src1)
                      | Fresh c \<Rightarrow>
                          (\<lparr>rr_n = n, rr_data = [],
                            rr_err = Some (if rEOF then EOFDataModifiedNotInPlace else DataModifiedNotInPlace)\<rparr>,
                           src1\<lparr>src_DataFilterOutput := c\<rparr>)))"

text \<open>
  \<open>Close\<close>: the reader and each filter may be closable, with the error closing them gives. The result
  is the error and the filter errors that are printed: the code tests \<open>err\<close>, not the filter's \<open>tmp\<close>.
\<close>

definition source_Close :: "ioerr option option \<Rightarrow> ioerr option option list \<Rightarrow> ioerr option \<times> ioerr option list" where
  "source_Close rc fcs =
     (let err = (case rc of None \<Rightarrow> None | Some e \<Rightarrow> e)
      in (err, if err \<noteq> None then map the (filter (\<lambda>c. c \<noteq> None) fcs) else []))"

section \<open>Sinks\<close>

record ('w, 'f) sink =
  snk_writer :: 'w
  snk_filters :: "'f list"
  snk_Name :: string

definition sink_New :: "'w \<Rightarrow> ('w, 'f) sink" where
  "sink_New w = \<lparr>snk_writer = w, snk_filters = [], snk_Name = []\<rparr>"

definition sink_Chain :: "'f list \<Rightarrow> ('w, 'f) sink \<Rightarrow> ('w, 'f) sink" where
  "sink_Chain fs snk = snk\<lparr>snk_filters := snk_filters snk @ fs\<rparr>"

fun run_sink_filters :: "'f process \<Rightarrow> 'f list \<Rightarrow> slice \<Rightarrow> chain_result \<times> 'f list" where
  "run_sink_filters proc [] out = (Through out None, [])"
| "run_sink_filters proc (f # fs) out =
     (case proc f out False of (out', err, f') \<Rightarrow>
        if err \<noteq> None then (Stop (length (slice_bytes out')) err, f' # fs)
        else (case run_sink_filters proc fs out' of (res, fs') \<Rightarrow> (res, f' # fs')))"

definition sink_Write ::
    "'f process \<Rightarrow> 'w writer \<Rightarrow> byte list \<Rightarrow> ('w, 'f) sink \<Rightarrow> (nat \<times> ioerr option) \<times> ('w, 'f) sink" where
  "sink_Write proc wr p snk =
     (if p = [] then ((0, None), snk)
      else case run_sink_filters proc (snk_filters snk) (Orig 0 p) of (res, fs') \<Rightarrow>
        (case res of
           Stop n err \<Rightarrow> ((n, err), snk\<lparr>snk_filters := fs'\<rparr>)
         | Through out err0 \<Rightarrow>
             (case wr (snk_writer snk) (slice_bytes out) of (n, err, w') \<Rightarrow>
                let same = (case out of Orig off c \<Rightarrow> off = 0 \<and> length c = length p | Fresh c \<Rightarrow> False)
                in ((if same then n else length p, err), snk\<lparr>snk_filters := fs', snk_writer := w'\<rparr>))))"

text \<open>\<open>Close\<close>: the filters first; no error has been set when the code tests \<open>err\<close>, so none is printed.\<close>

definition sink_Close :: "ioerr option option \<Rightarrow> ioerr option option list \<Rightarrow> ioerr option \<times> ioerr option list" where
  "sink_Close wc fcs = ((case wc of None \<Rightarrow> None | Some e \<Rightarrow> e), [])"

section \<open>The pump\<close>

definition buffer_size :: nat where "buffer_size = 8192"

text \<open>
  \<open>Step\<close>. Where the error is none of the two markers the code takes \<open>(*bufp)[:n]\<close>, which panics when a
  filter that failed has returned more than the buffer holds.
\<close>

definition pump_Step ::
    "'f process \<Rightarrow> 'r reader \<Rightarrow> 'g process \<Rightarrow> 'w writer \<Rightarrow> nat \<Rightarrow> ('r, 'f) source \<times> ('w, 'g) sink \<Rightarrow>
     ((nat \<times> ioerr option) \<times> ('r, 'f) source \<times> ('w, 'g) sink) outcome" where
  "pump_Step proc rd sproc wr k st =
     (case st of (src, snk) \<Rightarrow>
      case source_Read proc rd k src of (rr, src') \<Rightarrow>
        let moved = (rr_err rr = Some DataModifiedNotInPlace \<or> rr_err rr = Some EOFDataModifiedNotInPlace);
            toWrite = (if moved then src_DataFilterOutput src' else rr_data rr);
            err = (if rr_err rr = Some DataModifiedNotInPlace then None
                   else if rr_err rr = Some EOFDataModifiedNotInPlace then Some EOF else rr_err rr)
        in if \<not> moved \<and> k < rr_n rr then Panics
           else if err = Some EOF then
             (if rr_n rr > 0 then
                (case sink_Write sproc wr toWrite snk of ((n, werr), snk') \<Rightarrow>
                   Returns ((n, if werr \<noteq> None then werr else Some EOF), src', snk'))
              else Returns ((rr_n rr, Some EOF), src', snk))
           else if err \<noteq> None then Returns ((rr_n rr, err), src', snk)
           else (case sink_Write sproc wr toWrite snk of (res, snk') \<Rightarrow> Returns (res, src', snk')))"

text \<open>
  \<open>All\<close>: the loop may never return, which is the value \<open>None\<close>. Closing changes neither the source nor
  the sink of the model; the last component says whether it happens.
\<close>

partial_function (option) pump_loop ::
    "'f process \<Rightarrow> 'r reader \<Rightarrow> 'g process \<Rightarrow> 'w writer \<Rightarrow> nat \<Rightarrow> nat \<Rightarrow> ('r, 'f) source \<times> ('w, 'g) sink \<Rightarrow>
     ((nat \<times> ioerr option) \<times> ('r, 'f) source \<times> ('w, 'g) sink) outcome option" where
  "pump_loop proc rd sproc wr k acc st =
     (case pump_Step proc rd sproc wr k st of
        Panics \<Rightarrow> Some Panics
      | Returns ((n, err), st') \<Rightarrow>
          if err \<noteq> None
          then Some (Returns ((acc + n, if err = Some EOF then None else err), st'))
          else pump_loop proc rd sproc wr k (acc + n) st')"

definition pump_All ::
    "'f process \<Rightarrow> 'r reader \<Rightarrow> 'g process \<Rightarrow> 'w writer \<Rightarrow> ('r, 'f) source \<Rightarrow> ('w, 'g) sink \<Rightarrow>
     ((nat \<times> ioerr option) \<times> ('r, 'f) source \<times> ('w, 'g) sink) outcome option" where
  "pump_All proc rd sproc wr src snk = pump_loop proc rd sproc wr buffer_size 0 (src, snk)"

section \<open>Readers and writers\<close>

text \<open>
  A reader that has a list of chunks to deliver and then an error for ever; the last chunk may come
  together with the error, which \<open>io.Reader\<close> allows. A chunk that exceeds the buffer is split.
  \<open>bytes.Reader\<close> is the case of one chunk and the end of file.
\<close>

record chunk_reader =
  cr_chunks :: "byte list list"
  cr_end :: ioerr
  cr_with_last :: bool

fun chunk_read :: "chunk_reader reader" where
  "chunk_read r k =
     (case cr_chunks r of
        [] \<Rightarrow> ([], Some (cr_end r), r)
      | c # cs \<Rightarrow>
          if length c \<le> k
          then (c, if cr_with_last r \<and> cs = [] then Some (cr_end r) else None, r\<lparr>cr_chunks := cs\<rparr>)
          else (take k c, None, r\<lparr>cr_chunks := drop k c # cs\<rparr>))"

declare chunk_read.simps [simp del]

definition bytes_NewReader :: "byte list \<Rightarrow> chunk_reader" where
  "bytes_NewReader p = \<lparr>cr_chunks = (if p = [] then [] else [p]), cr_end = EOF, cr_with_last = False\<rparr>"

definition buffer_write :: "byte list writer" where
  "buffer_write w p = (length p, None, w @ p)"

definition source_NewBytes :: "byte list \<Rightarrow> (chunk_reader, 'f) source" where
  "source_NewBytes p = source_New (bytes_NewReader p)"

definition sink_NewBuffer :: "(byte list, 'f) sink" where
  "sink_NewBuffer = sink_New []"


section \<open>What a chain of filters computes\<close>

text \<open>
  The contract of \<open>filter.Filter\<close>, with \<open>emit\<close>, \<open>upd\<close> for a chunk and \<open>final\<close>, \<open>fin\<close> for the last call:
  \<open>Process\<close> reports \<open>io.EOF\<close> exactly when it is told that no data follows, no other error, and what it
  returns in place is no longer than what it was given.
\<close>

locale stream_filter =
  fixes proc :: "'f process"
    and emit :: "'f \<Rightarrow> byte list \<Rightarrow> byte list" and upd :: "'f \<Rightarrow> byte list \<Rightarrow> 'f"
    and final :: "'f \<Rightarrow> byte list \<Rightarrow> byte list" and fin :: "'f \<Rightarrow> byte list \<Rightarrow> 'f"
  assumes process_data:
    "\<exists>d. proc f p False = (d, None, upd f (slice_bytes p)) \<and> slice_bytes d = emit f (slice_bytes p)"
    and process_eof:
    "\<exists>d. proc f p True = (d, Some EOF, fin f (slice_bytes p)) \<and> slice_bytes d = final f (slice_bytes p)"
    and process_in_place:
    "fst (proc f p eof) = Orig off c \<Longrightarrow> \<exists>off' c'. p = Orig off' c' \<and> length c \<le> length c'"

fun chain_emit :: "('f \<Rightarrow> byte list \<Rightarrow> byte list) \<Rightarrow> 'f list \<Rightarrow> byte list \<Rightarrow> byte list" where
  "chain_emit emit [] c = c"
| "chain_emit emit (f # fs) c = (if emit f c = [] then [] else chain_emit emit fs (emit f c))"

fun chain_upd :: "('f \<Rightarrow> byte list \<Rightarrow> byte list) \<Rightarrow> ('f \<Rightarrow> byte list \<Rightarrow> 'f) \<Rightarrow> 'f list \<Rightarrow> byte list \<Rightarrow> 'f list" where
  "chain_upd emit upd [] c = []"
| "chain_upd emit upd (f # fs) c = upd f c # (if emit f c = [] then fs else chain_upd emit upd fs (emit f c))"

text \<open>At the end of the file each filter is called, also with no data.\<close>

fun chain_final :: "('f \<Rightarrow> byte list \<Rightarrow> byte list) \<Rightarrow> 'f list \<Rightarrow> byte list \<Rightarrow> byte list" where
  "chain_final final [] c = c"
| "chain_final final (f # fs) c = chain_final final fs (final f c)"

fun chain_fin :: "('f \<Rightarrow> byte list \<Rightarrow> byte list) \<Rightarrow> ('f \<Rightarrow> byte list \<Rightarrow> 'f) \<Rightarrow> 'f list \<Rightarrow> byte list \<Rightarrow> 'f list" where
  "chain_fin final fin [] c = []"
| "chain_fin final fin (f # fs) c = fin f c # chain_fin final fin fs (final f c)"

text \<open>A sink passes an empty intermediate result on.\<close>

fun sink_emit :: "('f \<Rightarrow> byte list \<Rightarrow> byte list) \<Rightarrow> 'f list \<Rightarrow> byte list \<Rightarrow> byte list" where
  "sink_emit emit [] c = c"
| "sink_emit emit (f # fs) c = sink_emit emit fs (emit f c)"

fun sink_upd :: "('f \<Rightarrow> byte list \<Rightarrow> byte list) \<Rightarrow> ('f \<Rightarrow> byte list \<Rightarrow> 'f) \<Rightarrow> 'f list \<Rightarrow> byte list \<Rightarrow> 'f list" where
  "sink_upd emit upd [] c = []"
| "sink_upd emit upd (f # fs) c = upd f c # sink_upd emit upd fs (emit f c)"

lemma chain_upd_Nil [simp]: "chain_upd emit upd fs c = [] \<longleftrightarrow> fs = []"
  by (cases fs) auto

context stream_filter begin

lemma run_filters_in_place:
  "run_filters proc eof fs p err = (Through (Orig off c) e, fs') \<Longrightarrow>
   \<exists>off' c'. p = Orig off' c' \<and> length c \<le> length c'"
proof (induction fs arbitrary: p err fs')
  case (Cons f fs)
  obtain d e1 f' where d: "proc f p eof = (d, e1, f')" by (metis prod_cases3)
  with Cons.prems obtain fs1 where "run_filters proc eof fs d e1 = (Through (Orig off c) e, fs1)"
    by (auto simp: Let_def split: if_splits prod.splits)
  from Cons.IH [OF this] obtain off1 c1 where 1: "d = Orig off1 c1" "length c \<le> length c1" by blast
  with d process_in_place [of f p eof off1 c1] show ?case by auto
qed auto

lemma run_filters_data:
  "fs \<noteq> [] \<or> slice_bytes p \<noteq> [] \<Longrightarrow> chain_emit emit fs (slice_bytes p) \<noteq> [] \<Longrightarrow>
   \<exists>d. run_filters proc False fs p err = (Through d (if fs = [] then err else None), chain_upd emit upd fs (slice_bytes p))
     \<and> slice_bytes d = chain_emit emit fs (slice_bytes p)"
proof (induction fs arbitrary: p err)
  case (Cons f fs)
  obtain d where d: "proc f p False = (d, None, upd f (slice_bytes p))" "slice_bytes d = emit f (slice_bytes p)"
    using process_data by blast
  with Cons.prems have "emit f (slice_bytes p) \<noteq> []" by auto
  with Cons.IH [of d None] Cons.prems d show ?case by auto
qed simp

lemma run_filters_data_empty:
  "fs \<noteq> [] \<Longrightarrow> chain_emit emit fs (slice_bytes p) = [] \<Longrightarrow>
   run_filters proc False fs p err = (Stop 0 None, chain_upd emit upd fs (slice_bytes p))"
proof (induction fs arbitrary: p err)
  case (Cons f fs)
  obtain d where d: "proc f p False = (d, None, upd f (slice_bytes p))" "slice_bytes d = emit f (slice_bytes p)"
    using process_data by blast
  show ?case
  proof (cases "emit f (slice_bytes p) = []")
    case False
    with Cons.prems have "fs \<noteq> []" "chain_emit emit fs (slice_bytes d) = []" using d by auto
    from Cons.IH [OF this] d False show ?thesis by simp
  qed (use d in simp)
qed simp

lemma run_filters_eof:
  "\<exists>d. run_filters proc True fs p err = (Through d (if fs = [] then err else Some EOF), chain_fin final fin fs (slice_bytes p))
     \<and> slice_bytes d = chain_final final fs (slice_bytes p)"
proof (induction fs arbitrary: p err)
  case (Cons f fs)
  obtain d where d: "proc f p True = (d, Some EOF, fin f (slice_bytes p))" "slice_bytes d = final f (slice_bytes p)"
    using process_eof by blast
  with Cons.IH [of d "Some EOF"] show ?case by auto
qed simp

lemma run_sink_filters_spec:
  "\<exists>d. run_sink_filters proc fs p = (Through d None, sink_upd emit upd fs (slice_bytes p))
     \<and> slice_bytes d = sink_emit emit fs (slice_bytes p)"
proof (induction fs arbitrary: p)
  case (Cons f fs)
  obtain d where d: "proc f p False = (d, None, upd f (slice_bytes p))" "slice_bytes d = emit f (slice_bytes p)"
    using process_data by blast
  with Cons.IH [of d] show ?case by auto
qed simp

lemma sink_Write_spec:
  "p \<noteq> [] \<Longrightarrow> sink_Write proc buffer_write p snk =
     ((length p, None), snk\<lparr>snk_filters := sink_upd emit upd (snk_filters snk) p,
        snk_writer := snk_writer snk @ sink_emit emit (snk_filters snk) p\<rparr>)"
  using run_sink_filters_spec [of "snk_filters snk" "Orig 0 p"]
  by (auto simp: sink_Write_def buffer_write_def Let_def split: slice.split)

text \<open>A read step as the pump sees it: the octets it has to write, wherever they are.\<close>

lemma source_Read_data:
  assumes "rd (src_reader src) k = (bs, e, r')" "e \<noteq> Some EOF" "length bs \<le> k"
    "src_filters src = [] \<longrightarrow> e = None"
  shows "\<exists>rr src'. source_Read proc rd k src = (rr, src')
    \<and> src_reader src' = r' \<and> src_filters src' = chain_upd emit upd (src_filters src) bs
    \<and> rr_n rr = length (chain_emit emit (src_filters src) bs)
    \<and> (rr_err rr = None \<and> rr_data rr = chain_emit emit (src_filters src) bs \<and> rr_n rr \<le> k
       \<or> rr_err rr = Some DataModifiedNotInPlace
         \<and> src_DataFilterOutput src' = chain_emit emit (src_filters src) bs)"
proof (cases "src_filters src = []")
  case True
  with assms show ?thesis by (simp add: source_Read_def)
next
  case False
  show ?thesis
  proof (cases "chain_emit emit (src_filters src) bs = []")
    case True
    with False assms run_filters_data_empty [of "src_filters src" "Orig 0 bs" e] show ?thesis
      by (simp add: source_Read_def Let_def)
  next
    case nonempty: False
    with False obtain d where d: "run_filters proc False (src_filters src) (Orig 0 bs) e =
        (Through d None, chain_upd emit upd (src_filters src) bs)"
      "slice_bytes d = chain_emit emit (src_filters src) bs"
      using run_filters_data [of "src_filters src" "Orig 0 bs" e] by auto
    show ?thesis
    proof (cases d)
      case (Orig off c)
      with d run_filters_in_place [of False "src_filters src" "Orig 0 bs" e off c] have "length c \<le> length bs"
        by auto
      with d Orig assms False nonempty show ?thesis by (simp add: source_Read_def Let_def)
    next
      case (Fresh c)
      with d assms False nonempty show ?thesis by (simp add: source_Read_def Let_def)
    qed
  qed
qed

lemma source_Read_eof:
  assumes "rd (src_reader src) k = (bs, Some EOF, r')" "length bs \<le> k"
  shows "\<exists>rr src'. source_Read proc rd k src = (rr, src')
    \<and> src_reader src' = r' \<and> src_filters src' = chain_fin final fin (src_filters src) bs
    \<and> rr_n rr = length (chain_final final (src_filters src) bs)
    \<and> (rr_err rr = Some EOF \<and> rr_data rr = chain_final final (src_filters src) bs \<and> rr_n rr \<le> k
       \<or> rr_err rr = Some EOFDataModifiedNotInPlace
         \<and> src_DataFilterOutput src' = chain_final final (src_filters src) bs)"
proof (cases "src_filters src = []")
  case True
  with assms show ?thesis by (simp add: source_Read_def)
next
  case False
  obtain d where d: "run_filters proc True (src_filters src) (Orig 0 bs) (Some EOF) =
      (Through d (Some EOF), chain_fin final fin (src_filters src) bs)"
    "slice_bytes d = chain_final final (src_filters src) bs"
    using run_filters_eof [of "src_filters src" "Orig 0 bs" "Some EOF"] False by auto
  show ?thesis
  proof (cases d)
    case (Orig off c)
    with d run_filters_in_place [of True "src_filters src" "Orig 0 bs" "Some EOF" off c]
    have "length c \<le> length bs" by auto
    with d Orig assms False show ?thesis by (auto simp: source_Read_def Let_def)
  next
    case (Fresh c)
    with d assms False show ?thesis by (auto simp: source_Read_def Let_def)
  qed
qed

end


text \<open>The chunks a chunk reader delivers to a buffer of \<open>k\<close> octets, and those that come with the end.\<close>

function split_chunks :: "nat \<Rightarrow> byte list list \<Rightarrow> byte list list" where
  "split_chunks k [] = []"
| "split_chunks k (c # cs) =
     (if length c \<le> k \<or> k = 0 then c # split_chunks k cs else take k c # split_chunks k (drop k c # cs))"
  by pat_completeness auto
termination
  by (relation "measure (\<lambda>(k, cs). sum_list (map length cs) + length cs)") auto

lemma split_chunks_concat [simp]: "concat (split_chunks k cs) = concat cs"
  by (induction k cs rule: split_chunks.induct) (auto simp flip: append_assoc)

lemma split_chunks_Nil [simp]: "split_chunks k cs = [] \<longleftrightarrow> cs = []"
  by (cases cs) auto

declare split_chunks.simps(2) [simp del]

lemma split_chunks_Cons:
  "length c \<le> k \<Longrightarrow> split_chunks k (c # cs) = c # split_chunks k cs"
  "\<not> length c \<le> k \<Longrightarrow> 0 < k \<Longrightarrow> split_chunks k (c # cs) = take k c # split_chunks k (drop k c # cs)"
  by (simp_all add: split_chunks.simps(2))

definition delivered :: "nat \<Rightarrow> chunk_reader \<Rightarrow> byte list list \<times> byte list" where
  "delivered k r =
     (let rs = split_chunks k (cr_chunks r)
      in if cr_with_last r \<and> rs \<noteq> [] then (butlast rs, last rs) else (rs, []))"

lemma delivered_concat: "concat (fst (delivered k r)) @ snd (delivered k r) = concat (cr_chunks r)"
proof (cases "cr_with_last r \<and> split_chunks k (cr_chunks r) \<noteq> []")
  case True
  then have "concat (butlast (split_chunks k (cr_chunks r))) @ last (split_chunks k (cr_chunks r))
      = concat (split_chunks k (cr_chunks r))"
    by (metis append_butlast_last_id concat_append concat.simps append_Nil2)
  with True show ?thesis by (simp add: delivered_def Let_def)
qed (auto simp: delivered_def)

lemma chunk_read_last:
  "cr_chunks r = [c] \<Longrightarrow> cr_with_last r \<Longrightarrow> length c \<le> k \<Longrightarrow>
   chunk_read r k = (c, Some (cr_end r), r\<lparr>cr_chunks := []\<rparr>) \<and> delivered k r = ([], c)"
  by (simp add: chunk_read.simps delivered_def split_chunks_Cons)

lemma chunk_read_more:
  assumes "cr_chunks r = c # cs" "0 < k" "\<not> (cr_with_last r \<and> length c \<le> k \<and> cs = [])"
  defines "b \<equiv> if length c \<le> k then c else take k c"
  defines "r' \<equiv> r\<lparr>cr_chunks := (if length c \<le> k then cs else drop k c # cs)\<rparr>"
  shows "chunk_read r k = (b, None, r')" "length b \<le> k" "cr_end r' = cr_end r"
    "delivered k r = (b # fst (delivered k r'), snd (delivered k r'))"
  using assms by (auto simp: chunk_read.simps delivered_def Let_def split_chunks_Cons)

text \<open>What the source hands to the pump, read by read, and what a sink makes of it.\<close>

fun source_outs where
  "source_outs emit upd final fs [] l = [chain_final final fs l]"
| "source_outs emit upd final fs (c # cs) l =
     chain_emit emit fs c # source_outs emit upd final (chain_upd emit upd fs c) cs l"

fun source_end where
  "source_end emit upd final fin fs [] l = chain_fin final fin fs l"
| "source_end emit upd final fin fs (c # cs) l = source_end emit upd final fin (chain_upd emit upd fs c) cs l"

definition sink_feed where
  "sink_feed semit supd p snk =
     (if p = [] then snk
      else snk\<lparr>snk_filters := sink_upd semit supd (snk_filters snk) p,
             snk_writer := snk_writer snk @ sink_emit semit (snk_filters snk) p\<rparr>)"

locale pump_chain =
  r: stream_filter proc emit upd final fin + w: stream_filter sproc semit supd sfinal sfin
  for proc :: "'f process" and emit upd final fin and sproc :: "'g process" and semit supd sfinal sfin

context pump_chain begin

lemma sink_Write_feed:
  "sink_Write sproc buffer_write p snk = ((length p, None), sink_feed semit supd p snk)"
proof (cases "p = []")
  case False
  with w.sink_Write_spec [of p snk] show ?thesis by (simp add: sink_feed_def)
qed (simp add: sink_Write_def sink_feed_def)

lemma pump_Step_data:
  assumes "rd (src_reader src) k = (bs, e, r')" "e \<noteq> Some EOF" "length bs \<le> k"
    "src_filters src = [] \<longrightarrow> e = None"
  defines "out \<equiv> chain_emit emit (src_filters src) bs"
  shows "\<exists>src'. pump_Step proc rd sproc buffer_write k (src, snk) =
      Returns ((length out, None), src', sink_feed semit supd out snk)
    \<and> src_reader src' = r' \<and> src_filters src' = chain_upd emit upd (src_filters src) bs"
proof -
  from r.source_Read_data [of rd src k bs e r'] assms(1-4) obtain rr src' where
    "source_Read proc rd k src = (rr, src')" "src_reader src' = r'"
    "src_filters src' = chain_upd emit upd (src_filters src) bs" "rr_n rr = length out"
    "rr_err rr = None \<and> rr_data rr = out \<and> rr_n rr \<le> k
      \<or> rr_err rr = Some DataModifiedNotInPlace \<and> src_DataFilterOutput src' = out"
    unfolding out_def by blast
  then show ?thesis by (auto simp: pump_Step_def Let_def sink_Write_feed)
qed

lemma pump_Step_eof:
  assumes "rd (src_reader src) k = (bs, Some EOF, r')" "length bs \<le> k"
  defines "out \<equiv> chain_final final (src_filters src) bs"
  shows "\<exists>src'. pump_Step proc rd sproc buffer_write k (src, snk) =
      Returns ((length out, Some EOF), src', sink_feed semit supd out snk)
    \<and> src_reader src' = r' \<and> src_filters src' = chain_fin final fin (src_filters src) bs"
proof -
  from r.source_Read_eof [of rd src k bs r'] assms(1,2) obtain rr src' where
    "source_Read proc rd k src = (rr, src')" "src_reader src' = r'"
    "src_filters src' = chain_fin final fin (src_filters src) bs" "rr_n rr = length out"
    "rr_err rr = Some EOF \<and> rr_data rr = out \<and> rr_n rr \<le> k
      \<or> rr_err rr = Some EOFDataModifiedNotInPlace \<and> src_DataFilterOutput src' = out"
    unfolding out_def by blast
  then show ?thesis by (auto simp: pump_Step_def Let_def sink_Write_feed sink_feed_def)
qed

lemma pump_loop_data:
  assumes "rd (src_reader src) k = (bs, e, r')" "e \<noteq> Some EOF" "length bs \<le> k"
    "src_filters src = [] \<longrightarrow> e = None"
  defines "out \<equiv> chain_emit emit (src_filters src) bs"
  shows "\<exists>src'. pump_loop proc rd sproc buffer_write k acc (src, snk) =
      pump_loop proc rd sproc buffer_write k (acc + length out) (src', sink_feed semit supd out snk)
    \<and> src_reader src' = r' \<and> src_filters src' = chain_upd emit upd (src_filters src) bs"
proof -
  from pump_Step_data [of rd src k bs e r' snk] assms(1-4) obtain src' where
    step: "pump_Step proc rd sproc buffer_write k (src, snk) =
      Returns ((length out, None), src', sink_feed semit supd out snk)"
    "src_reader src' = r'" "src_filters src' = chain_upd emit upd (src_filters src) bs"
    unfolding out_def by blast
  have "pump_loop proc rd sproc buffer_write k acc (src, snk) =
      pump_loop proc rd sproc buffer_write k (acc + length out) (src', sink_feed semit supd out snk)"
    by (subst pump_loop.simps) (simp add: step)
  with step show ?thesis by blast
qed

lemma pump_loop_eof:
  assumes "rd (src_reader src) k = (bs, Some EOF, r')" "length bs \<le> k"
  defines "out \<equiv> chain_final final (src_filters src) bs"
  shows "\<exists>src'. pump_loop proc rd sproc buffer_write k acc (src, snk) =
      Some (Returns ((acc + length out, None), src', sink_feed semit supd out snk))
    \<and> src_reader src' = r' \<and> src_filters src' = chain_fin final fin (src_filters src) bs"
proof -
  from pump_Step_eof [of rd src k bs r' snk] assms(1,2) obtain src' where
    step: "pump_Step proc rd sproc buffer_write k (src, snk) =
      Returns ((length out, Some EOF), src', sink_feed semit supd out snk)"
    "src_reader src' = r'" "src_filters src' = chain_fin final fin (src_filters src) bs"
    unfolding out_def by blast
  have "pump_loop proc rd sproc buffer_write k acc (src, snk) =
      Some (Returns ((acc + length out, None), src', sink_feed semit supd out snk))"
    by (subst pump_loop.simps) (simp add: step)
  with step show ?thesis by blast
qed

text \<open>\<open>All\<close> on a chunk reader that ends with the end of file: it returns, and moves what the chains make of it.\<close>

lemma pump_loop_spec:
  assumes "0 < k" "cr_end (src_reader src) = EOF" "delivered k (src_reader src) = (cs, l)"
  defines "outs \<equiv> source_outs emit upd final (src_filters src) cs l"
  shows "\<exists>src'. pump_loop proc chunk_read sproc buffer_write k acc (src, snk) =
      Some (Returns ((acc + length (concat outs), None), src', fold (sink_feed semit supd) outs snk))
    \<and> src_filters src' = source_end emit upd final fin (src_filters src) cs l"
  using assms(1-3) unfolding outs_def
proof (induction k "cr_chunks (src_reader src)" arbitrary: src snk acc cs rule: split_chunks.induct)
  case (1 k)
  then have "chunk_read (src_reader src) k = ([], Some EOF, src_reader src)" "cs = []" "l = []"
    by (simp_all add: chunk_read.simps delivered_def)
  with pump_loop_eof [of chunk_read src k "[]" "src_reader src" acc snk] show ?case by auto
next
  case (2 k c cs')
  let ?r = "src_reader src"
  have chunks: "cr_chunks ?r = c # cs'" using "2.hyps" by simp
  show ?case
  proof (cases "cr_with_last ?r \<and> length c \<le> k \<and> cs' = []")
    case True
    with chunk_read_last [of ?r c k] chunks "2.prems"
    have "chunk_read ?r k = (c, Some EOF, ?r\<lparr>cr_chunks := []\<rparr>)" "cs = []" "l = c" by auto
    with pump_loop_eof [of chunk_read src k c _ acc snk] True show ?thesis by auto
  next
    case False
    define b where "b = (if length c \<le> k then c else take k c)"
    define r' where "r' = ?r\<lparr>cr_chunks := (if length c \<le> k then cs' else drop k c # cs')\<rparr>"
    note more = chunk_read_more [OF chunks "2.prems"(1) False, folded b_def r'_def]
    from pump_loop_data [of chunk_read src k b None r' acc snk] more obtain src' where
      step: "pump_loop proc chunk_read sproc buffer_write k acc (src, snk) =
        pump_loop proc chunk_read sproc buffer_write k (acc + length (chain_emit emit (src_filters src) b))
          (src', sink_feed semit supd (chain_emit emit (src_filters src) b) snk)"
      "src_reader src' = r'" "src_filters src' = chain_upd emit upd (src_filters src) b" by auto
    obtain cs1 where del: "delivered k r' = (cs1, l)" "cs = b # cs1"
      using more(4) "2.prems"(3) by (cases "delivered k r'") auto
    have rest: "\<exists>src''. pump_loop proc chunk_read sproc buffer_write k a (src', s) =
        Some (Returns ((a + length (concat (source_outs emit upd final (src_filters src') cs1 l)), None), src'',
          fold (sink_feed semit supd) (source_outs emit upd final (src_filters src') cs1 l) s))
      \<and> src_filters src'' = source_end emit upd final fin (src_filters src') cs1 l" for a s
    proof (cases "length c \<le> k")
      case True
      with "2.hyps"(1) [of src' cs1 a s] step(2) more(3) del(1) "2.prems" show ?thesis by (simp add: r'_def)
    next
      case False
      with "2.hyps"(2) [of src' cs1 a s] step(2) more(3) del(1) "2.prems" show ?thesis by (simp add: r'_def)
    qed
    let ?o = "chain_emit emit (src_filters src) b"
    from rest [of "acc + length ?o" "sink_feed semit supd ?o snk"] step del show ?thesis
      by (simp add: add.assoc)
  qed
qed

lemma pump_All_spec:
  assumes "cr_end (src_reader src) = EOF" "delivered buffer_size (src_reader src) = (cs, l)"
  defines "outs \<equiv> source_outs emit upd final (src_filters src) cs l"
  shows "\<exists>src'. pump_All proc chunk_read sproc buffer_write src snk =
      Some (Returns ((length (concat outs), None), src', fold (sink_feed semit supd) outs snk))
    \<and> src_filters src' = source_end emit upd final fin (src_filters src) cs l"
  using pump_loop_spec [of buffer_size src cs l 0 snk] assms
  by (simp add: pump_All_def buffer_size_def)

text \<open>With a filter, a reader that fails with another error keeps the loop going: \<open>Read\<close> drops the error.\<close>

lemma chunk_read_bounds:
  assumes "0 < k" "cr_end r \<noteq> EOF" "chunk_read r k = (bs, e, r')"
  shows "length bs \<le> k" "e \<noteq> Some EOF" "cr_end r' = cr_end r"
  using assms by (auto simp: chunk_read.simps split: list.splits if_splits)

lemma pump_loop_diverges:
  assumes "0 < k" "src_filters src \<noteq> []" "cr_end (src_reader src) \<noteq> EOF"
  shows "pump_loop proc chunk_read sproc buffer_write k acc (src, snk) = None"
proof -
  let ?P = "\<lambda>pr rd spr wr k acc st y. pr = proc \<longrightarrow> rd = chunk_read \<longrightarrow> spr = sproc \<longrightarrow> wr = buffer_write \<longrightarrow>
    0 < k \<longrightarrow> src_filters (fst st) \<noteq> [] \<longrightarrow> cr_end (src_reader (fst st)) \<noteq> EOF \<longrightarrow> False"
  have "?P proc chunk_read sproc buffer_write k acc (src, snk) y"
    if "pump_loop proc chunk_read sproc buffer_write k acc (src, snk) = Some y" for y
  proof (rule pump_loop.raw_induct [of ?P, OF _ that])
    fix loop :: "'f process \<Rightarrow> chunk_reader reader \<Rightarrow> 'g process \<Rightarrow> byte list writer \<Rightarrow> nat \<Rightarrow> nat \<Rightarrow>
      (chunk_reader, 'f) source \<times> (byte list, 'g) sink \<Rightarrow>
      ((nat \<times> ioerr option) \<times> (chunk_reader, 'f) source \<times> (byte list, 'g) sink) outcome option"
    fix pr rd spr wr k acc st y
    assume IH: "\<And>pr rd spr wr k acc st y. loop pr rd spr wr k acc st = Some y \<Longrightarrow> ?P pr rd spr wr k acc st y"
      and body: "(case pump_Step pr rd spr wr k st of
        Panics \<Rightarrow> Some Panics
      | Returns ((n, err), st') \<Rightarrow>
          if err \<noteq> None then Some (Returns ((acc + n, if err = Some EOF then None else err), st'))
          else loop pr rd spr wr k (acc + n) st') = Some y"
    show "?P pr rd spr wr k acc st y"
    proof (intro impI)
      assume h: "pr = proc" "rd = chunk_read" "spr = sproc" "wr = buffer_write" "0 < k"
        "src_filters (fst st) \<noteq> []" "cr_end (src_reader (fst st)) \<noteq> EOF"
      obtain bs e r' where rd: "chunk_read (src_reader (fst st)) k = (bs, e, r')" by (metis prod_cases3)
      note b = chunk_read_bounds [OF h(5,7) rd]
      from pump_Step_data [of chunk_read "fst st" k bs e r' "snd st"] rd b h(6) obtain n src' snk' where
        step: "pump_Step proc chunk_read sproc buffer_write k st = Returns ((n, None), src', snk')"
          "src_reader src' = r'" "src_filters src' \<noteq> []" by auto
      with body h have "loop proc chunk_read sproc buffer_write k (acc + n) (src', snk') = Some y" by simp
      from IH [OF this] step b(3) h show False by simp
    qed
  qed
  then show ?thesis using assms by (cases "pump_loop proc chunk_read sproc buffer_write k acc (src, snk)") auto
qed

end

section \<open>The package's own filters\<close>

fun go_emit :: "go_filter \<Rightarrow> byte list \<Rightarrow> byte list" where
  "go_emit (HashFilter fly w) c = (if fly then c else [])"
| "go_emit ToHex c = hex_encode c"

fun go_upd :: "go_filter \<Rightarrow> byte list \<Rightarrow> go_filter" where
  "go_upd (HashFilter fly w) c = HashFilter fly (w @ c)"
| "go_upd ToHex c = ToHex"

fun go_final :: "(byte list \<Rightarrow> byte list) \<Rightarrow> go_filter \<Rightarrow> byte list \<Rightarrow> byte list" where
  "go_final dig (HashFilter fly w) c = (if fly then c else dig w)"
| "go_final dig ToHex c = hex_encode c"

fun go_fin :: "go_filter \<Rightarrow> byte list \<Rightarrow> go_filter" where
  "go_fin (HashFilter fly w) c = HashFilter fly (if fly then w @ c else w)"
| "go_fin ToHex c = ToHex"

interpretation go: stream_filter "filter_Process dig" go_emit go_upd "go_final dig" go_fin for dig
proof
  fix f p eof off c
  show "\<exists>d. filter_Process dig f p False = (d, None, go_upd f (slice_bytes p)) \<and> slice_bytes d = go_emit f (slice_bytes p)"
    by (cases f) (auto simp: Let_def)
  show "\<exists>d. filter_Process dig f p True = (d, Some EOF, go_fin f (slice_bytes p)) \<and> slice_bytes d = go_final dig f (slice_bytes p)"
    by (cases f) (auto simp: Let_def)
  show "fst (filter_Process dig f p eof) = Orig off c \<Longrightarrow> \<exists>off' c'. p = Orig off' c' \<and> length c \<le> length c'"
    by (cases f) (auto simp: Let_def split: if_splits)
qed

interpretation gopump: pump_chain "filter_Process dig" go_emit go_upd "go_final dig" go_fin
    "filter_Process dig" go_emit go_upd "go_final dig" go_fin for dig
  by unfold_locales

text \<open>What the chains the repository builds make of the data.\<close>

lemma source_outs_none: "concat (source_outs emit upd final [] cs l) = concat cs @ l"
  by (induction cs) auto

lemma source_outs_fly:
  "concat (source_outs go_emit go_upd (go_final dig) [HashFilter True w] cs l) = concat cs @ l"
  by (induction cs arbitrary: w) auto

lemma source_end_fly:
  "source_end go_emit go_upd (go_final dig) go_fin [HashFilter True w] cs l = [HashFilter True (w @ concat cs @ l)]"
  by (induction cs arbitrary: w) auto

lemma source_outs_hash:
  "concat (source_outs go_emit go_upd (go_final dig) (HashFilter False w # fs) cs l) =
     chain_final (go_final dig) fs (dig (w @ concat cs))"
  by (induction cs arbitrary: w) auto

lemma fold_sink_plain:
  "snk_filters snk = [] \<Longrightarrow>
   snk_writer (fold (sink_feed semit supd) outs snk) = snk_writer snk @ concat outs
   \<and> snk_filters (fold (sink_feed semit supd) outs snk) = []"
  by (induction outs arbitrary: snk) (auto simp: sink_feed_def)

lemma fold_sink_hex:
  "snk_filters snk = [ToHex] \<Longrightarrow>
   snk_writer (fold (sink_feed go_emit go_upd) outs snk) = snk_writer snk @ hex_encode (concat outs)
   \<and> snk_filters (fold (sink_feed go_emit go_upd) outs snk) = [ToHex]"
  by (induction outs arbitrary: snk) (auto simp: sink_feed_def)


section \<open>Properties\<close>

lemma delivered_separate: "\<not> cr_with_last r \<Longrightarrow> delivered k r = (split_chunks k (cr_chunks r), [])"
  by (simp add: delivered_def)

lemma go_pump:
  assumes "cr_end (src_reader src) = EOF"
  obtains cs l src' where "delivered buffer_size (src_reader src) = (cs, l)"
    and "concat cs @ l = concat (cr_chunks (src_reader src))"
    and "pump_All (filter_Process dig) chunk_read (filter_Process dig) buffer_write src snk =
      Some (Returns ((length (concat (source_outs go_emit go_upd (go_final dig) (src_filters src) cs l)), None), src',
        fold (sink_feed go_emit go_upd) (source_outs go_emit go_upd (go_final dig) (src_filters src) cs l) snk))"
    and "src_filters src' = source_end go_emit go_upd (go_final dig) go_fin (src_filters src) cs l"
proof -
  obtain cs l where d: "delivered buffer_size (src_reader src) = (cs, l)" by fastforce
  then have "concat cs @ l = concat (cr_chunks (src_reader src))"
    using delivered_concat [of buffer_size "src_reader src"] by simp
  with d that gopump.pump_All_spec [OF assms d] show ?thesis by blast
qed

text \<open>
  C22. Without filters \<open>All\<close> returns without an error and copies: the writer gets exactly the
  reader's data, however the reader cuts it into chunks, and the count is its length.
\<close>

theorem pump_copies:
  assumes "cr_end (src_reader src) = EOF" "src_filters src = []" "snk_filters snk = []"
  shows "\<exists>src' snk'. pump_All (filter_Process dig) chunk_read (filter_Process dig) buffer_write src snk =
      Some (Returns ((length (concat (cr_chunks (src_reader src))), None), src', snk'))
    \<and> snk_writer snk' = snk_writer snk @ concat (cr_chunks (src_reader src))"
proof -
  from go_pump [OF assms(1)] obtain cs l src' where
    "concat cs @ l = concat (cr_chunks (src_reader src))"
    "pump_All (filter_Process dig) chunk_read (filter_Process dig) buffer_write src snk =
      Some (Returns ((length (concat (source_outs go_emit go_upd (go_final dig) (src_filters src) cs l)), None), src',
        fold (sink_feed go_emit go_upd) (source_outs go_emit go_upd (go_final dig) (src_filters src) cs l) snk))"
    by metis
  with assms(2) fold_sink_plain [OF assms(3)] show ?thesis by (simp add: source_outs_none)
qed

theorem pump_copies_witness:
  "\<exists>src' snk'. pump_All (filter_Process rev) chunk_read (filter_Process rev) buffer_write
      (source_NewBytes [1, 2, 3]) sink_NewBuffer = Some (Returns ((3, None), src', snk')) \<and> snk_writer snk' = [1, 2, 3]"
  using pump_copies [of "source_NewBytes [1, 2, 3]" sink_NewBuffer rev]
  by (simp add: source_NewBytes_def source_New_def bytes_NewReader_def sink_NewBuffer_def sink_New_def numeral_eq_Suc)

text \<open>
  A source with a consuming hash filter followed by \<open>ToHex\<close> yields the hex digest of the
  octets the reader returned before the call that reported the end of the file. For a reader that
  reports the end separately, as \<open>bytes.Reader\<close> does, that is the hex digest of all its data.
\<close>

theorem hash_to_hex:
  assumes "cr_end (src_reader src) = EOF" "src_filters src = [NewHash False, ToHex]" "snk_filters snk = []"
  shows "\<exists>n src' snk'. pump_All (filter_Process dig) chunk_read (filter_Process dig) buffer_write src snk =
      Some (Returns ((n, None), src', snk'))
    \<and> snk_writer snk' = snk_writer snk @ hex_encode (dig (concat (fst (delivered buffer_size (src_reader src)))))
    \<and> (\<not> cr_with_last (src_reader src) \<longrightarrow>
        concat (fst (delivered buffer_size (src_reader src))) = concat (cr_chunks (src_reader src)))"
proof -
  from go_pump [OF assms(1)] obtain cs l src' where
    "delivered buffer_size (src_reader src) = (cs, l)"
    "pump_All (filter_Process dig) chunk_read (filter_Process dig) buffer_write src snk =
      Some (Returns ((length (concat (source_outs go_emit go_upd (go_final dig) (src_filters src) cs l)), None), src',
        fold (sink_feed go_emit go_upd) (source_outs go_emit go_upd (go_final dig) (src_filters src) cs l) snk))"
    by metis
  with assms(2) fold_sink_plain [OF assms(3)] delivered_separate [of "src_reader src" buffer_size] show ?thesis
    by (simp add: NewHash_def source_outs_hash)
qed

theorem hash_to_hex_witness:
  "\<exists>n src' snk'. pump_All (filter_Process (take 2)) chunk_read (filter_Process (take 2)) buffer_write
      (source_Chain [NewHash False, ToHex] (source_NewBytes [0xAB, 7, 9])) sink_NewBuffer =
        Some (Returns ((n, None), src', snk'))
     \<and> snk_writer snk' = [97, 98, 48, 55]"
proof -
  let ?src = "source_Chain [NewHash False, ToHex] (source_NewBytes [0xAB, 7, 9])"
  have "hex_encode (take 2 [0xAB, 7, 9]) = [97, 98, 48, 55]" by (simp add: hex_encode_def hex_nibble_def)
  then show ?thesis
    using hash_to_hex [of ?src sink_NewBuffer "take 2"]
    by (auto simp: source_Chain_def source_NewBytes_def source_New_def bytes_NewReader_def sink_NewBuffer_def sink_New_def)
qed

text \<open>
  A reader may return its last octets together with the end of the file; a consuming hash
  filter then leaves them out: for a reader that delivers all its data that way the digest is that of
  no data at all.
\<close>

theorem hash_ignores_data_with_eof:
  "\<exists>n src' snk'. pump_All (filter_Process dig) chunk_read (filter_Process dig) buffer_write
      (source_Chain [NewHash False] (source_New \<lparr>cr_chunks = [[1, 2, 3]], cr_end = EOF, cr_with_last = True\<rparr>))
      sink_NewBuffer = Some (Returns ((n, None), src', snk'))
    \<and> snk_writer snk' = dig []"
proof -
  let ?src = "source_Chain [NewHash False] (source_New \<lparr>cr_chunks = [[1, 2, 3]], cr_end = EOF, cr_with_last = True\<rparr>)"
  have "cr_end (src_reader ?src) = EOF" "src_filters ?src = [NewHash False]"
    "delivered buffer_size (src_reader ?src) = ([], [1, 2, 3])"
    by (simp_all add: source_Chain_def source_New_def delivered_def buffer_size_def split_chunks_Cons)
  with gopump.pump_All_spec [of ?src "[]" "[1, 2, 3]" dig sink_NewBuffer] fold_sink_plain [of sink_NewBuffer]
  show ?thesis by (auto simp: NewHash_def sink_NewBuffer_def sink_New_def sink_feed_def)
qed

text \<open>
  An on-the-fly hash filter is transparent: the writer gets exactly the reader's data,
  and the filter has digested exactly that data, also where it came together with the end of the file.
\<close>

theorem on_the_fly_hash:
  assumes "cr_end (src_reader src) = EOF" "src_filters src = [NewHash True]" "snk_filters snk = []"
  shows "\<exists>src' snk'. pump_All (filter_Process dig) chunk_read (filter_Process dig) buffer_write src snk =
      Some (Returns ((length (concat (cr_chunks (src_reader src))), None), src', snk'))
    \<and> snk_writer snk' = snk_writer snk @ concat (cr_chunks (src_reader src))
    \<and> src_filters src' = [HashFilter True (concat (cr_chunks (src_reader src)))]"
proof -
  from go_pump [OF assms(1)] obtain cs l src' where
    "concat cs @ l = concat (cr_chunks (src_reader src))"
    "pump_All (filter_Process dig) chunk_read (filter_Process dig) buffer_write src snk =
      Some (Returns ((length (concat (source_outs go_emit go_upd (go_final dig) (src_filters src) cs l)), None), src',
        fold (sink_feed go_emit go_upd) (source_outs go_emit go_upd (go_final dig) (src_filters src) cs l) snk))"
    "src_filters src' = source_end go_emit go_upd (go_final dig) go_fin (src_filters src) cs l"
    by metis
  with assms(2) fold_sink_plain [OF assms(3)] show ?thesis
    by (simp add: NewHash_def source_outs_fly source_end_fly)
qed

theorem on_the_fly_hash_witness:
  "\<exists>src' snk'. pump_All (filter_Process rev) chunk_read (filter_Process rev) buffer_write
      (source_Chain [NewHash True] (source_NewBytes [5, 6])) sink_NewBuffer = Some (Returns ((2, None), src', snk'))
     \<and> snk_writer snk' = [5, 6] \<and> src_filters src' = [HashFilter True [5, 6]]"
  using on_the_fly_hash [of "source_Chain [NewHash True] (source_NewBytes [5, 6])" sink_NewBuffer rev]
  by (simp add: source_Chain_def source_NewBytes_def source_New_def bytes_NewReader_def sink_NewBuffer_def sink_New_def numeral_eq_Suc)





end
