(* ===== verification/IOHelper.thy ===== *)
theory IOHelper
  imports IOPump
begin

text \<open>
  \<open>iohelper/iohelper.go\<close> and \<open>iohelper/shared_preference.go\<close>: digests and copies of files and downloads
  through the pump, rate-limited output, and the name/value lists of \<open>SharedPreference\<close>.

  The file system is the contents of its readable regular files, by name; whether a file can be created
  is an argument. A call that may panic or not return has a result in \<open>outcome option\<close>.
\<close>

section \<open>Files through the pump\<close>

type_synonym file_system = "string \<rightharpoonup> byte list"

datatype file_error =
    HashUnavailable | NotAFile | OpenFailed | CreateFailed | PumpFailed ioerr
  | BadSum "byte list" | HttpFailed | HttpStatus nat

fun on_return :: "'a outcome option \<Rightarrow> ('a \<Rightarrow> 'b) \<Rightarrow> 'b outcome option" where
  "on_return None f = None"
| "on_return (Some Panics) f = Some Panics"
| "on_return (Some (Returns x)) f = Some (Returns (f x))"

text \<open>\<open>bytes.TrimSpace\<close> on ASCII.\<close>

definition TrimSpace :: "byte list \<Rightarrow> byte list" where
  "TrimSpace s = rev (dropWhile (\<lambda>b. b \<in> {9, 10, 11, 12, 13, 32}) (rev (dropWhile (\<lambda>b. b \<in> {9, 10, 11, 12, 13, 32}) s)))"

definition CatTextFile :: "file_system \<Rightarrow> string \<Rightarrow> byte list \<Rightarrow> byte list" where
  "CatTextFile fs fn dfl = (case fs fn of Some data \<Rightarrow> TrimSpace data | None \<Rightarrow> dfl)"

text \<open>A file is read to its end by a source with the given filters; the sink starts empty.\<close>

definition pump_file where
  "pump_file dig filters r =
     pump_All (filter_Process dig) chunk_read (filter_Process dig) buffer_write
       (source_Chain filters (source_New r)) (sink_NewBuffer :: (byte list, go_filter) sink)"

definition HashsumFromFile ::
    "bool \<Rightarrow> (byte list \<Rightarrow> byte list) \<Rightarrow> file_system \<Rightarrow> string \<Rightarrow> (file_error + byte list) outcome option" where
  "HashsumFromFile available dig fs fn =
     (if \<not> available then Some (Returns (Inl HashUnavailable))
      else case fs fn of
        None \<Rightarrow> Some (Returns (Inl NotAFile))
      | Some data \<Rightarrow>
          on_return (pump_file dig [NewHash False] (bytes_NewReader data))
            (\<lambda>((n, err), src, snk). case err of
               Some e \<Rightarrow> Inl (PumpFailed e)
             | None \<Rightarrow> Inr (snk_writer snk)))"

definition ValidFileSum ::
    "bool \<Rightarrow> (byte list \<Rightarrow> byte list) \<Rightarrow> file_system \<Rightarrow> string \<Rightarrow> byte list \<Rightarrow> file_error option outcome option" where
  "ValidFileSum available dig fs fn expectSum =
     on_return (HashsumFromFile available dig fs fn)
       (\<lambda>res. case res of
          Inl e \<Rightarrow> Some e
        | Inr data \<Rightarrow> if hex_encode data \<noteq> expectSum then Some (BadSum (hex_encode data)) else None)"

text \<open>The destination is created, and so truncated, before the source is read.\<close>

definition CopyFile ::
    "(string \<Rightarrow> bool) \<Rightarrow> string \<Rightarrow> string \<Rightarrow> file_system \<Rightarrow> ((nat \<times> file_error option) \<times> file_system) outcome option" where
  "CopyFile can_create dst src fs =
     (case fs src of
        None \<Rightarrow> Some (Returns ((0, Some OpenFailed), fs))
      | Some _ \<Rightarrow>
          if \<not> can_create dst then Some (Returns ((0, Some CreateFailed), fs))
          else
            let fs1 = fs(dst \<mapsto> []) in
            on_return (pump_file (\<lambda>_. []) [] (bytes_NewReader (the (fs1 src))))
              (\<lambda>((n, err), s, snk). ((n, map_option PumpFailed err), fs1(dst \<mapsto> snk_writer snk))))"

text \<open>
  \<open>HttpDownload\<close>; \<open>get\<close> is what \<open>http.Get\<close> yields, a status and the body. The result is the error and the
  files after the call.
\<close>

definition HttpDownload ::
    "(string \<Rightarrow> bool) \<Rightarrow> (byte list \<Rightarrow> byte list) \<Rightarrow> (nat \<times> chunk_reader) option \<Rightarrow> string \<Rightarrow> byte list \<Rightarrow>
     file_system \<Rightarrow> (file_error option \<times> file_system) outcome option" where
  "HttpDownload can_create md5 get dst expectedSum fs =
     (case ValidFileSum True md5 fs dst expectedSum of
        None \<Rightarrow> None
      | Some Panics \<Rightarrow> Some Panics
      | Some (Returns None) \<Rightarrow> Some (Returns (None, fs))
      | Some (Returns (Some _)) \<Rightarrow>
          (case get of
             None \<Rightarrow> Some (Returns (Some HttpFailed, fs))
           | Some (status, body) \<Rightarrow>
               if status \<noteq> 200 then Some (Returns (Some (HttpStatus status), fs))
               else if \<not> can_create dst then Some (Returns (Some CreateFailed, fs))
               else
                 on_return (pump_file md5 [NewHash True] body)
                   (\<lambda>((n, err), src, snk).
                      let fs' = fs(dst \<mapsto> snk_writer snk) in
                      case err of
                        Some e \<Rightarrow> (Some (PumpFailed e), fs')
                      | None \<Rightarrow>
                          let got = hex_encode (md5 (written (hd (src_filters src)))) in
                          (if expectedSum \<noteq> [] \<and> got \<noteq> expectedSum then Some (BadSum got) else None, fs'))))"

lemmas pump_file_simps = pump_file_def source_Chain_def source_New_def sink_NewBuffer_def sink_New_def

lemma pump_file_hash:
  "\<exists>n src snk. pump_file dig [NewHash False] (bytes_NewReader data) = Some (Returns ((n, None), src, snk))
     \<and> snk_writer snk = dig data"
proof -
  let ?src = "source_Chain [NewHash False] (source_New (bytes_NewReader data))"
  have "cr_end (src_reader ?src) = EOF"
    "delivered buffer_size (src_reader ?src) = (split_chunks buffer_size (cr_chunks (bytes_NewReader data)), [])"
    by (simp_all add: source_Chain_def source_New_def bytes_NewReader_def delivered_def)
  moreover have "concat (cr_chunks (bytes_NewReader data)) = data"
    by (simp add: bytes_NewReader_def)
  ultimately show ?thesis
    using gopump.pump_All_spec [of ?src "split_chunks buffer_size (cr_chunks (bytes_NewReader data))" "[]" dig sink_NewBuffer]
    by (auto simp: pump_file_simps NewHash_def fold_sink_plain source_outs_hash)
qed

lemma HashsumFromFile_eq:
  "HashsumFromFile True dig fs fn =
     Some (Returns (case fs fn of None \<Rightarrow> Inl NotAFile | Some data \<Rightarrow> Inr (dig data)))"
proof (cases "fs fn")
  case (Some data)
  with pump_file_hash [of dig data] show ?thesis by (auto simp: HashsumFromFile_def)
qed (simp add: HashsumFromFile_def)

lemma pump_file_fly:
  assumes "cr_end body = EOF"
  shows "\<exists>n src snk. pump_file dig [NewHash True] body = Some (Returns ((n, None), src, snk))
     \<and> snk_writer snk = concat (cr_chunks body) \<and> src_filters src = [HashFilter True (concat (cr_chunks body))]"
proof -
  let ?src = "source_Chain [NewHash True] (source_New body)"
  have "cr_end (src_reader ?src) = EOF" using assms by (simp add: source_Chain_def source_New_def)
  then obtain cs l src' where "concat cs @ l = concat (cr_chunks (src_reader ?src))"
    "pump_All (filter_Process dig) chunk_read (filter_Process dig) buffer_write ?src sink_NewBuffer =
      Some (Returns ((length (concat (source_outs go_emit go_upd (go_final dig) (src_filters ?src) cs l)), None), src',
        fold (sink_feed go_emit go_upd) (source_outs go_emit go_upd (go_final dig) (src_filters ?src) cs l) sink_NewBuffer))"
    "src_filters src' = source_end go_emit go_upd (go_final dig) go_fin (src_filters ?src) cs l"
    using go_pump [of ?src dig sink_NewBuffer] by metis
  then show ?thesis
    by (simp add: pump_file_simps NewHash_def fold_sink_plain source_outs_fly source_end_fly)
qed

lemma pump_file_plain:
  assumes "cr_end body = EOF"
  shows "\<exists>src snk. pump_file dig [] body = Some (Returns ((length (concat (cr_chunks body)), None), src, snk))
     \<and> snk_writer snk = concat (cr_chunks body)"
proof -
  let ?src = "source_Chain [] (source_New body) :: (chunk_reader, go_filter) source"
  have "cr_end (src_reader ?src) = EOF" using assms by (simp add: source_Chain_def source_New_def)
  then obtain cs l src' where "concat cs @ l = concat (cr_chunks (src_reader ?src))"
    "pump_All (filter_Process dig) chunk_read (filter_Process dig) buffer_write ?src sink_NewBuffer =
      Some (Returns ((length (concat (source_outs go_emit go_upd (go_final dig) (src_filters ?src) cs l)), None), src',
        fold (sink_feed go_emit go_upd) (source_outs go_emit go_upd (go_final dig) (src_filters ?src) cs l) sink_NewBuffer))"
    using go_pump [of ?src dig sink_NewBuffer] by metis
  then show ?thesis by (simp add: pump_file_simps fold_sink_plain source_outs_none)
qed

text \<open>
  \<open>ValidFileSum\<close> returns for every file and accepts exactly the hex digest of the file's
  contents.
\<close>

theorem ValidFileSum_iff:
  "\<exists>r. ValidFileSum True dig fs fn want = Some (Returns r)
     \<and> (r = None \<longleftrightarrow> (\<exists>data. fs fn = Some data \<and> want = hex_encode (dig data)))"
  by (auto simp: ValidFileSum_def HashsumFromFile_eq split: option.split)

text \<open>
  A copy to another name returns the length, leaves the source and all other files alone and
  gives the destination the source's contents; a copy of a file to itself empties it, without an error.
\<close>

theorem CopyFile_spec:
  assumes "fs src = Some data" "can_create dst"
  shows "CopyFile can_create dst src fs =
     Some (Returns (if dst = src then ((0, None), fs(src \<mapsto> [])) else ((length data, None), fs(dst \<mapsto> data))))"
proof -
  have "cr_end (bytes_NewReader p) = EOF" "concat (cr_chunks (bytes_NewReader p)) = p" for p
    by (simp_all add: bytes_NewReader_def)
  with pump_file_plain [of "bytes_NewReader data" "\<lambda>_. []"] pump_file_plain [of "bytes_NewReader []" "\<lambda>_. []"] assms
  show ?thesis by (auto simp: CopyFile_def Let_def)
qed

theorem CopyFile_spec_witness:
  "CopyFile (\<lambda>_. True) ''b'' ''a'' [''a'' \<mapsto> [1, 2]] = Some (Returns ((2, None), [''a'' \<mapsto> [1, 2], ''b'' \<mapsto> [1, 2]]))
   \<and> CopyFile (\<lambda>_. True) ''a'' ''a'' [''a'' \<mapsto> [1, 2]] = Some (Returns ((0, None), [''a'' \<mapsto> []]))"
  using CopyFile_spec [of "[''a'' \<mapsto> [1, 2]]" "''a''" "[1, 2]" "\<lambda>_. True" "''b''"]
    CopyFile_spec [of "[''a'' \<mapsto> [1, 2]]" "''a''" "[1, 2]" "\<lambda>_. True" "''a''"] by simp

text \<open>
  C38. A download that reports success with an expected sum leaves a file whose hex digest is
  that sum; every other file is untouched, whatever the outcome.
\<close>

theorem HttpDownload_verified:
  assumes "HttpDownload can_create md5 get dst want fs = Some (Returns (r, fs'))"
    and "\<And>status body. get = Some (status, body) \<Longrightarrow> cr_end body = EOF"
  shows "(\<forall>fn. fn \<noteq> dst \<longrightarrow> fs' fn = fs fn)
    \<and> (r = None \<and> want \<noteq> [] \<longrightarrow> (\<exists>data. fs' dst = Some data \<and> hex_encode (md5 data) = want))"
proof -
  obtain v where v: "ValidFileSum True md5 fs dst want = Some (Returns v)"
    "v = None \<longleftrightarrow> (\<exists>data. fs dst = Some data \<and> want = hex_encode (md5 data))"
    using ValidFileSum_def HashsumFromFile_eq by (auto simp: ValidFileSum_def HashsumFromFile_eq split: option.split)
  show ?thesis
  proof (cases "v = None \<or> get = None")
    case True
    with v assms(1) show ?thesis by (auto simp: HttpDownload_def)
  next
    case False
    then obtain e status body where g: "v = Some e" "get = Some (status, body)" by auto
    with assms(2) pump_file_fly [of body md5] v(1) assms(1) show ?thesis
      by (auto simp: HttpDownload_def Let_def split: if_splits)
  qed
qed

theorem HttpDownload_verified_witness:
  "\<exists>fs'. HttpDownload (\<lambda>_. True) rev (Some (200, bytes_NewReader [0x12])) ''f'' [49, 50] Map.empty = Some (Returns (None, fs'))
     \<and> (\<exists>data. fs' ''f'' = Some data \<and> hex_encode (rev data) = [49, 50])"
proof -
  have h: "hex_encode [0x12] = [49, 50]" by (simp add: hex_encode_def hex_nibble_def)
  have e: "cr_end (bytes_NewReader p) = EOF" "concat (cr_chunks (bytes_NewReader p)) = p" for p
    by (simp_all add: bytes_NewReader_def)
  obtain fs' where run: "HttpDownload (\<lambda>_. True) rev (Some (200, bytes_NewReader [0x12])) ''f'' [49, 50] Map.empty
      = Some (Returns (None, fs'))"
    using pump_file_fly [of "bytes_NewReader [0x12]" rev] e [of "[0x12]"] h
    by (auto simp: HttpDownload_def ValidFileSum_def HashsumFromFile_eq Let_def)
  have end_eof: "cr_end body = EOF" if "Some (200 :: nat, bytes_NewReader [0x12]) = Some (status, body)" for status body
    using that e(1) by auto
  show ?thesis using run HttpDownload_verified [OF run end_eof] by auto
qed

section \<open>Rate limits\<close>

text \<open>
  \<open>RateLimitedInfo\<close>, without the call site. The cache is a two-queue LRU of a library: its \<open>Get\<close> (which
  also ages entries) and \<open>Add\<close> are arguments. It holds pointers, here addresses in a list of infos.
\<close>

record rate_info =
  ri_Key :: string
  ri_LastDoTS :: i64
  ri_DoCount :: i64
  ri_TotalCount :: i64

type_synonym 'c rate_state = "'c \<times> rate_info list"

definition rate_key :: "string \<Rightarrow> nat \<Rightarrow> string" where
  "rate_key key pc = key @ ''_'' @ nat_digits pc"

text \<open>What \<open>WriteWithRate\<close> and \<open>ErrorfWithRate\<close> share: whether the call goes through, and the new state.\<close>

definition rate_check ::
    "('c \<Rightarrow> string \<Rightarrow> nat option \<times> 'c) \<Rightarrow> ('c \<Rightarrow> string \<Rightarrow> nat \<Rightarrow> 'c) \<Rightarrow> i64 \<Rightarrow> i64 \<Rightarrow> string \<Rightarrow> nat \<Rightarrow>
     'c rate_state \<Rightarrow> bool \<times> 'c rate_state" where
  "rate_check cget cadd now intervalTS key pc st =
     (case st of (c, infos) \<Rightarrow>
      let k = rate_key key pc in
      case cget c k of
        (Some a, c') \<Rightarrow>
          let info = (infos ! a)\<lparr>ri_TotalCount := ri_TotalCount (infos ! a) + 1\<rparr> in
          if now - ri_LastDoTS info <s intervalTS then (False, c', infos[a := info])
          else (True, c', infos[a := info\<lparr>ri_LastDoTS := now, ri_DoCount := ri_DoCount info + 1\<rparr>])
      | (None, c') \<Rightarrow>
          (True, cadd c' k (length infos),
            infos @ [\<lparr>ri_Key = key, ri_LastDoTS = now, ri_DoCount = 1, ri_TotalCount = 1\<rparr>]))"

definition WriteWithRate where
  "WriteWithRate cget cadd now intervalTS key pc text st out =
     (case rate_check cget cadd now intervalTS key pc st of
        (ok, st') \<Rightarrow> (st', if ok then out @ text else (out :: string)))"

datatype rate_error = PlainError string | RateLimitedError string

definition ErrorfWithRate where
  "ErrorfWithRate cget cadd now intervalTS key pc text st =
     (case rate_check cget cadd now intervalTS key pc st of
        (ok, st') \<Rightarrow> (if ok then PlainError text else RateLimitedError text, st'))"

text \<open>A run of calls from one site with one key: the times of the calls that went through, latest first.\<close>

fun rate_run where
  "rate_run cget cadd d key pc [] st = ([], st)"
| "rate_run cget cadd d key pc (t # ts) st =
     (case rate_run cget cadd d key pc ts st of (went, st') \<Rightarrow>
        case rate_check cget cadd t d key pc st' of (ok, st'') \<Rightarrow> (if ok then t # went else went, st''))"

fun spaced :: "i64 \<Rightarrow> i64 list \<Rightarrow> bool" where
  "spaced d (b # a # ts) = (\<not> b - a <s d \<and> spaced d (a # ts))"
| "spaced d ts = True"

lemma rate_run_inv:
  fixes cget :: "'c \<Rightarrow> string \<Rightarrow> nat option \<times> 'c"
  assumes get_add: "\<And>c k v. fst (cget (cadd c k v) k) = Some v"
    and get_get: "\<And>c k. fst (cget (snd (cget c k)) k) = fst (cget c k)"
    and "fst (cget c (rate_key key pc)) = None"
    and "rate_run cget cadd d key pc ts (c, infos) = (went, c', infos')"
  shows "spaced d went \<and>
    (if ts = [] then went = [] \<and> c' = c \<and> infos' = infos
     else went \<noteq> [] \<and> last went = last ts \<and> fst (cget c' (rate_key key pc)) = Some (length infos) \<and> length infos < length infos'
       \<and> ri_LastDoTS (infos' ! length infos) = hd went
       \<and> ri_DoCount (infos' ! length infos) = of_nat (length went)
       \<and> ri_TotalCount (infos' ! length infos) = of_nat (length ts))"
  using assms(4)
proof (induction ts arbitrary: went c' infos')
  case (Cons t ts)
  let ?k = "rate_key key pc"
  obtain d1 c1 i1 where r: "rate_run cget cadd d key pc ts (c, infos) = (d1, c1, i1)" by (metis prod_cases3)
  obtain g c2 where g: "cget c1 ?k = (g, c2)" by fastforce
  note IH = Cons.IH [OF r]
  show ?case
  proof (cases "ts = []")
    case True
    with IH assms(3) g have "g = None" "d1 = []" "i1 = infos" by auto
    with True Cons.prems r g get_add show ?thesis
      by (auto simp: rate_check_def Let_def)
  next
    case False
    let ?info = "i1 ! length infos"
    from False IH g have a: "g = Some (length infos)" and len: "length infos < length i1"
      and d1: "d1 \<noteq> []" "ri_LastDoTS ?info = hd d1" by simp_all
    have c2: "fst (cget c2 ?k) = Some (length infos)" using get_get [of c1 ?k] g a by simp
    show ?thesis
    proof (cases "t - hd d1 <s d")
      case True
      with Cons.prems r g a d1 have "went = d1" "c' = c2"
        "infos' = i1[length infos := ?info\<lparr>ri_TotalCount := ri_TotalCount ?info + 1\<rparr>]"
        by (simp_all add: rate_check_def Let_def)
      with False IH len c2 d1 show ?thesis by simp
    next
      case pass: False
      with Cons.prems r g a d1 have "went = t # d1" "c' = c2"
        "infos' = i1[length infos := ?info\<lparr>ri_TotalCount := ri_TotalCount ?info + 1, ri_LastDoTS := t,
          ri_DoCount := ri_DoCount ?info + 1\<rparr>]"
        by (simp_all add: rate_check_def Let_def)
      moreover have "spaced d (t # d1)" using IH pass d1 by (cases d1) simp_all
      ultimately show ?thesis using False IH len c2 d1 by simp
    qed
  qed
qed auto

text \<open>
  C39. For calls from one site with one key, and a cache that does not evict the key: the first
  call goes through, two calls that go through one after the other are at least the interval apart, and
  the counters count the calls and those that went through.
\<close>

theorem rate_limit_spacing:
  fixes cget :: "'c \<Rightarrow> string \<Rightarrow> nat option \<times> 'c"
  assumes "\<And>c k v. fst (cget (cadd c k v) k) = Some v"
    and "\<And>c k. fst (cget (snd (cget c k)) k) = fst (cget c k)"
    and "fst (cget c (rate_key key pc)) = None" "ts \<noteq> []"
    and "rate_run cget cadd d key pc ts (c, infos) = (went, c', infos')"
  shows "spaced d went \<and> last went = last ts
    \<and> ri_DoCount (infos' ! length infos) = of_nat (length went)
    \<and> ri_TotalCount (infos' ! length infos) = of_nat (length ts)"
  using rate_run_inv [OF assms(1-3,5)] assms(4) by simp

theorem rate_limit_spacing_witness:
  "fst (rate_run (\<lambda>c k. (c k, c)) (\<lambda>c k v. c(k \<mapsto> v)) 5 ''k'' 7 [12, 8, 6, 1] (Map.empty, [])) = [12, 6, 1]
   \<and> spaced 5 [12, 6, 1]"
proof -
  obtain went c' infos' where run: "rate_run (\<lambda>c k. (c k, c)) (\<lambda>c k v. c(k \<mapsto> v)) 5 ''k'' 7 [12, 8, 6, 1] (Map.empty, [])
      = (went, c', infos')" by (rule prod_cases3)
  have "fst (rate_run (\<lambda>c k. (c k, c)) (\<lambda>c k v. c(k \<mapsto> v)) 5 ''k'' 7 [12, 8, 6, 1] (Map.empty, [])) = [12, 6, 1]"
    by code_simp
  with run have "went = [12, 6, 1]" by simp
  with run rate_limit_spacing [OF _ _ _ _ run] show ?thesis by simp
qed

section \<open>Shared preferences\<close>

text \<open>
  The three lists of \<open>SharedPreference\<close> hold name and value; the getters and setters are the same code
  for each type of value.
\<close>

record shared_preference =
  sp_SElems :: "(string \<times> string) list"
  sp_IElems :: "(string \<times> int) list"
  sp_BElems :: "(string \<times> bool) list"

fun get_elem :: "string \<Rightarrow> (string \<times> 'v) list \<Rightarrow> 'v option" where
  "get_elem name [] = None"
| "get_elem name ((n, v) # es) = (if n = name then Some v else get_elem name es)"

fun put_elem :: "string \<Rightarrow> 'v \<Rightarrow> (string \<times> 'v) list \<Rightarrow> (string \<times> 'v) list" where
  "put_elem name val [] = [(name, val)]"
| "put_elem name val ((n, v) # es) = (if n = name then (n, val) # es else (n, v) # put_elem name val es)"

definition GetString where "GetString sp name = get_elem name (sp_SElems sp)"
definition GetInt where "GetInt sp name = get_elem name (sp_IElems sp)"
definition GetBool where "GetBool sp name = get_elem name (sp_BElems sp)"

definition PutString where "PutString name val sp = sp\<lparr>sp_SElems := put_elem name val (sp_SElems sp)\<rparr>"
definition PutInt where "PutInt name val sp = sp\<lparr>sp_IElems := put_elem name val (sp_IElems sp)\<rparr>"
definition PutBool where "PutBool name val sp = sp\<lparr>sp_BElems := put_elem name val (sp_BElems sp)\<rparr>"

text \<open>The contract of a name/value store, and what follows for any sequence of writes.\<close>

locale pref_store =
  fixes get :: "'s \<Rightarrow> string \<Rightarrow> 'v option" and put :: "string \<Rightarrow> 'v \<Rightarrow> 's \<Rightarrow> 's"
  assumes get_put: "get (put name val s) m = (if m = name then Some val else get s m)"

context pref_store begin

lemma get_puts: "get (fold (\<lambda>(n, v). put n v) kvs s) m = (case map_of (rev kvs) m of Some v \<Rightarrow> Some v | None \<Rightarrow> get s m)"
  by (induction kvs rule: rev_induct) (auto simp: get_put)

lemma put_put: "get (put n v (put n w s)) = get (put n v s)"
  by (rule ext) (simp add: get_put)

end

lemma get_put_elem: "get_elem m (put_elem name val es) = (if m = name then Some val else get_elem m es)"
  by (induction es) auto

lemma names_put_elem:
  "map fst (put_elem name val es) = map fst es @ (if name \<in> fst ` set es then [] else [name])"
  by (induction name val es rule: put_elem.induct) (auto simp: image_iff)

interpretation sp_string: pref_store GetString PutString
  by unfold_locales (simp add: GetString_def PutString_def get_put_elem)

interpretation sp_int: pref_store GetInt PutInt
  by unfold_locales (simp add: GetInt_def PutInt_def get_put_elem)

interpretation sp_bool: pref_store GetBool PutBool
  by unfold_locales (simp add: GetBool_def PutBool_def get_put_elem)

text \<open>
  After any sequence of \<open>PutString\<close> calls a name has the value written last, or the
  one it had before if none was written; the names written by \<open>PutInt\<close> and \<open>PutBool\<close> are apart.
\<close>

theorem shared_preference_store:
  "GetString (fold (\<lambda>(n, v). PutString n v) kvs sp) m =
     (case map_of (rev kvs) m of Some v \<Rightarrow> Some v | None \<Rightarrow> GetString sp m)
   \<and> GetInt (PutString n v sp) m = GetInt sp m \<and> GetBool (PutInt n i sp) m = GetBool sp m
   \<and> GetInt (PutInt n i sp) m = (if m = n then Some i else GetInt sp m)
   \<and> GetBool (PutBool n b sp) m = (if m = n then Some b else GetBool sp m)"
  by (simp add: sp_string.get_puts sp_int.get_put sp_bool.get_put)
    (simp add: GetInt_def GetBool_def PutString_def PutInt_def)

text \<open>
  Files of a preference. \<open>enc\<close> is the XML text of it, or an error; \<open>dec\<close> gives the error, if any, and the elements
  read until then, which are appended to those that are there.
\<close>

datatype pref_error = PrefOpen | PrefXml string

definition sp_Header :: "byte list" where
  "sp_Header = map (\<lambda>c. word_of_int (of_char c)) (''<?xml version='' @ [CHR 0x27] @ ''1.0'' @ [CHR 0x27] @ '' encoding='' @ [CHR 0x27] @ ''utf-8''
     @ [CHR 0x27] @ '' standalone='' @ [CHR 0x27] @ ''yes'' @ [CHR 0x27] @ '' ?>'' @ [CHR 0x0A])"

definition ToFile ::
    "(string \<Rightarrow> bool) \<Rightarrow> (shared_preference \<Rightarrow> string + byte list) \<Rightarrow> string \<Rightarrow> shared_preference \<Rightarrow> file_system \<Rightarrow>
     pref_error option \<times> file_system" where
  "ToFile can_create enc fn sp fs =
     (if \<not> can_create fn then (Some PrefOpen, fs)
      else case enc sp of
        Inl e \<Rightarrow> (Some (PrefXml e), fs(fn \<mapsto> sp_Header))
      | Inr out \<Rightarrow> (None, fs(fn \<mapsto> sp_Header @ out @ [10])))"

definition sp_append :: "shared_preference \<Rightarrow> shared_preference \<Rightarrow> shared_preference" where
  "sp_append sp rd =
     \<lparr>sp_SElems = sp_SElems sp @ sp_SElems rd, sp_IElems = sp_IElems sp @ sp_IElems rd, sp_BElems = sp_BElems sp @ sp_BElems rd\<rparr>"

definition FromFile ::
    "(byte list \<Rightarrow> string option \<times> shared_preference) \<Rightarrow> string \<Rightarrow> file_system \<Rightarrow> shared_preference \<Rightarrow>
     pref_error option \<times> shared_preference" where
  "FromFile dec fn fs sp =
     (case fs fn of
        None \<Rightarrow> (Some PrefOpen, sp)
      | Some data \<Rightarrow>
          if data = [] then (None, sp)
          else (case dec data of (err, rd) \<Rightarrow> (map_option PrefXml err, sp_append sp rd)))"

lemma get_elem_append: "get_elem name (es @ fs) = (case get_elem name es of Some v \<Rightarrow> Some v | None \<Rightarrow> get_elem name fs)"
  by (induction es) auto

text \<open>
  What \<open>ToFile\<close> wrote, \<open>FromFile\<close> reads back into an empty preference; into one that has values the names it has
  keep their values, as the elements of the file come after them.
\<close>

theorem preference_file_round_trip:
  assumes "enc sp = Inr out" "dec (sp_Header @ out @ [10]) = (None, sp)" "can_create fn"
    and "ToFile can_create enc fn sp fs = (err, fs')"
  shows "err = None \<and> (\<exists>sp'. FromFile dec fn fs' sp0 = (None, sp')
    \<and> GetString sp' name = (case GetString sp0 name of Some v \<Rightarrow> Some v | None \<Rightarrow> GetString sp name)
    \<and> GetInt sp' name = (case GetInt sp0 name of Some v \<Rightarrow> Some v | None \<Rightarrow> GetInt sp name)
    \<and> GetBool sp' name = (case GetBool sp0 name of Some v \<Rightarrow> Some v | None \<Rightarrow> GetBool sp name))"
  using assms
  by (auto simp: ToFile_def FromFile_def sp_append_def GetString_def GetInt_def GetBool_def get_elem_append
      split: option.split)

theorem preference_file_round_trip_witness:
  "\<exists>sp'. FromFile (\<lambda>d. (None, \<lparr>sp_SElems = [(''a'', ''1'')], sp_IElems = [], sp_BElems = []\<rparr>)) ''f'' [''f'' \<mapsto> sp_Header @ [1] @ [10]]
       \<lparr>sp_SElems = [], sp_IElems = [], sp_BElems = []\<rparr> = (None, sp') \<and> GetString sp' ''a'' = Some ''1''"
proof -
  let ?sp = "\<lparr>sp_SElems = [(''a'', ''1'')], sp_IElems = [], sp_BElems = []\<rparr>"
  have "ToFile (\<lambda>f. True) (\<lambda>sp. Inr [1]) ''f'' ?sp Map.empty = (None, [''f'' \<mapsto> sp_Header @ [1] @ [10]])"
    by (simp add: ToFile_def)
  from preference_file_round_trip [where sp = ?sp and dec = "\<lambda>d. (None, ?sp)" and name = "''a''" and out = "[1]"
      and ?sp0.0 = "\<lparr>sp_SElems = [], sp_IElems = [], sp_BElems = []\<rparr>", OF _ _ _ this]
  show ?thesis by (auto simp: GetString_def)
qed

end
