(* ===== verification/GoPaths.thy ===== *)
theory GoPaths
  imports GoPrelude
begin

text \<open>
  Paths of the standard library, for slash-separated names (\<open>path\<close>, and \<open>path/filepath\<close> on the systems the
  sources are for), and splitting into at most a number of pieces.
\<close>

section \<open>Paths\<close>

text \<open>\<open>path.Base\<close>, \<open>path.Clean\<close> and \<open>path.Join\<close>.\<close>

definition path_Base :: "string \<Rightarrow> string" where
  "path_Base p =
     (if p = [] then ''.''
      else
        let q = rev (dropWhile (\<lambda>c. c = CHR ''/'') (rev p));
            b = rev (takeWhile (\<lambda>c. c \<noteq> CHR ''/'') (rev q))
        in if b = [] then ''/'' else b)"

fun clean_parts :: "bool \<Rightarrow> string list \<Rightarrow> string list \<Rightarrow> string list" where
  "clean_parts rooted acc [] = rev acc"
| "clean_parts rooted acc (c # cs) =
     (if c = [] \<or> c = ''.'' then clean_parts rooted acc cs
      else if c = ''..'' then
        (case acc of
           [] \<Rightarrow> clean_parts rooted (if rooted then [] else [c]) cs
         | a # as \<Rightarrow> clean_parts rooted (if a = ''..'' then c # acc else as) cs)
      else clean_parts rooted (c # acc) cs)"

definition path_Clean :: "string \<Rightarrow> string" where
  "path_Clean p =
     (if p = [] then ''.''
      else
        let rooted = (hd p = CHR ''/'');
            out = (if rooted then ''/'' else []) @ str_join ''/'' (clean_parts rooted [] (str_split p ''/''))
        in if out = [] then ''.'' else out)"

definition path_Join :: "string list \<Rightarrow> string" where
  "path_Join elems =
     (let parts = dropWhile (\<lambda>e. e = []) elems in if parts = [] then [] else path_Clean (str_join ''/'' parts))"

lemma path_Base_no_slash: "path_Base p \<noteq> ''/'' \<Longrightarrow> CHR ''/'' \<notin> set (path_Base p)"
  using set_takeWhileD by (fastforce simp: path_Base_def Let_def split: if_splits)

section \<open>Splitting with a limit\<close>

text \<open>\<open>strings.SplitN\<close> for a separator of one octet and a positive limit.\<close>

fun str_splitN :: "nat \<Rightarrow> char \<Rightarrow> string \<Rightarrow> string list" where
  "str_splitN 0 sep s = []"
| "str_splitN (Suc 0) sep s = [s]"
| "str_splitN (Suc (Suc n)) sep s =
     (case dropWhile (\<lambda>c. c \<noteq> sep) s of
        [] \<Rightarrow> [s]
      | c # rest \<Rightarrow> takeWhile (\<lambda>c. c \<noteq> sep) s # str_splitN (Suc n) sep rest)"

lemma str_splitN_Cons [simp]:
  "sep \<notin> set f \<Longrightarrow> str_splitN (Suc (Suc n)) sep (f @ sep # rest) = f # str_splitN (Suc n) sep rest"
proof -
  assume f: "sep \<notin> set f"
  then have "\<forall>x \<in> set f. x \<noteq> sep" by auto
  then show ?thesis by (simp add: dropWhile_append2 takeWhile_append2)
qed

text \<open>\<open>strings.Replace(s, c, "", -1)\<close> for one octet.\<close>

definition str_remove :: "char \<Rightarrow> string \<Rightarrow> string" where
  "str_remove c s = filter (\<lambda>d. d \<noteq> c) s"

end
