(* ===== verification/SourceSink.thy ===== *)
theory SourceSink
  imports IOHelper GoPaths
begin

text \<open>
  The constructors of \<open>iohelper/source\<close> and \<open>iohelper/sink\<close> for files, strings and JSON, and \<open>Reader\<close> and \<open>Bytes\<close> of a sink.
  An open file is a name and an offset, which reading and writing share.
\<close>

section \<open>Open files\<close>

record os_file =
  of_name :: string
  of_pos :: nat

definition file_data :: "file_system \<Rightarrow> os_file \<Rightarrow> byte list" where
  "file_data fs f = (case fs (of_name f) of Some data \<Rightarrow> data | None \<Rightarrow> [])"

definition write_at :: "nat \<Rightarrow> byte list \<Rightarrow> byte list \<Rightarrow> byte list" where
  "write_at pos p data = take pos data @ replicate (pos - length data) 0 @ p @ drop (pos + length p) data"

definition file_write :: "(file_system \<times> os_file) writer" where
  "file_write st p =
     (case st of (fs, f) \<Rightarrow>
        (length p, None,
         (fs(of_name f \<mapsto> write_at (of_pos f) p (file_data fs f)), f\<lparr>of_pos := of_pos f + length p\<rparr>)))"

definition file_read :: "(file_system \<times> os_file) reader" where
  "file_read st k =
     (case st of (fs, f) \<Rightarrow>
        let got = take k (drop (of_pos f) (file_data fs f)) in
        (got, if got = [] \<and> k > 0 then Some EOF else None, (fs, f\<lparr>of_pos := of_pos f + length got\<rparr>)))"

section \<open>Constructors\<close>

definition source_NewString :: "string \<Rightarrow> (chunk_reader, 'f) source" where
  "source_NewString p = source_New (bytes_NewReader (map (\<lambda>c. word_of_int (of_char c)) p))"

definition source_NewJsonFrom :: "('o \<Rightarrow> string + byte list) \<Rightarrow> 'o \<Rightarrow> string + (chunk_reader, 'f) source" where
  "source_NewJsonFrom marshal ob = (case marshal ob of Inl err \<Rightarrow> Inl err | Inr data \<Rightarrow> Inr (source_NewBytes data))"

definition source_NewFile :: "string \<Rightarrow> file_system \<Rightarrow> file_error + (file_system \<times> os_file, 'f) source" where
  "source_NewFile fn fs =
     (case fs fn of
        None \<Rightarrow> Inl OpenFailed
      | Some _ \<Rightarrow> Inr ((source_New (fs, \<lparr>of_name = fn, of_pos = 0\<rparr>))\<lparr>src_Name := path_Base fn\<rparr>))"

text \<open>
  Where a sink writes to, as far as its methods tell destinations apart: \<open>Bytes\<close> asks for a method \<open>Bytes\<close>, which a buffer
  has, then for a reader. A connection reads what comes from the other side, until an error or the end.
\<close>

datatype sink_dest =
    ToBuffer "byte list"
  | ToFile_dest file_system os_file
  | ToConnection "byte list" "byte list" "string option"
  | ToDiscard "byte list"

fun dest_write :: "sink_dest writer" where
  "dest_write (ToBuffer w) p = (length p, None, ToBuffer (w @ p))"
| "dest_write (ToFile_dest fs f) p = (case file_write (fs, f) p of (n, err, (fs', f')) \<Rightarrow> (n, err, ToFile_dest fs' f'))"
| "dest_write (ToConnection sent inc e) p = (length p, None, ToConnection (sent @ p) inc e)"
| "dest_write (ToDiscard w) p = (length p, None, ToDiscard (w @ p))"

definition sink_NewFile :: "(string \<Rightarrow> bool) \<Rightarrow> string \<Rightarrow> file_system \<Rightarrow> file_error + (sink_dest, 'f) sink" where
  "sink_NewFile can_create fn fs =
     (if \<not> can_create fn then Inl CreateFailed
      else Inr (sink_New (ToFile_dest (fs(fn \<mapsto> [])) \<lparr>of_name = fn, of_pos = 0\<rparr>)))"

definition sink_NewDiscard :: "(sink_dest, 'f) sink" where
  "sink_NewDiscard = sink_New (ToDiscard [])"

section \<open>What a sink gives back\<close>

definition sink_Reader :: "(sink_dest, 'f) sink \<Rightarrow> sink_dest option" where
  "sink_Reader snk = (case snk_writer snk of ToDiscard w \<Rightarrow> None | d \<Rightarrow> Some d)"

text \<open>\<open>ioutil.ReadAll\<close>, and a panic if it fails.\<close>

definition sink_Bytes :: "(sink_dest, 'f) sink \<Rightarrow> (byte list \<times> (sink_dest, 'f) sink) outcome" where
  "sink_Bytes snk =
     (case snk_writer snk of
        ToBuffer w \<Rightarrow> Returns (w, snk)
      | ToFile_dest fs f \<Rightarrow>
          let data = drop (of_pos f) (file_data fs f)
          in Returns (data, snk\<lparr>snk_writer := ToFile_dest fs (f\<lparr>of_pos := of_pos f + length data\<rparr>)\<rparr>)
      | ToConnection sent inc None \<Rightarrow> Returns (inc, snk\<lparr>snk_writer := ToConnection sent [] None\<rparr>)
      | ToConnection sent inc (Some e) \<Rightarrow> Panics
      | ToDiscard w \<Rightarrow> Returns ([], snk))"

definition write_all :: "'f process \<Rightarrow> byte list list \<Rightarrow> (sink_dest, 'f) sink \<Rightarrow> (sink_dest, 'f) sink" where
  "write_all proc ps snk = fold (\<lambda>p s. snd (sink_Write proc dest_write p s)) ps snk"

lemma sink_Write_plain:
  "snk_filters snk = [] \<Longrightarrow> snd (sink_Write proc dest_write p snk) =
     (if p = [] then snk else snk\<lparr>snk_writer := snd (snd (dest_write (snk_writer snk) p))\<rparr>)"
  by (auto simp: sink_Write_def split: prod.splits)

lemma dest_write_Nil: "snd (snd (dest_write (ToFile_dest fs f) [])) =
    ToFile_dest (fs(of_name f \<mapsto> write_at (of_pos f) [] (file_data fs f))) f"
  by (simp add: file_write_def)

lemma write_at_end: "length data = pos \<Longrightarrow> write_at pos p data = data @ p"
  by (simp add: write_at_def)

lemma write_all_file:
  "snk_filters snk = [] \<Longrightarrow> snk_writer snk = ToFile_dest fs f \<Longrightarrow> fs (of_name f) = Some data \<Longrightarrow> of_pos f = length data \<Longrightarrow>
   write_all proc ps snk =
     snk\<lparr>snk_writer := ToFile_dest (fs(of_name f \<mapsto> data @ concat ps)) (f\<lparr>of_pos := length (data @ concat ps)\<rparr>)\<rparr>"
proof (induction ps arbitrary: snk fs f data)
  case Nil
  then have "fs(of_name f \<mapsto> data) = fs" by auto
  with Nil show ?case by (cases f) (simp add: write_all_def)
next
  case (Cons p ps)
  let ?snk = "if p = [] then snk else snk\<lparr>snk_writer := ToFile_dest (fs(of_name f \<mapsto> data @ p)) (f\<lparr>of_pos := length (data @ p)\<rparr>)\<rparr>"
  have step: "snd (sink_Write proc dest_write p snk) = ?snk"
    using Cons.prems by (simp add: sink_Write_plain file_write_def file_data_def write_at_end)
  have all: "write_all proc (p # ps) snk = write_all proc ps ?snk"
    by (simp only: write_all_def fold_simps step)
  show ?case
  proof (cases "p = []")
    case True
    with all Cons.IH [OF Cons.prems] show ?thesis by simp
  next
    case False
    have "write_all proc ps ?snk = ?snk\<lparr>snk_writer := ToFile_dest
        ((fs(of_name f \<mapsto> data @ p))(of_name f \<mapsto> (data @ p) @ concat ps)) (f\<lparr>of_pos := length ((data @ p) @ concat ps)\<rparr>)\<rparr>"
      using Cons.IH [of ?snk "fs(of_name f \<mapsto> data @ p)" "f\<lparr>of_pos := length (data @ p)\<rparr>" "data @ p"] False Cons.prems(1)
      by (simp add: fun_upd_same del: fun_upd_apply)
    with all False show ?thesis by (simp del: fun_upd_apply)
  qed
qed

lemma write_all_buffer:
  "snk_filters snk = [] \<Longrightarrow> snk_writer snk = ToBuffer w \<Longrightarrow>
   write_all proc ps snk = snk\<lparr>snk_writer := ToBuffer (w @ concat ps)\<rparr>"
proof (induction ps arbitrary: snk w)
  case (Cons p ps)
  let ?snk = "if p = [] then snk else snk\<lparr>snk_writer := ToBuffer (w @ p)\<rparr>"
  have "snd (sink_Write proc dest_write p snk) = ?snk" using Cons.prems by (simp add: sink_Write_plain)
  then have "write_all proc (p # ps) snk = write_all proc ps ?snk" by (simp only: write_all_def fold_simps)
  with Cons.IH [of ?snk "w @ p"] Cons.prems show ?case by auto
qed (simp add: write_all_def)

text \<open>
  A buffer gives back what was written to it. A file has it, in place of what it had before, but \<open>Bytes\<close> of its sink reads
  on from where the writes ended and is empty.
\<close>

theorem bytes_of_file_sink:
  assumes "sink_NewFile can_create fn fs = Inr snk"
  shows "\<exists>fs' f snk'. snk_writer (write_all proc ps snk) = ToFile_dest fs' f \<and> fs' = fs(fn \<mapsto> concat ps)
    \<and> sink_Bytes (write_all proc ps snk) = Returns ([], snk')
    \<and> sink_Bytes (write_all proc ps (sink_New (ToBuffer []))) =
        Returns (concat ps, write_all proc ps (sink_New (ToBuffer [])))"
proof -
  from assms have snk: "snk = sink_New (ToFile_dest (fs(fn \<mapsto> [])) \<lparr>of_name = fn, of_pos = 0\<rparr>)"
    by (simp add: sink_NewFile_def split: if_splits)
  have "write_all proc ps snk = snk\<lparr>snk_writer := ToFile_dest (fs(fn \<mapsto> concat ps)) \<lparr>of_name = fn, of_pos = length (concat ps)\<rparr>\<rparr>"
    using write_all_file [of snk "fs(fn \<mapsto> [])" "\<lparr>of_name = fn, of_pos = 0\<rparr>" "[]" proc ps]
    by (simp add: snk sink_New_def)
  moreover have "write_all proc ps (sink_New (ToBuffer [])) = (sink_New (ToBuffer []))\<lparr>snk_writer := ToBuffer (concat ps)\<rparr>"
    using write_all_buffer [of "sink_New (ToBuffer [])" "[]" proc ps] by (simp add: sink_New_def)
  ultimately show ?thesis by (auto simp: sink_Bytes_def file_data_def)
qed

theorem bytes_of_file_sink_witness:
  "\<exists>snk'. sink_Bytes (write_all (filter_Process id) [[1], [2, 3]]
      (sink_New (ToFile_dest [''f'' \<mapsto> []] \<lparr>of_name = ''f'', of_pos = 0\<rparr>))) = Returns ([], snk')"
proof -
  have "sink_NewFile (\<lambda>_. True) ''f'' [''f'' \<mapsto> [9]] =
      Inr (sink_New (ToFile_dest [''f'' \<mapsto> []] \<lparr>of_name = ''f'', of_pos = 0\<rparr>) :: (sink_dest, go_filter) sink)"
    by (simp add: sink_NewFile_def)
  from bytes_of_file_sink [OF this, of "filter_Process id" "[[1], [2, 3]]"] show ?thesis by auto
qed

text \<open>A source of a file delivers it in pieces of the buffer, from its start, and then the end of file.\<close>

lemma file_read_step:
  "fs (of_name f) = Some data \<Longrightarrow> 0 < k \<Longrightarrow>
   file_read (fs, f) k =
     (if length data \<le> of_pos f then ([], Some EOF, (fs, f))
      else (take k (drop (of_pos f) data), None, (fs, f\<lparr>of_pos := min (length data) (of_pos f + k)\<rparr>)))"
  by (auto simp: file_read_def file_data_def Let_def)

lemma file_reads:
  "fs (of_name f) = Some data \<Longrightarrow> 0 < k \<Longrightarrow> of_pos f \<le> length data \<Longrightarrow>
   ((\<lambda>st. snd (snd (file_read st k))) ^^ n) (fs, f) = (fs, f\<lparr>of_pos := min (length data) (of_pos f + n * k)\<rparr>)"
proof (induction n)
  case (Suc n)
  then show ?case by (auto simp: file_read_step min_def)
qed (simp add: min_absorb2)

theorem file_source_delivers:
  assumes "source_NewFile fn fs = Inr src" "0 < k"
  shows "\<exists>data. fs fn = Some data
    \<and> fst (file_read (((\<lambda>st. snd (snd (file_read st k))) ^^ n) (src_reader src)) k) = take k (drop (n * k) data)
    \<and> fst (snd (file_read (((\<lambda>st. snd (snd (file_read st k))) ^^ n) (src_reader src)) k)) =
        (if length data \<le> n * k then Some EOF else None)"
proof -
  from assms(1) obtain data where d: "fs fn = Some data" and src: "src_reader src = (fs, \<lparr>of_name = fn, of_pos = 0\<rparr>)"
    by (auto simp: source_NewFile_def source_New_def split: option.splits)
  have "((\<lambda>st. snd (snd (file_read st k))) ^^ n) (src_reader src) = (fs, \<lparr>of_name = fn, of_pos = min (length data) (n * k)\<rparr>)"
    using file_reads [of fs "\<lparr>of_name = fn, of_pos = 0\<rparr>" data k n] d assms(2) src by simp
  with d assms(2) show ?thesis by (auto simp: file_read_step min_def)
qed

end
