(* ===== verification/Crypto.thy ===== *)
theory Crypto
  imports IOPump
begin

text \<open>
  \<open>codec/aescbc.go\<close> and \<open>codec/aescfb.go\<close>: the CBC and CFB filters, their padding, and the choice of a key.
  AES itself is an argument, the encryption and the decryption of a block under a key, and so is SHA-256;
  the modes of operation of package \<open>cipher\<close> are defined over it.
\<close>

section \<open>CBC\<close>

definition BlockSize :: nat where "BlockSize = 16"

definition xor_bytes :: "byte list \<Rightarrow> byte list \<Rightarrow> byte list" where
  "xor_bytes xs ys = map2 (XOR) xs ys"

text \<open>\<open>CryptBlocks\<close> in both directions: the output, and the vector for the next call.\<close>

function cbc_encrypt :: "(byte list \<Rightarrow> byte list) \<Rightarrow> byte list \<Rightarrow> byte list \<Rightarrow> byte list \<times> byte list" where
  "cbc_encrypt E iv p =
     (if length p < BlockSize then ([], iv)
      else
        let c = E (xor_bytes iv (take BlockSize p));
            r = cbc_encrypt E c (drop BlockSize p)
        in (c @ fst r, snd r))"
  by pat_completeness auto
termination by (relation "measure (\<lambda>(E, iv, p). length p)") (auto simp: BlockSize_def)

function cbc_decrypt :: "(byte list \<Rightarrow> byte list) \<Rightarrow> byte list \<Rightarrow> byte list \<Rightarrow> byte list \<times> byte list" where
  "cbc_decrypt D iv c =
     (if length c < BlockSize then ([], iv)
      else
        let r = cbc_decrypt D (take BlockSize c) (drop BlockSize c)
        in (xor_bytes iv (D (take BlockSize c)) @ fst r, snd r))"
  by pat_completeness auto
termination by (relation "measure (\<lambda>(D, iv, c). length c)") (auto simp: BlockSize_def)

declare cbc_encrypt.simps [simp del] cbc_decrypt.simps [simp del]

datatype cbc_filter = CBC (cbc_encrypts: bool) (cbc_key: "byte list") (cbc_iv: "byte list")

text \<open>The padding of a chunk: none if it is made of whole blocks.\<close>

definition cbc_pad :: "byte list \<Rightarrow> byte list" where
  "cbc_pad p =
     (let remainder = length p mod BlockSize in
      if remainder \<noteq> 0 then p @ replicate (BlockSize - remainder) (word_of_nat (BlockSize - remainder)) else p)"

record aes =
  aes_encrypt :: "byte list \<Rightarrow> byte list \<Rightarrow> byte list"
  aes_decrypt :: "byte list \<Rightarrow> byte list \<Rightarrow> byte list"

definition cbc_crypt :: "aes \<Rightarrow> cbc_filter \<Rightarrow> byte list \<Rightarrow> byte list \<times> cbc_filter" where
  "cbc_crypt a f p =
     (case f of CBC enc key iv \<Rightarrow>
        (case (if enc then cbc_encrypt (aes_encrypt a key) iv p else cbc_decrypt (aes_decrypt a key) iv p) of
           (out, iv') \<Rightarrow> (out, CBC enc key iv')))"

definition cbc_Process :: "aes \<Rightarrow> cbc_filter process" where
  "cbc_Process a f p eof =
     (case cbc_crypt a f (cbc_pad (slice_bytes p)) of
        (out, f') \<Rightarrow> (Fresh out, if eof then Some EOF else None, f'))"

text \<open>
  \<open>NewCBCCrypto\<close>: with no vector one is drawn at random and the filter encrypts, with one it decrypts; a
  vector of another length is a panic of package \<open>cipher\<close>. \<open>rnd\<close> is what reading 16 random octets gives.
\<close>

datatype crypto_error = KeySizeError nat | RandomFailed string | PumpFailed ioerr

definition aes_NewCipher :: "byte list \<Rightarrow> crypto_error option" where
  "aes_NewCipher key = (if length key \<in> {16, 24, 32} then None else Some (KeySizeError (length key)))"

definition NewCBCCrypto :: "string + byte list \<Rightarrow> byte list \<Rightarrow> byte list option \<Rightarrow> (crypto_error + cbc_filter) outcome" where
  "NewCBCCrypto rnd key ivo =
     (case aes_NewCipher key of
        Some err \<Rightarrow> Returns (Inl err)
      | None \<Rightarrow>
          (case ivo of
             None \<Rightarrow> (case rnd of Inl err \<Rightarrow> Returns (Inl (RandomFailed err)) | Inr iv \<Rightarrow> Returns (Inr (CBC True key iv)))
           | Some iv \<Rightarrow> if length iv \<noteq> BlockSize then Panics else Returns (Inr (CBC False key iv))))"

definition Decrypt ::
    "aes \<Rightarrow> string + byte list \<Rightarrow> byte list \<Rightarrow> byte list \<Rightarrow> byte list option \<Rightarrow> (crypto_error + byte list) outcome option" where
  "Decrypt a rnd encrypted key ivo =
     (case NewCBCCrypto rnd key ivo of
        Panics \<Rightarrow> Some Panics
      | Returns (Inl err) \<Rightarrow> Some (Returns (Inl err))
      | Returns (Inr inst) \<Rightarrow>
          map_option (\<lambda>r. case r of
              Panics \<Rightarrow> Panics
            | Returns ((n, Some err), src, snk) \<Rightarrow> Returns (Inl (PumpFailed err))
            | Returns ((n, None), src, snk) \<Rightarrow> Returns (Inr (snk_writer snk)))
            (pump_All (cbc_Process a) chunk_read (cbc_Process a) buffer_write
               (source_Chain [inst] (source_NewBytes encrypted)) sink_NewBuffer))"

section \<open>CFB\<close>

text \<open>
  \<open>XORKeyStream\<close>: the octets of the key stream left, and the octets of the cipher text that make the next
  block of it, the vector at first.
\<close>

fun cfb_stream ::
    "(byte list \<Rightarrow> byte list) \<Rightarrow> bool \<Rightarrow> byte list \<times> byte list \<Rightarrow> byte list \<Rightarrow> byte list \<times> byte list \<times> byte list" where
  "cfb_stream E dec (ks, reg) [] = ([], ks, reg)"
| "cfb_stream E dec (ks, reg) (b # bs) =
     (let (ks', reg') = (if ks = [] then (E reg, []) else (ks, reg));
          out = b XOR hd ks';
          r = cfb_stream E dec (tl ks', reg' @ [if dec then b else out]) bs
      in (out # fst r, snd r))"

datatype cfb_filter = CFB (cfb_decrypts: bool) (cfb_key: "byte list") (cfb_state: "byte list \<times> byte list")

definition cfb_Process :: "aes \<Rightarrow> cfb_filter process" where
  "cfb_Process a f p eof =
     (case f of CFB dec key st \<Rightarrow>
        (case cfb_stream (aes_encrypt a key) dec st (slice_bytes p) of
           (out, st') \<Rightarrow> (Fresh out, if eof then Some EOF else None, CFB dec key st')))"

definition NewCFBCrytpo :: "string + byte list \<Rightarrow> byte list \<Rightarrow> byte list option \<Rightarrow> (crypto_error + cfb_filter) outcome" where
  "NewCFBCrytpo rnd key ivo =
     (case aes_NewCipher key of
        Some err \<Rightarrow> Returns (Inl err)
      | None \<Rightarrow>
          (case ivo of
             None \<Rightarrow> (case rnd of Inl err \<Rightarrow> Returns (Inl (RandomFailed err)) | Inr iv \<Rightarrow> Returns (Inr (CFB False key ([], iv))))
           | Some iv \<Rightarrow> if length iv \<noteq> BlockSize then Panics else Returns (Inr (CFB True key ([], iv)))))"

section \<open>Keys\<close>

definition AesKey :: "(byte list \<Rightarrow> byte list) \<Rightarrow> byte list \<Rightarrow> byte list \<Rightarrow> byte list" where
  "AesKey sha256 nonce key =
     (let l = length nonce + length key in
      if l = 16 \<or> l = 24 \<or> l = 32 then nonce @ key else sha256 (nonce @ key))"

text \<open>
  \<open>GetNonce\<close>: \<open>ReadFull\<close> fills a block with what it gets from \<open>rand\<close>, and the rest stays zero. A nonce is always a block, and so
  an initial vector the filters take.
\<close>

definition GetNonce :: "(nat \<Rightarrow> byte list \<times> string option) \<Rightarrow> byte list \<times> string option" where
  "GetNonce read = (case read BlockSize of (bs, err) \<Rightarrow> (take BlockSize (bs @ replicate BlockSize 0), err))"

lemma GetNonce_block: "length (fst (GetNonce read)) = BlockSize"
  by (auto simp: GetNonce_def BlockSize_def split: prod.split)

lemma GetNonce_iv:
  "NewCFBCrytpo rnd key (Some (fst (GetNonce read))) \<noteq> Panics" "NewCBCCrypto rnd key (Some (fst (GetNonce read))) \<noteq> Panics"
  by (auto simp: NewCFBCrytpo_def NewCBCCrypto_def GetNonce_block split: sum.split option.split)

lemma AesKey_valid:
  "(\<And>m. length (sha256 m) = 32) \<Longrightarrow> aes_NewCipher (AesKey sha256 nonce key) = None"
  by (simp add: AesKey_def aes_NewCipher_def Let_def)

section \<open>The filters in a pump\<close>

definition cbc_emit where "cbc_emit a f c = fst (cbc_crypt a f (cbc_pad c))"
definition cbc_next where "cbc_next a f c = snd (cbc_crypt a f (cbc_pad c))"

interpretation cbc: stream_filter "cbc_Process a" "cbc_emit a" "cbc_next a" "cbc_emit a" "cbc_next a" for a
  by unfold_locales (auto simp: cbc_Process_def cbc_emit_def cbc_next_def split: prod.splits)

interpretation cbcpump: pump_chain "cbc_Process a" "cbc_emit a" "cbc_next a" "cbc_emit a" "cbc_next a"
    "cbc_Process a" "cbc_emit a" "cbc_next a" "cbc_emit a" "cbc_next a" for a
  by unfold_locales

definition cfb_emit where
  "cfb_emit a f c = fst (cfb_stream (aes_encrypt a (cfb_key f)) (cfb_decrypts f) (cfb_state f) c)"

definition cfb_next where
  "cfb_next a f c =
     CFB (cfb_decrypts f) (cfb_key f) (snd (cfb_stream (aes_encrypt a (cfb_key f)) (cfb_decrypts f) (cfb_state f) c))"

interpretation cfb: stream_filter "cfb_Process a" "cfb_emit a" "cfb_next a" "cfb_emit a" "cfb_next a" for a
  by unfold_locales
    (auto simp: cfb_Process_def cfb_emit_def cfb_next_def split: prod.splits cfb_filter.splits)

interpretation cfbpump: pump_chain "cfb_Process a" "cfb_emit a" "cfb_next a" "cfb_emit a" "cfb_next a"
    "cfb_Process a" "cfb_emit a" "cfb_next a" "cfb_emit a" "cfb_next a" for a
  by unfold_locales

text \<open>What a source with one such filter hands out, read by read.\<close>

lemma source_outs_single:
  "source_outs em up em [f] (c # cs) l = em f c # source_outs em up em [up f c] cs l"
  by simp

section \<open>CFB: any chunking\<close>

lemma cfb_stream_append:
  "cfb_stream E dec s (p @ q) =
     (fst (cfb_stream E dec s p) @ fst (cfb_stream E dec (snd (cfb_stream E dec s p)) q),
      snd (cfb_stream E dec (snd (cfb_stream E dec s p)) q))"
  by (induction E dec s p rule: cfb_stream.induct) (auto simp: Let_def split: prod.splits if_splits)

lemma cfb_stream_inverse:
  "cfb_stream E True s (fst (cfb_stream E False s p)) = (p, snd (cfb_stream E False s p))"
proof (induction E "False" s p rule: cfb_stream.induct)
  case (2 E ks reg b bs)
  then show ?case by (cases "ks = []") (simp_all add: Let_def xor.assoc)
qed simp

lemma cfb_emit_append: "cfb_emit a f (p @ q) = cfb_emit a f p @ cfb_emit a (cfb_next a f p) q"
  by (simp add: cfb_emit_def cfb_next_def cfb_stream_append)

lemma cfb_outs:
  "concat (source_outs (cfb_emit a) (cfb_next a) (cfb_emit a) [f] cs l) = cfb_emit a f (concat cs @ l)"
proof (induction cs arbitrary: f)
  case (Cons c cs)
  then show ?case unfolding source_outs_single by (simp add: cfb_emit_append)
qed simp

definition cfb_run where
  "cfb_run a f src snk =
     pump_All (cfb_Process a) chunk_read (cfb_Process a) buffer_write (source_Chain [f] src) snk"

lemma cfb_pump:
  assumes "cr_end (src_reader src) = EOF" "src_filters src = []"
  shows "\<exists>n src' snk. cfb_run a f src sink_NewBuffer = Some (Returns ((n, None), src', snk))
    \<and> snk_writer snk = cfb_emit a f (concat (cr_chunks (src_reader src)))"
proof -
  obtain cs l where d: "delivered buffer_size (src_reader src) = (cs, l)" by fastforce
  then have "concat cs @ l = concat (cr_chunks (src_reader src))"
    using delivered_concat [of buffer_size "src_reader src"] by simp
  with cfbpump.pump_All_spec [of "source_Chain [f] src" cs l a sink_NewBuffer] assms d
    fold_sink_plain [of "sink_NewBuffer :: (byte list, cfb_filter) sink"] cfb_outs [of a f cs l]
  show ?thesis by (auto simp: cfb_run_def source_Chain_def sink_NewBuffer_def sink_New_def)
qed

text \<open>
  C14. What a CFB filter encrypts while a source is pumped, a CFB filter with the same key and vector
  decrypts to the data of the source, however the two readers cut their data into chunks.
\<close>

theorem cfb_round_trip:
  assumes "length key \<in> {16, 24, 32}" "length iv = BlockSize"
    and "cr_end (src_reader src) = EOF" "src_filters src = []"
    and "cr_end (src_reader src2) = EOF" "src_filters src2 = []"
    and "NewCFBCrytpo (Inr iv) key None = Returns (Inr enc)" "cfb_run a enc src sink_NewBuffer = Some (Returns ((n, None), s1, k1))"
    and "concat (cr_chunks (src_reader src2)) = snk_writer k1"
  shows "\<exists>dec n' s2 k2. NewCFBCrytpo rnd key (Some iv) = Returns (Inr dec)
    \<and> cfb_run a dec src2 sink_NewBuffer = Some (Returns ((n', None), s2, k2))
    \<and> snk_writer k2 = concat (cr_chunks (src_reader src))"
proof -
  have enc: "enc = CFB False key ([], iv)" and dec: "NewCFBCrytpo rnd key (Some iv) = Returns (Inr (CFB True key ([], iv)))"
    using assms(1,2,7) by (auto simp: NewCFBCrytpo_def aes_NewCipher_def)
  have "concat (cr_chunks (src_reader src2)) = cfb_emit a enc (concat (cr_chunks (src_reader src)))"
    using cfb_pump [OF assms(3,4), of a enc] assms(8,9) by auto
  then have "cfb_emit a (CFB True key ([], iv)) (concat (cr_chunks (src_reader src2))) = concat (cr_chunks (src_reader src))"
    by (simp add: enc cfb_emit_def cfb_stream_inverse)
  with cfb_pump [OF assms(5,6), of a "CFB True key ([], iv)"] dec show ?thesis by auto
qed

definition demo_aes :: aes where "demo_aes = \<lparr>aes_encrypt = (\<lambda>k. rev), aes_decrypt = (\<lambda>k. rev)\<rparr>"
definition demo_key :: "byte list" where "demo_key = replicate 16 0"

lemma concat_NewBytes: "concat (cr_chunks (src_reader (source_NewBytes p))) = p"
  "cr_end (src_reader (source_NewBytes p)) = EOF" "src_filters (source_NewBytes p) = []"
  by (simp_all add: source_NewBytes_def source_New_def bytes_NewReader_def)

theorem cfb_round_trip_witness:
  "\<exists>n s1 k1 n' s2 k2. cfb_run demo_aes (CFB False demo_key ([], demo_key)) (source_NewBytes [1, 2, 3]) sink_NewBuffer =
      Some (Returns ((n, None), s1, k1))
    \<and> cfb_run demo_aes (CFB True demo_key ([], demo_key)) (source_NewBytes (snk_writer k1)) sink_NewBuffer =
      Some (Returns ((n', None), s2, k2))
    \<and> snk_writer k2 = [1, 2, 3]"
proof -
  let ?enc = "CFB False demo_key ([], demo_key)"
  obtain n s1 k1 where run: "cfb_run demo_aes ?enc (source_NewBytes [1, 2, 3]) sink_NewBuffer = Some (Returns ((n, None), s1, k1))"
    using cfb_pump [of "source_NewBytes [1, 2, 3]" demo_aes ?enc] by (auto simp: concat_NewBytes)
  have key: "length demo_key \<in> {16, 24, 32}" "length demo_key = BlockSize"
    and new: "NewCFBCrytpo (Inr demo_key) demo_key None = Returns (Inr ?enc)"
    "NewCFBCrytpo (Inr []) demo_key (Some demo_key) = Returns (Inr (CFB True demo_key ([], demo_key)))"
    by (simp_all add: demo_key_def BlockSize_def NewCFBCrytpo_def aes_NewCipher_def)
  from cfb_round_trip [OF key concat_NewBytes(2,3) concat_NewBytes(2,3) new(1) run, of "snk_writer k1" "Inr []"]
  obtain n' s2 k2 where "cfb_run demo_aes (CFB True demo_key ([], demo_key)) (source_NewBytes (snk_writer k1)) sink_NewBuffer =
      Some (Returns ((n', None), s2, k2))" "snk_writer k2 = [1, 2, 3]"
    by (auto simp: concat_NewBytes new(2))
  with run show ?thesis by blast
qed

section \<open>CBC: whole blocks\<close>

lemma xor_bytes_length [simp]: "length (xor_bytes xs ys) = min (length xs) (length ys)"
  by (simp add: xor_bytes_def)

lemma xor_bytes_cancel: "length xs = length ys \<Longrightarrow> xor_bytes xs (xor_bytes xs ys) = ys"
  unfolding xor_bytes_def
  by (induction xs ys rule: list_induct2) (simp_all flip: xor.assoc)

lemma whole_blocks_cases:
  assumes "BlockSize dvd length p"
  obtains "p = []" | b q where "p = b @ q" "length b = BlockSize" "BlockSize dvd length q"
proof (cases "p = []")
  case False
  with assms have "BlockSize \<le> length p" by (simp add: dvd_imp_le)
  with assms that(2) [of "take BlockSize p" "drop BlockSize p"] show ?thesis by (simp add: dvd_diff_nat)
qed (use that in simp)

lemma cbc_encrypt_block:
  "length b = BlockSize \<Longrightarrow> cbc_encrypt E iv (b @ q) =
     (E (xor_bytes iv b) @ fst (cbc_encrypt E (E (xor_bytes iv b)) q), snd (cbc_encrypt E (E (xor_bytes iv b)) q))"
  by (subst cbc_encrypt.simps) (simp add: Let_def)

lemma cbc_decrypt_block:
  "length b = BlockSize \<Longrightarrow> cbc_decrypt D iv (b @ q) =
     (xor_bytes iv (D b) @ fst (cbc_decrypt D b q), snd (cbc_decrypt D b q))"
  by (subst cbc_decrypt.simps) (simp add: Let_def)

lemma cbc_Nil [simp]: "cbc_encrypt E iv [] = ([], iv)" "cbc_decrypt D iv [] = ([], iv)"
  by (subst cbc_encrypt.simps cbc_decrypt.simps; simp add: BlockSize_def)+

lemma cbc_encrypt_append:
  assumes "BlockSize dvd length p"
  shows "cbc_encrypt E iv (p @ q) =
    (fst (cbc_encrypt E iv p) @ fst (cbc_encrypt E (snd (cbc_encrypt E iv p)) q), snd (cbc_encrypt E (snd (cbc_encrypt E iv p)) q))"
  using assms
proof (induction "length p" arbitrary: p iv rule: less_induct)
  case less
  show ?case
  proof (rule whole_blocks_cases [OF less.prems])
    fix b r
    assume p: "p = b @ r" "length b = BlockSize" "BlockSize dvd length r"
    then have "length r < length p" by (simp add: BlockSize_def)
    from less.hyps [OF this p(3)] p(1,2) show ?thesis by (simp add: cbc_encrypt_block)
  qed simp
qed

lemma cbc_decrypt_append:
  assumes "BlockSize dvd length p"
  shows "cbc_decrypt D iv (p @ q) =
    (fst (cbc_decrypt D iv p) @ fst (cbc_decrypt D (snd (cbc_decrypt D iv p)) q), snd (cbc_decrypt D (snd (cbc_decrypt D iv p)) q))"
  using assms
proof (induction "length p" arbitrary: p iv rule: less_induct)
  case less
  show ?case
  proof (rule whole_blocks_cases [OF less.prems])
    fix b r
    assume p: "p = b @ r" "length b = BlockSize" "BlockSize dvd length r"
    then have "length r < length p" by (simp add: BlockSize_def)
    from less.hyps [OF this p(3)] p(1,2) show ?thesis by (simp add: cbc_decrypt_block)
  qed simp
qed

lemma cbc_inverse:
  assumes "\<And>b. length b = BlockSize \<Longrightarrow> length (E b) = BlockSize \<and> D (E b) = b"
    and "BlockSize dvd length p" "length iv = BlockSize"
  shows "cbc_decrypt D iv (fst (cbc_encrypt E iv p)) = (p, snd (cbc_encrypt E iv p))
    \<and> length (fst (cbc_encrypt E iv p)) = length p \<and> length (snd (cbc_encrypt E iv p)) = BlockSize"
  using assms(2,3)
proof (induction "length p" arbitrary: p iv rule: less_induct)
  case less
  show ?case
  proof (rule whole_blocks_cases [OF less.prems(1)])
    fix b r
    assume p: "p = b @ r" "length b = BlockSize" "BlockSize dvd length r"
    then have len: "length r < length p" by (simp add: BlockSize_def)
    have b: "length (xor_bytes iv b) = BlockSize" "xor_bytes iv (xor_bytes iv b) = b"
      using p(2) less.prems(2) by (simp_all add: xor_bytes_cancel)
    from less.hyps [OF len p(3), of "E (xor_bytes iv b)"] assms(1) [OF b(1)] b(2) p(1,2) show ?thesis
      by (simp add: cbc_encrypt_block cbc_decrypt_block)
  qed (use less.prems in simp)
qed

lemma cbc_pad_blocks [simp]: "BlockSize dvd length (cbc_pad p)" "BlockSize dvd length p \<Longrightarrow> cbc_pad p = p"
proof -
  have "(l + (BlockSize - l mod BlockSize)) mod BlockSize = 0" for l
    unfolding BlockSize_def by presburger
  then show "BlockSize dvd length (cbc_pad p)" by (simp add: cbc_pad_def Let_def dvd_eq_mod_eq_0)
qed (simp add: cbc_pad_def dvd_eq_mod_eq_0)

lemma cbc_emit_simps:
  "cbc_emit a (CBC True key iv) c = fst (cbc_encrypt (aes_encrypt a key) iv (cbc_pad c))"
  "cbc_emit a (CBC False key iv) c = fst (cbc_decrypt (aes_decrypt a key) iv (cbc_pad c))"
  "cbc_next a (CBC True key iv) c = CBC True key (snd (cbc_encrypt (aes_encrypt a key) iv (cbc_pad c)))"
  "cbc_next a (CBC False key iv) c = CBC False key (snd (cbc_decrypt (aes_decrypt a key) iv (cbc_pad c)))"
  by (simp_all add: cbc_emit_def cbc_next_def cbc_crypt_def split: prod.split)

lemma cbc_encrypt_outs:
  assumes "length iv = BlockSize" "\<And>b. length b = BlockSize \<Longrightarrow> length (aes_encrypt a key b) = BlockSize"
  shows "concat (source_outs (cbc_emit a) (cbc_next a) (cbc_emit a) [CBC True key iv] cs l) =
    fst (cbc_encrypt (aes_encrypt a key) iv (concat (map cbc_pad cs) @ cbc_pad l))"
  using assms(1)
proof (induction cs arbitrary: iv)
  case (Cons c cs)
  have "length (snd (cbc_encrypt (aes_encrypt a key) iv (cbc_pad c))) = BlockSize"
  proof -
    have "length (snd (cbc_encrypt E v p)) = BlockSize"
      if "BlockSize dvd length p" "length v = BlockSize" "\<And>b. length b = BlockSize \<Longrightarrow> length (E b) = BlockSize" for E v p
      using that(1,2)
    proof (induction "length p" arbitrary: p v rule: less_induct)
      case less
      show ?case
      proof (rule whole_blocks_cases [OF less.prems(1)])
        fix b r
        assume p: "p = b @ r" "length b = BlockSize" "BlockSize dvd length r"
        then have "length r < length p" by (simp add: BlockSize_def)
        from less.hyps [OF this p(3)] that(3) p(1,2) less.prems(2) show ?thesis by (simp add: cbc_encrypt_block)
      qed (use less.prems in simp)
    qed
    with Cons.prems assms(2) show ?thesis by simp
  qed
  from Cons.IH [OF this] show ?case unfolding source_outs_single
    by (simp add: cbc_emit_simps cbc_encrypt_append)
qed (simp add: cbc_emit_simps)

lemma cbc_decrypt_outs:
  assumes "\<And>c. c \<in> set cs \<Longrightarrow> BlockSize dvd length c" "BlockSize dvd length l"
  shows "concat (source_outs (cbc_emit a) (cbc_next a) (cbc_emit a) [CBC False key iv] cs l) =
    fst (cbc_decrypt (aes_decrypt a key) iv (concat cs @ l))"
  using assms(1)
proof (induction cs arbitrary: iv)
  case (Cons c cs)
  then have "BlockSize dvd length c" by simp
  with Cons show ?case unfolding source_outs_single
    by (simp add: cbc_emit_simps cbc_decrypt_append)
qed (use assms(2) in \<open>simp add: cbc_emit_simps\<close>)

lemma split_chunks_blocks:
  "(\<And>c. c \<in> set cs \<Longrightarrow> BlockSize dvd length c) \<Longrightarrow> BlockSize dvd k \<Longrightarrow> c \<in> set (split_chunks k cs) \<Longrightarrow> BlockSize dvd length c"
proof (induction k cs arbitrary: c rule: split_chunks.induct)
  case (2 k d cs)
  show ?case
  proof (cases "length d \<le> k \<or> k = 0")
    case True
    then have "split_chunks k (d # cs) = d # split_chunks k cs" by (subst split_chunks.simps(2)) simp
    with 2 True show ?thesis by auto
  next
    case False
    have "BlockSize dvd length e" if "e \<in> set (drop k d # cs)" for e
      using that "2.prems"(1,2) by (auto simp: dvd_diff_nat)
    note IH = "2.IH"(2) [OF False this "2.prems"(2)]
    have "split_chunks k (d # cs) = take k d # split_chunks k (drop k d # cs)" using False by (subst split_chunks.simps(2)) simp
    with IH [of c] "2.prems" False show ?thesis by auto
  qed
qed simp

text \<open>
  C40. What a CBC filter encrypts while a source is pumped, \<open>Decrypt\<close> with the same key and vector turns
  into the chunks of the source, each padded to whole blocks: the padding of every read whose length is no
  multiple of 16 stays in the middle of the data. It is the data itself only where every read was made of
  whole blocks.
\<close>

theorem cbc_decrypts_padded_chunks:
  assumes "\<And>b. length b = BlockSize \<Longrightarrow> length (aes_encrypt a key b) = BlockSize \<and> aes_decrypt a key (aes_encrypt a key b) = b"
    and "length key \<in> {16, 24, 32}" "length iv = BlockSize"
    and "cr_end (src_reader src) = EOF" "src_filters src = []" "delivered buffer_size (src_reader src) = (cs, l)"
    and "NewCBCCrypto (Inr iv) key None = Returns (Inr enc)"
    and "pump_All (cbc_Process a) chunk_read (cbc_Process a) buffer_write (source_Chain [enc] src) sink_NewBuffer =
      Some (Returns ((n, None), s1, k1))"
  shows "Decrypt a rnd (snk_writer k1) key (Some iv) = Some (Returns (Inr (concat (map cbc_pad cs) @ cbc_pad l)))"
proof -
  let ?E = "aes_encrypt a key" and ?D = "aes_decrypt a key" and ?p = "concat (map cbc_pad cs) @ cbc_pad l"
  have blocks: "BlockSize dvd length ?p" by (induction cs) auto
  have enc: "enc = CBC True key iv" using assms(2,7) by (simp add: NewCBCCrypto_def aes_NewCipher_def)
  have "snk_writer k1 = fst (cbc_encrypt ?E iv ?p)"
    using cbcpump.pump_All_spec [of "source_Chain [enc] src" cs l a sink_NewBuffer] assms(1,3-6,8)
      fold_sink_plain [of "sink_NewBuffer :: (byte list, cbc_filter) sink"] cbc_encrypt_outs [of iv a key cs l]
    by (auto simp: source_Chain_def sink_NewBuffer_def sink_New_def enc)
  with cbc_inverse [of ?E ?D, OF assms(1) blocks assms(3)]
  have w: "BlockSize dvd length (snk_writer k1)" "fst (cbc_decrypt ?D iv (snk_writer k1)) = ?p"
    using blocks by simp_all
  let ?src = "source_Chain [CBC False key iv] (source_NewBytes (snk_writer k1))"
  let ?cs = "cr_chunks (bytes_NewReader (snk_writer k1))"
  define cs' where "cs' = split_chunks buffer_size ?cs"
  have del: "delivered buffer_size (src_reader ?src) = (cs', [])"
    by (simp add: cs'_def source_Chain_def source_NewBytes_def source_New_def bytes_NewReader_def delivered_separate)
  have all: "concat cs' = snk_writer k1" by (simp add: cs'_def bytes_NewReader_def)
  have "BlockSize dvd length c" if "c \<in> set ?cs" for c using that w(1) by (simp add: bytes_NewReader_def split: if_splits)
  then have parts: "BlockSize dvd length c" if "c \<in> set cs'" for c
    using that split_chunks_blocks [of ?cs buffer_size c] by (simp add: cs'_def buffer_size_def BlockSize_def)
  from cbcpump.pump_All_spec [OF _ del, of a sink_NewBuffer] obtain n' src' where
    "pump_All (cbc_Process a) chunk_read (cbc_Process a) buffer_write ?src sink_NewBuffer =
      Some (Returns ((n', None), src', fold (sink_feed (cbc_emit a) (cbc_next a))
        (source_outs (cbc_emit a) (cbc_next a) (cbc_emit a) [CBC False key iv] cs' []) sink_NewBuffer))"
    by (auto simp: source_Chain_def source_NewBytes_def source_New_def bytes_NewReader_def)
  moreover have "snk_writer (fold (sink_feed (cbc_emit a) (cbc_next a))
        (source_outs (cbc_emit a) (cbc_next a) (cbc_emit a) [CBC False key iv] cs' []) sink_NewBuffer) = ?p"
    using fold_sink_plain [of "sink_NewBuffer :: (byte list, cbc_filter) sink"] cbc_decrypt_outs [OF parts] all w(2)
    by (simp add: sink_NewBuffer_def sink_New_def)
  ultimately show ?thesis using assms(2,3) by (simp add: Decrypt_def NewCBCCrypto_def aes_NewCipher_def)
qed

theorem cbc_decrypts_padded_chunks_witness:
  "\<exists>n s1 k1. pump_All (cbc_Process demo_aes) chunk_read (cbc_Process demo_aes) buffer_write
      (source_Chain [CBC True demo_key demo_key] (source_New \<lparr>cr_chunks = [[1, 2, 3], [4]], cr_end = EOF, cr_with_last = False\<rparr>)) sink_NewBuffer =
        Some (Returns ((n, None), s1, k1))
    \<and> Decrypt demo_aes (Inr []) (snk_writer k1) demo_key (Some demo_key) =
        Some (Returns (Inr ([1, 2, 3] @ replicate 13 13 @ [4] @ replicate 15 15)))"
proof -
  let ?enc = "CBC True demo_key demo_key"
  let ?src = "source_New \<lparr>cr_chunks = [[1, 2, 3], [4]], cr_end = EOF, cr_with_last = False\<rparr>"
  have src: "cr_end (src_reader ?src) = EOF" "src_filters ?src = []" "delivered buffer_size (src_reader ?src) = ([[1, 2, 3], [4]], [])"
    by (simp_all add: source_New_def delivered_def buffer_size_def split_chunks_Cons)
  then obtain n s1 k1 where run: "pump_All (cbc_Process demo_aes) chunk_read (cbc_Process demo_aes) buffer_write
      (source_Chain [?enc] ?src) sink_NewBuffer = Some (Returns ((n, None), s1, k1))"
    using cbcpump.pump_All_spec [of "source_Chain [?enc] ?src" "[[1, 2, 3], [4]]" "[]" demo_aes sink_NewBuffer]
    by (auto simp: source_Chain_def)
  have key: "length demo_key \<in> {16, 24, 32}" "length demo_key = BlockSize"
    and new: "NewCBCCrypto (Inr demo_key) demo_key None = Returns (Inr ?enc)"
    by (simp_all add: demo_key_def BlockSize_def NewCBCCrypto_def aes_NewCipher_def)
  have "Decrypt demo_aes (Inr []) (snk_writer k1) demo_key (Some demo_key) =
      Some (Returns (Inr (concat (map cbc_pad [[1, 2, 3], [4]]) @ cbc_pad [])))"
    by (rule cbc_decrypts_padded_chunks [OF _ key src new run]) (simp add: demo_aes_def)
  moreover have "cbc_pad [1, 2, 3] = [1, 2, 3] @ replicate 13 13" "cbc_pad [4] = [4] @ replicate 15 15" "cbc_pad [] = []"
    by (simp_all add: cbc_pad_def BlockSize_def)
  ultimately show ?thesis using run by simp
qed

end
