(* ===== verification/KeyValue.thy ===== *)
theory KeyValue
  imports GoPrelude
begin

text \<open>
  \<open>kvdb/kvdb.go\<close>: the interface \<open>KeyValueImpl\<close> and the functions over it. The interface is the locale
  \<open>key_value_impl\<close>, with the laws an implementation promises; \<open>BoltDB\<close> and \<open>RocksDB\<close> interpret it.
  The functions take the method they call as an argument. Keys, values and set names are octet strings;
  a nil slice is the empty string where the code does not tell them apart.
\<close>

section \<open>Errors and sorted snapshots\<close>

datatype kv_error = ErrKeyNotExisted | ErrSetNotExisted | ErrEngine string | ErrNoValue string | ErrParse num_error

type_synonym snapshot = "(string \<times> string) list"

text \<open>What a cursor or an iterator walks over: the entries in the order of their keys.\<close>

definition sorted_snapshot :: "snapshot \<Rightarrow> bool" where
  "sorted_snapshot xs = sorted_wrt (<) (map fst xs)"

text \<open>\<open>Seek\<close>: the entries from the first key that is not below the given one.\<close>

definition seek :: "string \<Rightarrow> snapshot \<Rightarrow> snapshot" where
  "seek key xs = dropWhile (\<lambda>e. fst e < key) xs"

lemma sorted_snapshot_Cons [simp]:
  "sorted_snapshot (x # xs) \<longleftrightarrow> (\<forall>y \<in> set xs. fst x < fst y) \<and> sorted_snapshot xs"
  by (simp add: sorted_snapshot_def)

lemma sorted_snapshot_Nil [simp]: "sorted_snapshot []"
  by (simp add: sorted_snapshot_def)

lemma sorted_snapshot_distinct: "sorted_snapshot xs \<Longrightarrow> distinct (map fst xs)"
  unfolding sorted_snapshot_def by (induction xs) auto

lemma seek_filter: "sorted_snapshot xs \<Longrightarrow> seek key xs = filter (\<lambda>e. key \<le> fst e) xs"
proof (induction xs)
  case (Cons x xs)
  show ?case
  proof (cases "fst x < key")
    case False
    then have "key \<le> fst x" by simp
    with Cons.prems have "\<forall>y \<in> set xs. key \<le> fst y" by auto
    with False \<open>key \<le> fst x\<close> show ?thesis by (simp add: seek_def)
  qed (use Cons in \<open>simp add: seek_def not_le\<close>)
qed (simp add: seek_def)

lemma seek_Nil [simp]: "sorted_snapshot xs \<Longrightarrow> seek [] xs = xs"
  by (simp add: seek_filter)

lemma sorted_snapshot_filter: "sorted_snapshot xs \<Longrightarrow> sorted_snapshot (filter P xs)"
  by (induction xs) auto

lemma takeWhile_le_filter:
  "sorted_snapshot xs \<Longrightarrow> takeWhile (\<lambda>e. fst e \<le> b) xs = filter (\<lambda>e. fst e \<le> b) xs"
proof (induction xs)
  case (Cons x xs)
  show ?case
  proof (cases "fst x \<le> b")
    case False
    with Cons.prems have "\<forall>y \<in> set xs. \<not> fst y \<le> b" by (meson dual_order.trans less_imp_le sorted_snapshot_Cons)
    with False show ?thesis by (simp add: filter_False)
  qed (use Cons in simp)
qed simp

lemma takeWhile_less_filter:
  "sorted_snapshot xs \<Longrightarrow> takeWhile (\<lambda>e. fst e < b) xs = filter (\<lambda>e. fst e < b) xs"
proof (induction xs)
  case (Cons x xs)
  show ?case
  proof (cases "fst x < b")
    case False
    with Cons.prems have "\<forall>y \<in> set xs. \<not> fst y < b" by (meson less_trans sorted_snapshot_Cons)
    with False show ?thesis by (simp add: filter_False)
  qed (use Cons in simp)
qed simp

lemma range_slice:
  assumes "sorted_snapshot xs"
  shows "takeWhile (\<lambda>e. hi = [] \<or> fst e \<le> hi) (seek lo xs) = filter (\<lambda>e. lo \<le> fst e \<and> (hi = [] \<or> fst e \<le> hi)) xs"
proof (cases "hi = []")
  case True
  then show ?thesis using assms by (simp add: seek_filter)
next
  case False
  with takeWhile_le_filter [OF sorted_snapshot_filter [OF assms], of hi "\<lambda>e. lo \<le> fst e"] show ?thesis
    using assms by (simp add: seek_filter conj_commute)
qed

text \<open>Insertion and deletion in a snapshot: a reference for what an engine's put and delete do to it.\<close>

fun snap_put :: "string \<Rightarrow> string \<Rightarrow> snapshot \<Rightarrow> snapshot" where
  "snap_put k v [] = [(k, v)]"
| "snap_put k v ((l, w) # xs) =
     (if k < l then (k, v) # (l, w) # xs else if k = l then (k, v) # xs else (l, w) # snap_put k v xs)"

definition snap_del :: "string \<Rightarrow> snapshot \<Rightarrow> snapshot" where
  "snap_del k xs = filter (\<lambda>e. fst e \<noteq> k) xs"

lemma set_snap_put_keys: "fst ` set (snap_put k v xs) = insert k (fst ` set xs)"
  by (induction k v xs rule: snap_put.induct) auto

lemma sorted_snap_put: "sorted_snapshot xs \<Longrightarrow> sorted_snapshot (snap_put k v xs)"
proof (induction k v xs rule: snap_put.induct)
  case (2 k v l w xs)
  have "\<forall>y \<in> set (snap_put k v xs). l < fst y" if "l < k"
    using 2(2) set_snap_put_keys [of k v xs] that by (auto simp: image_iff set_eq_iff) (metis fst_conv)+
  with 2 show ?case by (auto intro: less_trans)
qed simp

lemma map_of_snap_put: "sorted_snapshot xs \<Longrightarrow> map_of (snap_put k v xs) = (map_of xs)(k \<mapsto> v)"
  by (induction k v xs rule: snap_put.induct) (auto simp: fun_eq_iff)

lemma sorted_snap_del: "sorted_snapshot xs \<Longrightarrow> sorted_snapshot (snap_del k xs)"
  by (simp add: snap_del_def sorted_snapshot_filter)

lemma map_of_snap_del: "map_of (snap_del k xs) = (map_of xs)(k := None)"
  by (induction xs) (auto simp: snap_del_def fun_eq_iff)

lemma map_of_sorted_iff: "sorted_snapshot xs \<Longrightarrow> (k, v) \<in> set xs \<longleftrightarrow> map_of xs k = Some v"
  using sorted_snapshot_distinct [of xs] by simp

section \<open>The functions over an implementation\<close>

definition PutInt64 where
  "PutInt64 put s bucket key (val :: i64) = put s bucket key (FormatInt (sint val))"

definition GetInt64 :: "('s \<Rightarrow> 'b \<Rightarrow> string \<Rightarrow> kv_error + string) \<Rightarrow> 's \<Rightarrow> 'b \<Rightarrow> string \<Rightarrow> kv_error + i64" where
  "GetInt64 get s bucket key =
     (case get s bucket key of
        Inl err \<Rightarrow> Inl err
      | Inr data \<Rightarrow>
          (case ParseInt data of Inl e \<Rightarrow> Inl (ErrParse e) | Inr i \<Rightarrow> Inr (word_of_int i)))"

definition kvdb_Get ::
    "('s \<Rightarrow> 'b \<Rightarrow> string \<Rightarrow> bool) \<Rightarrow> ('s \<Rightarrow> 'b \<Rightarrow> string \<Rightarrow> kv_error + string) \<Rightarrow> 's \<Rightarrow> 'b \<Rightarrow> string \<Rightarrow> kv_error + string" where
  "kvdb_Get exist get s bucket key = (if \<not> exist s bucket key then Inl ErrKeyNotExisted else get s bucket key)"

definition kvdb_Delete where
  "kvdb_Delete del s bucket key = del s bucket key"

section \<open>The interface\<close>

text \<open>
  The laws, for a state the operations keep and a set that can be used in it: a map from keys to values.
  Put and delete report an error or change exactly one key; \<open>Get\<close> of a key that exists returns its
  value; \<open>Exist\<close> and \<open>Range\<close> tell what is in the map.
\<close>

locale key_value_impl =
  fixes ok :: "'s \<Rightarrow> 'b \<Rightarrow> bool" and items :: "'s \<Rightarrow> 'b \<Rightarrow> string \<rightharpoonup> string"
    and put :: "'s \<Rightarrow> 'b \<Rightarrow> string \<Rightarrow> string \<Rightarrow> kv_error option \<times> 's"
    and get :: "'s \<Rightarrow> 'b \<Rightarrow> string \<Rightarrow> kv_error + string"
    and del :: "'s \<Rightarrow> 'b \<Rightarrow> string \<Rightarrow> kv_error option \<times> 's"
    and exist :: "'s \<Rightarrow> 'b \<Rightarrow> string \<Rightarrow> bool"
    and rng :: "'s \<Rightarrow> 'b \<Rightarrow> string \<Rightarrow> string \<Rightarrow> snapshot"
  assumes put_items: "ok s b \<Longrightarrow> put s b k v = (None, s') \<Longrightarrow> ok s' b \<and> items s' b = (items s b)(k \<mapsto> v)"
    and del_items: "ok s b \<Longrightarrow> del s b k = (None, s') \<Longrightarrow> ok s' b \<and> items s' b = (items s b)(k := None)"
    and get_items: "ok s b \<Longrightarrow> items s b k = Some v \<Longrightarrow> get s b k = Inr v"
    and exist_items: "ok s b \<Longrightarrow> exist s b k \<longleftrightarrow> items s b k \<noteq> None"
    and range_items: "ok s b \<Longrightarrow> sorted_snapshot (rng s b lo hi) \<and>
      (\<forall>k v. (k, v) \<in> set (rng s b lo hi) \<longleftrightarrow> items s b k = Some v \<and> lo \<le> k \<and> (hi = [] \<or> k \<le> hi))"

context key_value_impl begin

lemma get_after_put: "ok s b \<Longrightarrow> put s b k v = (None, s') \<Longrightarrow> get s' b k = Inr v"
  using put_items [of s b k v s'] get_items [of s' b k v] by simp

lemma get_other_after_put:
  "ok s b \<Longrightarrow> put s b k v = (None, s') \<Longrightarrow> k' \<noteq> k \<Longrightarrow> items s b k' = Some v' \<Longrightarrow> get s' b k' = Inr v'"
  using put_items [of s b k v s'] get_items [of s' b k' v'] by simp

lemma exist_after: "ok s b \<Longrightarrow> put s b k v = (None, s') \<Longrightarrow> exist s' b k"
  "ok s b \<Longrightarrow> del s b k = (None, s') \<Longrightarrow> \<not> exist s' b k"
  using put_items [of s b k v s'] del_items [of s b k s'] exist_items [of s' b k] by simp_all

lemma kvdb_Get_spec:
  "ok s b \<Longrightarrow> kvdb_Get exist get s b k = (case items s b k of None \<Rightarrow> Inl ErrKeyNotExisted | Some v \<Rightarrow> Inr v)"
  using exist_items [of s b k] get_items [of s b k] by (auto simp: kvdb_Get_def split: option.split)

lemma int64_round_trip:
  "ok s b \<Longrightarrow> PutInt64 put s b k val = (None, s') \<Longrightarrow> GetInt64 get s' b k = Inr val"
  using get_after_put [of s b k "FormatInt (sint val)" s'] ParseInt_FormatInt [of "sint val"]
    sint_greater_eq [of val] sint_less [of val]
  by (simp add: PutInt64_def GetInt64_def in_i64_def)

lemma range_after_put:
  assumes "ok s b" "put s b k v = (None, s')" "lo \<le> k" "hi = [] \<or> k \<le> hi"
  shows "(k, v) \<in> set (rng s' b lo hi)"
  using put_items [OF assms(1,2)] range_items [of s' b lo hi] assms(3,4) by auto

lemma range_after_delete: "ok s b \<Longrightarrow> del s b k = (None, s') \<Longrightarrow> (k, v) \<notin> set (rng s' b lo hi)"
  using del_items [of s b k s'] range_items [of s' b lo hi] by auto

end

end
