(* ===== verification/BoltDB.thy ===== *)
theory BoltDB
  imports KeyValue
begin

text \<open>
  \<open>boltdb/kvdb.go\<close> and \<open>boltdb/boltdb.go\<close>: \<open>KeyValueImpl\<close> on \<open>github.com/boltdb/bolt\<close>. The database is an
  argument: a record of what the code calls on it, by bucket name, over an abstract state; its
  documented behaviour is the locale \<open>bolt_engine_laws\<close>. A nil bucket is \<open>None\<close>.
\<close>

section \<open>The database\<close>

record 'd bolt_engine =
  be_begin :: "'d \<Rightarrow> bool \<Rightarrow> string option"
  be_commit :: "'d \<Rightarrow> string option"
  be_items :: "'d \<Rightarrow> string \<Rightarrow> snapshot option"
  be_get :: "'d \<Rightarrow> string \<Rightarrow> string \<Rightarrow> string option"
  be_create :: "'d \<Rightarrow> string \<Rightarrow> string option \<times> 'd"
  be_put :: "'d \<Rightarrow> string \<Rightarrow> string \<Rightarrow> string \<Rightarrow> string option \<times> 'd"
  be_delete :: "'d \<Rightarrow> string \<Rightarrow> string \<Rightarrow> string option \<times> 'd"
  be_next_seq :: "'d \<Rightarrow> string \<Rightarrow> (string option \<times> 64 word) \<times> 'd"

text \<open>
  \<open>View\<close> and \<open>Update\<close>: a transaction that cannot begin, whose function fails or that does not commit
  leaves the database as it was.
\<close>

definition bolt_View :: "'d bolt_engine \<Rightarrow> ('d \<Rightarrow> kv_error + 'a) \<Rightarrow> 'd \<Rightarrow> kv_error + 'a" where
  "bolt_View eng f d = (case be_begin eng d False of Some e \<Rightarrow> Inl (ErrEngine e) | None \<Rightarrow> f d)"

definition bolt_Update :: "'d bolt_engine \<Rightarrow> ('d \<Rightarrow> kv_error option \<times> 'd) \<Rightarrow> 'd \<Rightarrow> kv_error option \<times> 'd" where
  "bolt_Update eng f d =
     (case be_begin eng d True of
        Some e \<Rightarrow> (Some (ErrEngine e), d)
      | None \<Rightarrow>
          (case f d of
             (Some err, d') \<Rightarrow> (Some err, d)
           | (None, d') \<Rightarrow>
               (case be_commit eng d' of Some e \<Rightarrow> (Some (ErrEngine e), d) | None \<Rightarrow> (None, d'))))"

definition DefaultBucket :: string where "DefaultBucket = ''default''"

definition bucket_of :: "string option \<Rightarrow> string" where
  "bucket_of b = (case b of None \<Rightarrow> DefaultBucket | Some n \<Rightarrow> n)"

section \<open>Operations\<close>

text \<open>\<open>Get\<close>: a missing key gives a nil slice and no error.\<close>

definition bolt_Get :: "'d bolt_engine \<Rightarrow> 'd \<Rightarrow> string option \<Rightarrow> string \<Rightarrow> kv_error + string" where
  "bolt_Get eng d bucket key =
     bolt_View eng (\<lambda>t. case be_items eng t (bucket_of bucket) of
        None \<Rightarrow> Inl ErrSetNotExisted
      | Some _ \<Rightarrow> Inr (case be_get eng t (bucket_of bucket) key of None \<Rightarrow> [] | Some v \<Rightarrow> v)) d"

definition lift_engine :: "string option \<times> 'd \<Rightarrow> kv_error option \<times> 'd" where
  "lift_engine r = (case r of (e, d) \<Rightarrow> (map_option ErrEngine e, d))"

definition bolt_Put :: "'d bolt_engine \<Rightarrow> 'd \<Rightarrow> string option \<Rightarrow> string \<Rightarrow> string \<Rightarrow> kv_error option \<times> 'd" where
  "bolt_Put eng d bucket key value =
     bolt_Update eng (\<lambda>t. case be_create eng t (bucket_of bucket) of
        (Some e, t') \<Rightarrow> (Some (ErrEngine e), t')
      | (None, t') \<Rightarrow> lift_engine (be_put eng t' (bucket_of bucket) key value)) d"

definition bolt_Delete :: "'d bolt_engine \<Rightarrow> 'd \<Rightarrow> string option \<Rightarrow> string \<Rightarrow> kv_error option \<times> 'd" where
  "bolt_Delete eng d bucket key =
     bolt_Update eng (\<lambda>t. case be_items eng t (bucket_of bucket) of
        None \<Rightarrow> (Some ErrSetNotExisted, t)
      | Some _ \<Rightarrow> lift_engine (be_delete eng t (bucket_of bucket) key)) d"

definition bolt_Exist :: "'d bolt_engine \<Rightarrow> 'd \<Rightarrow> string option \<Rightarrow> string \<Rightarrow> bool" where
  "bolt_Exist eng d bucket key =
     (case bolt_View eng (\<lambda>t. Inr (be_items eng t (bucket_of bucket) \<noteq> None
        \<and> be_get eng t (bucket_of bucket) key \<noteq> None)) d of Inl e \<Rightarrow> False | Inr b \<Rightarrow> b)"

text \<open>The iterators of \<open>First\<close>, \<open>Last\<close> and \<open>Seek\<close> hold a copy of one entry.\<close>

record bolt_iter =
  bi_key :: string
  bi_value :: string
  bi_valid :: bool

datatype cursor_func = CursorFirst | CursorLast | CursorSeek

definition cursor_entry :: "cursor_func \<Rightarrow> string \<Rightarrow> snapshot \<Rightarrow> (string \<times> string) option" where
  "cursor_entry name key xs =
     (let at_end = (if xs = [] then None else Some (last xs));
          at_start = (\<lambda>ys. case ys of [] \<Rightarrow> None | y # _ \<Rightarrow> Some y)
      in case name of CursorFirst \<Rightarrow> at_start xs | CursorLast \<Rightarrow> at_end | CursorSeek \<Rightarrow> at_start (seek key xs))"

definition cursorFunc :: "'d bolt_engine \<Rightarrow> 'd \<Rightarrow> string option \<Rightarrow> cursor_func \<Rightarrow> string \<Rightarrow> bolt_iter" where
  "cursorFunc eng d bucket name key =
     (case bolt_View eng (\<lambda>t. Inr (case be_items eng t (bucket_of bucket) of
        None \<Rightarrow> None | Some xs \<Rightarrow> cursor_entry name key xs)) d of
        Inr (Some (k, v)) \<Rightarrow> \<lparr>bi_key = k, bi_value = v, bi_valid = True\<rparr>
      | _ \<Rightarrow> \<lparr>bi_key = [], bi_value = [], bi_valid = False\<rparr>)"

definition bolt_Seek where "bolt_Seek eng d bucket key = cursorFunc eng d bucket CursorSeek key"
definition bolt_First where "bolt_First eng d bucket = cursorFunc eng d bucket CursorFirst []"
definition bolt_Last where "bolt_Last eng d bucket = cursorFunc eng d bucket CursorLast []"

definition bolt_iter_Close :: "bolt_iter \<Rightarrow> bolt_iter" where
  "bolt_iter_Close it = it\<lparr>bi_valid := False, bi_key := [], bi_value := []\<rparr>"

text \<open>
  \<open>Range\<close>: the entries handed to the callback. A context is asked before each call; \<open>cancelled n\<close> is its
  answer after \<open>n\<close> calls. Cancelling ends the loop without an error.
\<close>

fun bolt_range_loop :: "(nat \<Rightarrow> bool) \<Rightarrow> string \<Rightarrow> nat \<Rightarrow> snapshot \<Rightarrow> snapshot" where
  "bolt_range_loop cancelled hi n [] = []"
| "bolt_range_loop cancelled hi n (e # es) =
     (if \<not> (hi = [] \<or> fst e \<le> hi) then []
      else if cancelled n then [] else e # bolt_range_loop cancelled hi (Suc n) es)"

definition bolt_Range ::
    "'d bolt_engine \<Rightarrow> 'd \<Rightarrow> (nat \<Rightarrow> bool) option \<Rightarrow> string option \<Rightarrow> string \<Rightarrow> string \<Rightarrow> kv_error + snapshot" where
  "bolt_Range eng d ctx bucket lo hi =
     bolt_View eng (\<lambda>t. case be_items eng t (bucket_of bucket) of
        None \<Rightarrow> Inr []
      | Some xs \<Rightarrow> Inr (bolt_range_loop (case ctx of None \<Rightarrow> \<lambda>_. False | Some c \<Rightarrow> c) hi 0 (seek lo xs))) d"

text \<open>\<open>GetNextSequence\<close> runs its own transaction and rolls it back unless it commits.\<close>

definition GetNextSequence :: "'d bolt_engine \<Rightarrow> 'd \<Rightarrow> string option \<Rightarrow> (kv_error + 64 word) \<times> 'd" where
  "GetNextSequence eng d bucket =
     (case be_begin eng d True of
        Some e \<Rightarrow> (Inl (ErrEngine e), d)
      | None \<Rightarrow>
          (case be_create eng d (bucket_of bucket) of
             (Some e, t) \<Rightarrow> (Inl (ErrEngine e), d)
           | (None, t) \<Rightarrow>
               (case be_next_seq eng t (bucket_of bucket) of
                  ((Some e, n), t') \<Rightarrow> (Inl (ErrEngine e), d)
                | ((None, n), t') \<Rightarrow>
                    (case be_commit eng t' of Some e \<Rightarrow> (Inl (ErrEngine e), d) | None \<Rightarrow> (Inr n, t')))))"

text \<open>
  \<open>NewBoltDB\<close> gives an object in any case, without a handle when opening fails; \<open>open_db\<close> takes the name and whether the
  database is opened for reading only. \<open>GetBucketStats\<close> has the statistics of a bucket, which the library makes.
\<close>

record 'd bolt_db =
  bd_h :: "'d option"
  bd_Path :: string

definition NewBoltDB :: "(string \<Rightarrow> bool \<Rightarrow> string + 'd) \<Rightarrow> string \<Rightarrow> bool \<Rightarrow> 'd bolt_db \<times> kv_error option" where
  "NewBoltDB open_db fn readonly =
     (case open_db fn readonly of
        Inl e \<Rightarrow> (\<lparr>bd_h = None, bd_Path = fn\<rparr>, Some (ErrEngine e))
      | Inr d \<Rightarrow> (\<lparr>bd_h = Some d, bd_Path = fn\<rparr>, None))"

definition GetBucketStats :: "'d bolt_engine \<Rightarrow> ('d \<Rightarrow> string \<Rightarrow> 's) \<Rightarrow> 'd \<Rightarrow> string option \<Rightarrow> kv_error + 's" where
  "GetBucketStats eng stats d bucket =
     (case be_begin eng d False of
        Some e \<Rightarrow> Inl (ErrEngine e)
      | None \<Rightarrow>
          (case be_items eng d (bucket_of bucket) of
             None \<Rightarrow> Inl ErrSetNotExisted
           | Some _ \<Rightarrow> Inr (stats d (bucket_of bucket))))"

section \<open>The laws of the database\<close>

text \<open>
  What bolt documents: an open database can be read; a bucket is a sorted map; creating a bucket that
  exists changes nothing; a put or delete that reports no error changes one key of one bucket.
\<close>

locale bolt_engine_laws =
  fixes eng :: "'d bolt_engine" and inv :: "'d \<Rightarrow> bool"
  assumes readable: "inv d \<Longrightarrow> be_begin eng d False = None"
    and sorted: "inv d \<Longrightarrow> be_items eng d b = Some xs \<Longrightarrow> sorted_snapshot xs"
    and get: "inv d \<Longrightarrow> be_items eng d b = Some xs \<Longrightarrow> be_get eng d b k = map_of xs k"
    and create: "inv d \<Longrightarrow> be_create eng d b = (None, d') \<Longrightarrow> inv d' \<and>
      be_items eng d' = (be_items eng d)(b := Some (case be_items eng d b of None \<Rightarrow> [] | Some xs \<Rightarrow> xs))"
    and put: "inv d \<Longrightarrow> be_items eng d b = Some xs \<Longrightarrow> be_put eng d b k v = (None, d') \<Longrightarrow> inv d' \<and>
      be_items eng d' = (be_items eng d)(b := Some (snap_put k v xs))"
    and delete: "inv d \<Longrightarrow> be_items eng d b = Some xs \<Longrightarrow> be_delete eng d b k = (None, d') \<Longrightarrow> inv d' \<and>
      be_items eng d' = (be_items eng d)(b := Some (snap_del k xs))"

definition bolt_items :: "'d bolt_engine \<Rightarrow> 'd \<Rightarrow> string option \<Rightarrow> string \<rightharpoonup> string" where
  "bolt_items eng d bucket =
     (case be_items eng d (bucket_of bucket) of None \<Rightarrow> Map.empty | Some xs \<Rightarrow> map_of xs)"

definition bolt_entries where
  "bolt_entries eng d bucket lo hi = (case bolt_Range eng d None bucket lo hi of Inl e \<Rightarrow> [] | Inr xs \<Rightarrow> xs)"

lemma bolt_range_loop_uncancelled:
  "bolt_range_loop (\<lambda>_. False) hi n xs = takeWhile (\<lambda>e. hi = [] \<or> fst e \<le> hi) xs"
  by (induction "\<lambda>_ :: nat. False" hi n xs rule: bolt_range_loop.induct) auto

context bolt_engine_laws begin

lemma bolt_entries_eq:
  "inv d \<Longrightarrow> bolt_entries eng d b lo hi =
     filter (\<lambda>e. lo \<le> fst e \<and> (hi = [] \<or> fst e \<le> hi)) (case be_items eng d (bucket_of b) of None \<Rightarrow> [] | Some xs \<Rightarrow> xs)"
  using sorted [of d "bucket_of b"]
  by (auto simp: bolt_entries_def bolt_Range_def bolt_View_def readable bolt_range_loop_uncancelled range_slice
      split: option.split)

lemma bolt_Put_items:
  assumes "inv d" "bolt_Put eng d b k v = (None, d')"
  shows "inv d' \<and> bolt_items eng d' b = (bolt_items eng d b)(k \<mapsto> v)"
proof -
  from assms(2) obtain t where t: "be_create eng d (bucket_of b) = (None, t)"
    "be_put eng t (bucket_of b) k v = (None, d')"
    by (auto simp: bolt_Put_def bolt_Update_def lift_engine_def split: option.splits prod.splits)
  let ?xs = "case be_items eng d (bucket_of b) of None \<Rightarrow> [] | Some xs \<Rightarrow> xs"
  have xs: "inv t" "be_items eng t (bucket_of b) = Some ?xs" using create [OF assms(1) t(1)] by simp_all
  with put [OF xs t(2)] sorted [OF xs] show ?thesis
    by (auto simp: bolt_items_def map_of_snap_put split: option.splits)
qed

lemma bolt_Delete_items:
  assumes "inv d" "bolt_Delete eng d b k = (None, d')"
  shows "inv d' \<and> bolt_items eng d' b = (bolt_items eng d b)(k := None)"
proof -
  from assms(2) obtain xs where xs: "be_items eng d (bucket_of b) = Some xs"
    "be_delete eng d (bucket_of b) k = (None, d')"
    by (auto simp: bolt_Delete_def bolt_Update_def lift_engine_def split: option.splits prod.splits)
  with delete [OF assms(1) xs] show ?thesis by (auto simp: bolt_items_def map_of_snap_del)
qed

end

sublocale bolt_engine_laws \<subseteq> key_value_impl "\<lambda>d b. inv d" "bolt_items eng" "bolt_Put eng" "bolt_Get eng"
    "bolt_Delete eng" "bolt_Exist eng" "bolt_entries eng"
proof
  fix s b k v s' lo hi
  assume inv: "inv s"
  show "bolt_Put eng s b k v = (None, s') \<Longrightarrow> inv s' \<and> bolt_items eng s' b = (bolt_items eng s b)(k \<mapsto> v)"
    using inv by (rule bolt_Put_items)
  show "bolt_Delete eng s b k = (None, s') \<Longrightarrow> inv s' \<and> bolt_items eng s' b = (bolt_items eng s b)(k := None)"
    using inv by (rule bolt_Delete_items)
  show "bolt_items eng s b k = Some v \<Longrightarrow> bolt_Get eng s b k = Inr v"
    using inv by (auto simp: bolt_items_def bolt_Get_def bolt_View_def readable get split: option.splits)
  show "bolt_Exist eng s b k = (bolt_items eng s b k \<noteq> None)"
    using inv by (auto simp: bolt_items_def bolt_Exist_def bolt_View_def readable get split: option.splits)
  have "sorted_snapshot (case be_items eng s (bucket_of b) of None \<Rightarrow> [] | Some xs \<Rightarrow> xs)"
    using inv sorted by (auto split: option.split)
  then show "sorted_snapshot (bolt_entries eng s b lo hi) \<and>
      (\<forall>k v. ((k, v) \<in> set (bolt_entries eng s b lo hi)) =
        (bolt_items eng s b k = Some v \<and> lo \<le> k \<and> (hi = [] \<or> k \<le> hi)))"
    using inv by (auto simp: bolt_entries_eq sorted_snapshot_filter bolt_items_def map_of_sorted_iff split: option.splits)
qed

context bolt_engine_laws begin

lemma is_key_value_impl:
  "key_value_impl (\<lambda>d b. inv d) (bolt_items eng) (bolt_Put eng) (bolt_Get eng) (bolt_Delete eng) (bolt_Exist eng) (bolt_entries eng)"
  by unfold_locales

lemma bolt_Get_missing:
  "inv d \<Longrightarrow> bolt_items eng d b k = None \<Longrightarrow> be_items eng d (bucket_of b) \<noteq> None \<Longrightarrow> bolt_Get eng d b k = Inr []"
  by (auto simp: bolt_items_def bolt_Get_def bolt_View_def readable get)

end

text \<open>A database in memory that obeys the laws: the buckets are a map to snapshots.\<close>

definition mem_bolt :: "(string \<rightharpoonup> snapshot) bolt_engine" where
  "mem_bolt = \<lparr>be_begin = (\<lambda>d w. None), be_commit = (\<lambda>d. None), be_items = (\<lambda>d b. d b),
     be_get = (\<lambda>d b k. case d b of None \<Rightarrow> None | Some xs \<Rightarrow> map_of xs k),
     be_create = (\<lambda>d b. (None, d(b := Some (case d b of None \<Rightarrow> [] | Some xs \<Rightarrow> xs)))),
     be_put = (\<lambda>d b k v. if k = [] then (Some ''key required'', d) else (None, d(b := Some (snap_put k v (the (d b)))))),
     be_delete = (\<lambda>d b k. (None, d(b := Some (snap_del k (the (d b)))))),
     be_next_seq = (\<lambda>d b. ((None, 1), d))\<rparr>"

definition mem_inv :: "(string \<rightharpoonup> snapshot) \<Rightarrow> bool" where
  "mem_inv d \<longleftrightarrow> (\<forall>b xs. d b = Some xs \<longrightarrow> sorted_snapshot xs)"

interpretation mem: bolt_engine_laws mem_bolt mem_inv
  by unfold_locales
    (auto simp: mem_bolt_def mem_inv_def sorted_snap_put sorted_snap_del split: if_splits option.splits)

section \<open>Properties\<close>

text \<open>
  C33. On a database that obeys bolt's laws: a number written by \<open>PutInt64\<close> is read back by
  \<open>GetInt64\<close>; \<open>kvdb.Get\<close> tells a missing key, on which the method \<open>Get\<close> of an existing bucket reports
  no error and no data; \<open>Range\<close> without a context visits exactly the entries between the bounds, both
  included, in order.
\<close>

theorem bolt_store:
  assumes laws: "bolt_engine_laws eng good" and ok: "good d"
  shows "(PutInt64 (bolt_Put eng) d b k n = (None, d') \<longrightarrow> GetInt64 (bolt_Get eng) d' b k = Inr n)
    \<and> kvdb_Get (bolt_Exist eng) (bolt_Get eng) d b k =
        (case bolt_items eng d b k of None \<Rightarrow> Inl ErrKeyNotExisted | Some v \<Rightarrow> Inr v)
    \<and> (bolt_items eng d b k = None \<and> be_items eng d (bucket_of b) \<noteq> None \<longrightarrow> bolt_Get eng d b k = Inr [])
    \<and> sorted_snapshot (bolt_entries eng d b lo hi)
    \<and> ((k, v) \<in> set (bolt_entries eng d b lo hi) \<longleftrightarrow>
        bolt_items eng d b k = Some v \<and> lo \<le> k \<and> (hi = [] \<or> k \<le> hi))"
proof -
  note kv = bolt_engine_laws.is_key_value_impl [OF laws]
  show ?thesis
    using key_value_impl.int64_round_trip [OF kv ok] key_value_impl.kvdb_Get_spec [OF kv ok]
      bolt_engine_laws.bolt_Get_missing [OF laws ok] key_value_impl.range_items [OF kv ok]
    by blast
qed

theorem bolt_store_witness:
  "\<exists>d'. PutInt64 (bolt_Put mem_bolt) Map.empty None ''n'' (- 5) = (None, d')
     \<and> GetInt64 (bolt_Get mem_bolt) d' None ''n'' = Inr (- 5)"
proof -
  have "mem_inv Map.empty" by (simp add: mem_inv_def)
  moreover obtain d' where "PutInt64 (bolt_Put mem_bolt) Map.empty None ''n'' (- 5) = (None, d')"
    by (simp add: PutInt64_def bolt_Put_def bolt_Update_def lift_engine_def mem_bolt_def)
  ultimately show ?thesis using bolt_store [OF mem.bolt_engine_laws_axioms] by blast
qed

end
