(* ===== verification/RocksDB.thy ===== *)
theory RocksDB
  imports KeyValue "HOL-Library.Monad_Syntax"
begin

text \<open>
  \<open>rocksdb/rocksdb.go\<close> and \<open>rocksdb/kvdb.go\<close>: column families, single keys, enumerations by key and by a
  time stamp in the key, and \<open>KeyValueImpl\<close>. The database of \<open>gorocksdb\<close> is an argument: what the code
  calls on it, by column family handle; its documented behaviour is the locale \<open>rocks_engine_laws\<close>. A
  handle the map \<open>CFHs\<close> does not have is nil, \<open>None\<close>, and what the engine does with it is not assumed.
  An iterator is the snapshot of a column family, sorted by key, and a position in it.
\<close>

section \<open>The database\<close>

record ('d, 'h) rocks_engine =
  re_iter :: "'d \<Rightarrow> 'h option \<Rightarrow> snapshot"
  re_get :: "'d \<Rightarrow> 'h option \<Rightarrow> string \<Rightarrow> string + string option"
  re_put :: "'d \<Rightarrow> 'h option \<Rightarrow> string \<Rightarrow> string \<Rightarrow> string option \<times> 'd"
  re_delete :: "'d \<Rightarrow> 'h option \<Rightarrow> string \<Rightarrow> string option \<times> 'd"

record ('d, 'h) rdb =
  rdb_DB :: 'd
  rdb_CFHs :: "string \<rightharpoonup> 'h"

locale rocks_engine_laws =
  fixes eng :: "('d, 'h) rocks_engine" and inv :: "'d \<Rightarrow> bool"
  assumes sorted: "inv d \<Longrightarrow> sorted_snapshot (re_iter eng d (Some h))"
    and get: "inv d \<Longrightarrow> re_get eng d (Some h) k = Inr (map_of (re_iter eng d (Some h)) k)"
    and put: "inv d \<Longrightarrow> re_put eng d (Some h) k v = (None, d') \<Longrightarrow>
      inv d' \<and> re_iter eng d' = (re_iter eng d)(Some h := snap_put k v (re_iter eng d (Some h)))"
    and delete: "inv d \<Longrightarrow> re_delete eng d (Some h) k = (None, d') \<Longrightarrow>
      inv d' \<and> re_iter eng d' = (re_iter eng d)(Some h := snap_del k (re_iter eng d (Some h)))"

section \<open>Opening\<close>

text \<open>
  The settings \<open>NewCFOptions\<close> makes from its arguments; the budget of the level style compaction is taken
  before the default write buffer size is put in.
\<close>

definition DefaultWriteBufferSize :: int where "DefaultWriteBufferSize = 32 * 2 ^ 20"
definition DefaultBlockCacheSize :: int where "DefaultBlockCacheSize = 64 * 2 ^ 20"
definition TinyWriteBufferSize :: int where "TinyWriteBufferSize = DefaultWriteBufferSize div 4"
definition TinyBlockCacheSize :: int where "TinyBlockCacheSize = DefaultBlockCacheSize div 4"
definition HugeWriteBufferSize :: int where "HugeWriteBufferSize = DefaultWriteBufferSize * 4"
definition HugeBlockCacheSize :: int where "HugeBlockCacheSize = DefaultBlockCacheSize * 4"
definition DefaultBloomFilterBit :: int where "DefaultBloomFilterBit = 10"
definition DefaultColumnFamilyName :: string where "DefaultColumnFamilyName = ''default''"

record cf_options =
  co_KeepLogFileNum :: int
  co_MaxLogFileSize :: int
  co_MaxTotalWalSize :: int
  co_WALTtlSeconds :: int
  co_WalSizeLimitMb :: int
  co_LevelCompactionBudget :: "64 word"
  co_BloomFilter :: "int option"
  co_BlockCache :: "64 word"
  co_BlockSize :: int
  co_WriteBufferSize :: int
  co_MaxBytesForLevelBase :: int
  co_LevelMultiplier :: int
  co_TargetFileSizeBase :: int
  co_TargetFileSizeMultiplier :: int

definition NewCFOptions :: "int \<Rightarrow> int \<Rightarrow> int \<Rightarrow> cf_options" where
  "NewCFOptions writeBufferSize blockCacheSize bloomFilterBit =
     \<lparr>co_KeepLogFileNum = 1, co_MaxLogFileSize = 128 * 2 ^ 20, co_MaxTotalWalSize = 128 * 2 ^ 20,
      co_WALTtlSeconds = 60, co_WalSizeLimitMb = 8,
      co_LevelCompactionBudget = word_of_int (writeBufferSize * 4),
      co_BloomFilter = (if bloomFilterBit > 0 then Some bloomFilterBit else None),
      co_BlockCache = word_of_int (if blockCacheSize \<le> 0 then DefaultBlockCacheSize else blockCacheSize),
      co_BlockSize = 64 * 2 ^ 10,
      co_WriteBufferSize = (if writeBufferSize \<le> 0 then DefaultWriteBufferSize else writeBufferSize),
      co_MaxBytesForLevelBase = 1024 * 2 ^ 20, co_LevelMultiplier = 10,
      co_TargetFileSizeBase = 512 * 2 ^ 20, co_TargetFileSizeMultiplier = 10\<rparr>"

text \<open>\<open>CFOptions\<close> is a map from names; a list in the order an iteration takes.\<close>

type_synonym cf_options_map = "(string \<times> cf_options) list"

definition AddDefaultCF :: "cf_options_map \<Rightarrow> cf_options_map" where
  "AddDefaultCF cfOpts =
     (if map_of cfOpts DefaultColumnFamilyName = None
      then cfOpts @ [(DefaultColumnFamilyName, NewCFOptions TinyWriteBufferSize TinyBlockCacheSize DefaultBloomFilterBit)]
      else cfOpts)"

definition GetKVPair :: "cf_options_map \<Rightarrow> string list \<times> cf_options list" where
  "GetKVPair cfOpts = (map fst cfOpts, map snd cfOpts)"

definition add_cf :: "string \<Rightarrow> cf_options_map \<Rightarrow> cf_options_map" where
  "add_cf v cfOpts =
     (if map_of cfOpts v = None
      then cfOpts @ [(v, NewCFOptions DefaultWriteBufferSize DefaultBlockCacheSize DefaultBloomFilterBit)]
      else cfOpts)"

text \<open>
  \<open>New\<close>; \<open>listed\<close> is what listing the column families of an existing database gives, \<open>None\<close> if there is
  no database yet; \<open>open_db\<close> opens with the names and options and returns one handle for each.
\<close>

datatype open_error = ListFailed string | OpenFailed string

definition rocksdb_New ::
    "(string + string list) option \<Rightarrow> (string list \<Rightarrow> cf_options list \<Rightarrow> string + 'd \<times> 'h list) \<Rightarrow>
     cf_options_map option \<Rightarrow> open_error + ('d, 'h) rdb" where
  "rocksdb_New listed open_db cfOpts =
     (let opts = AddDefaultCF (case cfOpts of None \<Rightarrow> [] | Some m \<Rightarrow> m) in
      case (case listed of None \<Rightarrow> Inr [] | Some r \<Rightarrow> r) of
        Inl err \<Rightarrow> Inl (ListFailed err)
      | Inr cfsDB \<Rightarrow>
          (case GetKVPair (fold add_cf cfsDB opts) of (keys, values) \<Rightarrow>
             (case open_db keys values of
                Inl err \<Rightarrow> Inl (OpenFailed err)
              | Inr (d, handles) \<Rightarrow> Inr \<lparr>rdb_DB = d, rdb_CFHs = map_of (zip keys handles)\<rparr>)))"

section \<open>Single keys\<close>

definition PutCF :: "('d, 'h) rocks_engine \<Rightarrow> ('d, 'h) rdb \<Rightarrow> 'h option \<Rightarrow> string \<Rightarrow> string \<Rightarrow> kv_error option \<times> ('d, 'h) rdb" where
  "PutCF eng r cf key val =
     (case re_put eng (rdb_DB r) cf key val of (e, d) \<Rightarrow> (map_option ErrEngine e, r\<lparr>rdb_DB := d\<rparr>))"

definition DeleteCF :: "('d, 'h) rocks_engine \<Rightarrow> ('d, 'h) rdb \<Rightarrow> 'h option \<Rightarrow> string \<Rightarrow> kv_error option \<times> ('d, 'h) rdb" where
  "DeleteCF eng r cf key =
     (case re_delete eng (rdb_DB r) cf key of (e, d) \<Rightarrow> (map_option ErrEngine e, r\<lparr>rdb_DB := d\<rparr>))"

definition GetCF :: "('d, 'h) rocks_engine \<Rightarrow> ('d, 'h) rdb \<Rightarrow> 'h option \<Rightarrow> string \<Rightarrow> kv_error + string" where
  "GetCF eng r cf key =
     (case re_get eng (rdb_DB r) cf key of
        Inl e \<Rightarrow> Inl (ErrEngine e)
      | Inr None \<Rightarrow> Inl (ErrNoValue key)
      | Inr (Some v) \<Rightarrow> Inr v)"

definition KeyExist :: "('d, 'h) rocks_engine \<Rightarrow> ('d, 'h) rdb \<Rightarrow> 'h option \<Rightarrow> string \<Rightarrow> bool" where
  "KeyExist eng r cf key = (case seek key (re_iter eng (rdb_DB r) cf) of [] \<Rightarrow> False | e # _ \<Rightarrow> fst e = key)"

text \<open>\<open>SeekForPrev\<close> moves to the last key that is not above the given one.\<close>

definition seek_for_prev :: "string \<Rightarrow> snapshot \<Rightarrow> (string \<times> string) option" where
  "seek_for_prev key xs = (case takeWhile (\<lambda>e. fst e \<le> key) xs of [] \<Rightarrow> None | ys \<Rightarrow> Some (last ys))"

definition SeekForPrevKey :: "('d, 'h) rocks_engine \<Rightarrow> ('d, 'h) rdb \<Rightarrow> 'h option \<Rightarrow> string \<Rightarrow> string option" where
  "SeekForPrevKey eng r cf key = map_option fst (seek_for_prev key (re_iter eng (rdb_DB r) cf))"

section \<open>Enumeration\<close>

record range_option =
  ro_StartKey :: string
  ro_EndKey :: string
  ro_StartTS :: i64
  ro_EndTS :: i64
  ro_TSFieldIndex :: int
  ro_KeySeparator :: string
  ro_Key :: string
  ro_CF :: string
  ro_Limit :: i64
  ro_IsJsonValue :: bool
  ro_Ctx :: "(nat \<Rightarrow> bool) option"
  ro_streamOutput :: bool

definition NewRangeOption :: range_option where
  "NewRangeOption = \<lparr>ro_StartKey = [], ro_EndKey = [], ro_StartTS = 0, ro_EndTS = 0, ro_TSFieldIndex = 1,
     ro_KeySeparator = '','', ro_Key = [], ro_CF = DefaultColumnFamilyName, ro_Limit = - 1,
     ro_IsJsonValue = False, ro_Ctx = None, ro_streamOutput = False\<rparr>"

text \<open>
  The inner loop of both enumerations, from a position, with the number of entries handed out so far: the
  entries handed to the callback, and why it ended. A context is asked after each call of the callback.
\<close>

datatype range_stop = Exhausted | LimitHit | CtxDone

fun range_loop :: "i64 \<Rightarrow> (nat \<Rightarrow> bool) option \<Rightarrow> string \<Rightarrow> nat \<Rightarrow> snapshot \<Rightarrow> snapshot \<times> range_stop" where
  "range_loop limit ctx hi cnt [] = ([], Exhausted)"
| "range_loop limit ctx hi cnt (e # es) =
     (if \<not> (hi = [] \<or> fst e \<le> hi) then ([], Exhausted)
      else if 0 <s limit \<and> sint limit \<le> int (Suc cnt) then ([e], LimitHit)
      else if (case ctx of None \<Rightarrow> False | Some c \<Rightarrow> c (Suc cnt)) then ([e], CtxDone)
      else (case range_loop limit ctx hi (Suc cnt) es of (vis, st) \<Rightarrow> (e # vis, st)))"

datatype rdb_error =
    OptionNil | InvalidCF string | Cancelled | KeyNotFound string | EncodeFailed | DeleteFailed string

definition cf_snapshot :: "('d, 'h) rocks_engine \<Rightarrow> ('d, 'h) rdb \<Rightarrow> string \<Rightarrow> snapshot" where
  "cf_snapshot eng r cf = re_iter eng (rdb_DB r) (rdb_CFHs r cf)"

definition RangeForeach :: "('d, 'h) rocks_engine \<Rightarrow> ('d, 'h) rdb \<Rightarrow> range_option \<Rightarrow> snapshot \<times> rdb_error option" where
  "RangeForeach eng r opt =
     (let snap = cf_snapshot eng r (ro_CF opt);
          pos = (if ro_StartKey opt \<noteq> [] then seek (ro_StartKey opt) snap else snap)
      in case range_loop (ro_Limit opt) (ro_Ctx opt) (ro_EndKey opt) 0 pos of
           (vis, st) \<Rightarrow> (vis, if st = CtxDone then Some Cancelled else None))"

text \<open>
  \<open>HijackTsInKey\<close>: from a time stamp and a key, the key with the time stamp in it and the key to go on
  with, if any. \<open>GenHijackTsInKeyByIndex\<close> makes one from a field index and a separator. The new field has
  the length of the old one; a longer time stamp is cut, a shorter one padded with zero octets.
\<close>

type_synonym hijack = "string \<Rightarrow> string \<Rightarrow> string \<times> string option"

text \<open>The increment: the last octet that is not \<open>0xff\<close>, with what follows left as it is.\<close>

fun bump_rev :: "string \<Rightarrow> string" where
  "bump_rev [] = []"
| "bump_rev (c # cs) = (if c \<noteq> CHR 0xFF then char_of (of_char c + 1 :: nat) # cs else c # bump_rev cs)"

definition bump :: "string \<Rightarrow> string" where
  "bump s = rev (bump_rev (rev s))"

definition copy_into :: "nat \<Rightarrow> string \<Rightarrow> string" where
  "copy_into n ts = take n (ts @ replicate n (CHR 0x00))"

text \<open>\<open>bytes.Join\<close> of a single empty field is nil.\<close>

definition GenHijackTsInKeyByIndex :: "nat \<Rightarrow> string \<Rightarrow> hijack" where
  "GenHijackTsInKeyByIndex idx sep ts key =
     (let fields = str_split key sep in
      if length fields = 1 then (key, None)
      else if length fields < idx + 1 then (key, None)
      else
        let replaced = copy_into (length (fields ! idx)) ts;
            nextKey = (if idx \<ge> 1
              then (if take idx fields = [[]] then None else Some (bump (str_join sep (take idx fields))))
              else None)
        in (str_join sep (fields[idx := replaced]), nextKey))"

text \<open>
  The outer loop of \<open>RangeForeachByTS\<close>, from a position; it may go on for ever. The result is what was
  handed to the callback and whether the context ended it.
\<close>

partial_function (option) ts_loop ::
    "hijack \<Rightarrow> string \<Rightarrow> string \<Rightarrow> i64 \<Rightarrow> (nat \<Rightarrow> bool) option \<Rightarrow> snapshot \<Rightarrow> nat \<Rightarrow> snapshot \<Rightarrow> (snapshot \<times> bool) option" where
  "ts_loop f tsStart tsEnd limit ctx snap cnt pos =
     (case pos of
        [] \<Rightarrow> Some ([], False)
      | e # _ \<Rightarrow>
          (case f tsStart (fst e) of
             (keyStart, None) \<Rightarrow> Some ([], False)
           | (keyStart, Some nextKey) \<Rightarrow>
               (case range_loop limit ctx (fst (f tsEnd (fst e))) cnt (seek keyStart snap) of
                  (vis, Exhausted) \<Rightarrow>
                    do {
                      (more, c) \<leftarrow> ts_loop f tsStart tsEnd limit ctx snap (cnt + length vis) (seek nextKey snap);
                      Some (vis @ more, c)
                    }
                | (vis, LimitHit) \<Rightarrow> Some (vis, False)
                | (vis, CtxDone) \<Rightarrow> Some (vis, True))))"

declare ts_loop.simps [code]

definition RangeForeachByTS ::
    "('d, 'h) rocks_engine \<Rightarrow> ('d, 'h) rdb \<Rightarrow> range_option \<Rightarrow> hijack \<Rightarrow> (snapshot \<times> rdb_error option) option" where
  "RangeForeachByTS eng r opt f =
     (let snap = cf_snapshot eng r (ro_CF opt) in
      map_option (\<lambda>(vis, c). (vis, if c then Some Cancelled else None))
        (ts_loop f (FormatInt (sint (ro_StartTS opt))) (FormatInt (sint (ro_EndTS opt)))
           (ro_Limit opt) (ro_Ctx opt) snap 0 snap))"


section \<open>Ranges as output, and their deletion\<close>

text \<open>
  The elements \<open>NewKVJson\<close> and \<open>NewKVRaw\<close> make. Their JSON text is an argument: \<open>enc\<close> of one element and
  \<open>enc_all\<close> of a list, \<open>None\<close> where encoding fails. Streamed elements end in a new line, and an element
  that cannot be encoded is left out.
\<close>

datatype out_elem = KVJson string string | KVRaw string string

definition new_elem :: "range_option \<Rightarrow> string \<times> string \<Rightarrow> out_elem" where
  "new_elem opt e = (if ro_IsJsonValue opt then KVJson (fst e) (snd e) else KVRaw (fst e) (snd e))"

definition newline :: string where "newline = [CHR 0x0A]"

definition encode_range ::
    "(out_elem \<Rightarrow> string option) \<Rightarrow> (out_elem list \<Rightarrow> string option) \<Rightarrow> range_option \<Rightarrow>
     snapshot \<times> rdb_error option \<Rightarrow> rdb_error option \<times> string" where
  "encode_range enc enc_all opt res =
     (case res of (vis, err) \<Rightarrow>
        let elems = map (new_elem opt) vis in
        if ro_streamOutput opt
        then (err, concat (map (\<lambda>el. case enc el of None \<Rightarrow> [] | Some t \<Rightarrow> t @ newline) elems))
        else if err \<noteq> None then (err, [])
        else (case enc_all elems of None \<Rightarrow> (Some EncodeFailed, []) | Some t \<Rightarrow> (None, t @ newline)))"

definition GetRangeByKey where
  "GetRangeByKey enc enc_all eng r opt = encode_range enc enc_all opt (RangeForeach eng r opt)"

definition GetRangeByTS where
  "GetRangeByTS enc enc_all eng r opt =
     map_option (encode_range enc enc_all opt)
       (RangeForeachByTS eng r opt (GenHijackTsInKeyByIndex (nat (ro_TSFieldIndex opt)) (ro_KeySeparator opt)))"

definition WriteTo ::
    "(out_elem \<Rightarrow> string option) \<Rightarrow> ('d, 'h) rocks_engine \<Rightarrow> ('d, 'h) rdb \<Rightarrow> 'h option \<Rightarrow> string \<Rightarrow> rdb_error option \<times> string" where
  "WriteTo enc eng r cf key =
     (case seek key (re_iter eng (rdb_DB r) cf) of
        [] \<Rightarrow> (Some (KeyNotFound key), [])
      | e # _ \<Rightarrow>
          if fst e = key
          then (None, case enc (KVRaw (fst e) (snd e)) of None \<Rightarrow> [] | Some t \<Rightarrow> t)
          else (Some (KeyNotFound key), []))"

text \<open>Entries are deleted while the snapshot is walked; an error of the engine is printed and ignored.\<close>

definition delete_entries :: "('d, 'h) rocks_engine \<Rightarrow> 'h option \<Rightarrow> snapshot \<Rightarrow> ('d, 'h) rdb \<Rightarrow> ('d, 'h) rdb" where
  "delete_entries eng cf es r = fold (\<lambda>e r. snd (DeleteCF eng r cf (fst e))) es r"

definition DeleteRangeByKey :: "('d, 'h) rocks_engine \<Rightarrow> ('d, 'h) rdb \<Rightarrow> range_option \<Rightarrow> ('d, 'h) rdb" where
  "DeleteRangeByKey eng r opt = delete_entries eng (rdb_CFHs r (ro_CF opt)) (fst (RangeForeach eng r opt)) r"

definition DeleteRangeByTS :: "('d, 'h) rocks_engine \<Rightarrow> ('d, 'h) rdb \<Rightarrow> range_option \<Rightarrow> ('d, 'h) rdb option" where
  "DeleteRangeByTS eng r opt =
     map_option (\<lambda>(vis, err). delete_entries eng (rdb_CFHs r (ro_CF opt)) vis r)
       (RangeForeachByTS eng r opt (GenHijackTsInKeyByIndex (nat (ro_TSFieldIndex opt)) (ro_KeySeparator opt)))"

text \<open>
  \<open>GetRange\<close> and \<open>DeleteRange\<close> at a time \<open>now\<close>; \<open>None\<close> is a call that does not return. The field index is
  one a caller has checked, not below 0.
\<close>

definition fill_EndTS :: "i64 \<Rightarrow> range_option \<Rightarrow> range_option" where
  "fill_EndTS now opt = (if ro_EndTS opt = 0 then opt\<lparr>ro_EndTS := now\<rparr> else opt)"

definition by_ts :: "range_option \<Rightarrow> bool" where
  "by_ts opt = (0 <s ro_StartTS opt \<or> 0 <s ro_EndTS opt)"

definition GetRange ::
    "(out_elem \<Rightarrow> string option) \<Rightarrow> (out_elem list \<Rightarrow> string option) \<Rightarrow> ('d, 'h) rocks_engine \<Rightarrow> i64 \<Rightarrow>
     ('d, 'h) rdb \<Rightarrow> range_option option \<Rightarrow> (rdb_error option \<times> string) option" where
  "GetRange enc enc_all eng now r optn =
     (case optn of
        None \<Rightarrow> Some (Some OptionNil, [])
      | Some opt \<Rightarrow>
          if rdb_CFHs r (ro_CF opt) = None then Some (Some (InvalidCF (ro_CF opt)), [])
          else if ro_Key opt \<noteq> [] then Some (WriteTo enc eng r (rdb_CFHs r (ro_CF opt)) (ro_Key opt))
          else if by_ts opt then GetRangeByTS enc enc_all eng r (fill_EndTS now opt)
          else Some (GetRangeByKey enc enc_all eng r opt))"

definition DeleteRange ::
    "('d, 'h) rocks_engine \<Rightarrow> i64 \<Rightarrow> ('d, 'h) rdb \<Rightarrow> range_option option \<Rightarrow> (rdb_error option \<times> ('d, 'h) rdb) option" where
  "DeleteRange eng now r optn =
     (case optn of
        None \<Rightarrow> Some (Some OptionNil, r)
      | Some opt \<Rightarrow>
          if rdb_CFHs r (ro_CF opt) = None then Some (Some (InvalidCF (ro_CF opt)), r)
          else if ro_Key opt \<noteq> [] then
            (case DeleteCF eng r (rdb_CFHs r (ro_CF opt)) (ro_Key opt) of
               (Some e, r') \<Rightarrow> Some (Some (DeleteFailed (ro_Key opt)), r')
             | (None, r') \<Rightarrow> Some (None, r'))
          else if by_ts opt then map_option (\<lambda>r'. (None, r')) (DeleteRangeByTS eng r (fill_EndTS now opt))
          else Some (None, DeleteRangeByKey eng r opt))"

section \<open>KeyValueImpl\<close>

definition rocks_Put where "rocks_Put eng r cf key val = PutCF eng r (rdb_CFHs r cf) key val"
definition rocks_Get where "rocks_Get eng r cf key = GetCF eng r (rdb_CFHs r cf) key"
definition rocks_Delete where "rocks_Delete eng r cf key = DeleteCF eng r (rdb_CFHs r cf) key"
definition rocks_Exist where "rocks_Exist eng r cf key = KeyExist eng r (rdb_CFHs r cf) key"

text \<open>The iterators, as the entries from their position on; \<open>Last\<close> has at most one.\<close>

definition rocks_Seek where "rocks_Seek eng r cf key = seek key (cf_snapshot eng r cf)"
definition rocks_First where "rocks_First eng r cf = cf_snapshot eng r cf"
definition rocks_Last where "rocks_Last eng r cf = (case cf_snapshot eng r cf of [] \<Rightarrow> [] | xs \<Rightarrow> [last xs])"

text \<open>\<open>Range\<close> uses an option with no limit; a nil context never ends it.\<close>

definition rocks_Range ::
    "('d, 'h) rocks_engine \<Rightarrow> ('d, 'h) rdb \<Rightarrow> (nat \<Rightarrow> bool) option \<Rightarrow> string \<Rightarrow> string \<Rightarrow> string \<Rightarrow> snapshot \<times> rdb_error option" where
  "rocks_Range eng r ctx cf lo hi =
     RangeForeach eng r
       \<lparr>ro_StartKey = lo, ro_EndKey = hi, ro_StartTS = 0, ro_EndTS = 0, ro_TSFieldIndex = 0, ro_KeySeparator = [],
        ro_Key = [], ro_CF = cf, ro_Limit = 0, ro_IsJsonValue = False, ro_Ctx = ctx, ro_streamOutput = False\<rparr>"

definition rocks_items :: "('d, 'h) rocks_engine \<Rightarrow> ('d, 'h) rdb \<Rightarrow> string \<Rightarrow> string \<rightharpoonup> string" where
  "rocks_items eng r cf = map_of (cf_snapshot eng r cf)"

end
