(* ===== verification/RocksRange.thy ===== *)
theory RocksRange
  imports RocksDB
begin

text \<open>
  What the enumerations of \<open>RocksDB\<close> hand out: the range by key, the range by time stamp for callbacks
  that group the keys, its termination, and where the generated callback falls short. \<open>RocksDB\<close> as an
  implementation of \<open>KeyValueImpl\<close>.
\<close>

section \<open>The inner loop\<close>

text \<open>What a limit leaves after some entries have been handed out.\<close>

definition limited :: "i64 \<Rightarrow> nat \<Rightarrow> 'a list \<Rightarrow> 'a list" where
  "limited limit cnt xs = (if 0 <s limit then take (nat (sint limit) - cnt) xs else xs)"

lemma limited_append_hit:
  "0 <s limit \<Longrightarrow> nat (sint limit) - cnt \<le> length xs \<Longrightarrow> limited limit cnt (xs @ ys) = take (nat (sint limit) - cnt) xs"
  by (simp add: limited_def)

lemma limited_append_more:
  "\<not> (0 <s limit \<and> nat (sint limit) - cnt \<le> length xs) \<Longrightarrow>
   limited limit cnt (xs @ ys) = xs @ limited limit (cnt + length xs) ys"
  by (auto simp: limited_def)

lemma range_loop_unlimited:
  "\<not> 0 <s limit \<Longrightarrow> range_loop limit None hi cnt xs = (takeWhile (\<lambda>e. hi = [] \<or> fst e \<le> hi) xs, Exhausted)"
  by (induction xs arbitrary: cnt) auto

lemma range_loop_limited:
  "0 <s limit \<Longrightarrow> int cnt < sint limit \<Longrightarrow>
   range_loop limit None hi cnt xs =
     (let vis = takeWhile (\<lambda>e. hi = [] \<or> fst e \<le> hi) xs; n = nat (sint limit) - cnt
      in (take n vis, if n \<le> length vis then LimitHit else Exhausted))"
proof (induction xs arbitrary: cnt)
  case (Cons e xs)
  show ?case
  proof (cases "hi = [] \<or> fst e \<le> hi")
    case True
    show ?thesis
    proof (cases "sint limit \<le> int (Suc cnt)")
      case hit: True
      with Cons.prems(2) have "nat (sint limit) - cnt = 1" by linarith
      with True hit Cons.prems show ?thesis by simp
    next
      case False
      then have "int (Suc cnt) < sint limit" "nat (sint limit) - cnt = Suc (nat (sint limit) - Suc cnt)"
        using Cons.prems(2) by linarith+
      with Cons.IH [OF Cons.prems(1), of "Suc cnt"] True False Cons.prems show ?thesis
        by (auto simp: Let_def)
    qed
  qed (use Cons.prems in \<open>auto simp: Let_def\<close>)
qed (simp add: Let_def)

lemma sint_pos_iff: "0 <s (limit :: i64) \<longleftrightarrow> 0 < sint limit"
  by (simp add: word_sless_alt)

lemma range_loop_fst:
  "\<not> 0 <s limit \<or> int cnt < sint limit \<Longrightarrow>
   fst (range_loop limit None hi cnt xs) = limited limit cnt (takeWhile (\<lambda>e. hi = [] \<or> fst e \<le> hi) xs)"
  by (cases "0 <s limit") (auto simp: limited_def range_loop_unlimited range_loop_limited Let_def)

lemma RangeForeach_eq:
  assumes "sorted_snapshot (cf_snapshot eng r (ro_CF opt))" "ro_Ctx opt = None"
  shows "RangeForeach eng r opt =
     (limited (ro_Limit opt) 0
        (filter (\<lambda>e. ro_StartKey opt \<le> fst e \<and> (ro_EndKey opt = [] \<or> fst e \<le> ro_EndKey opt))
           (cf_snapshot eng r (ro_CF opt))), None)"
proof -
  let ?snap = "cf_snapshot eng r (ro_CF opt)"
  have pos: "(if ro_StartKey opt \<noteq> [] then seek (ro_StartKey opt) ?snap else ?snap) = seek (ro_StartKey opt) ?snap"
    using assms(1) by simp
  obtain vis st where l: "range_loop (ro_Limit opt) None (ro_EndKey opt) 0 (seek (ro_StartKey opt) ?snap) = (vis, st)"
    by fastforce
  have "st \<noteq> CtxDone"
    using l by (cases "0 <s ro_Limit opt")
      (auto simp: range_loop_unlimited range_loop_limited sint_pos_iff Let_def split: if_splits)
  moreover have "vis = limited (ro_Limit opt) 0
      (filter (\<lambda>e. ro_StartKey opt \<le> fst e \<and> (ro_EndKey opt = [] \<or> fst e \<le> ro_EndKey opt)) ?snap)"
    using range_loop_fst [of "ro_Limit opt" 0 "ro_EndKey opt" "seek (ro_StartKey opt) ?snap"] l
      range_slice [OF assms(1)] by (simp add: sint_pos_iff)
  ultimately show ?thesis
    unfolding RangeForeach_def by (simp only: Let_def pos assms(2) l split_conv) simp
qed

section \<open>The enumeration by time stamp\<close>

text \<open>
  What a callback has to promise: every key has a key to go on with that is above it; the keys from one
  up to the next belong together and get the same bounds; and the keys within its bounds belong to it.
\<close>

locale hijack_groups =
  fixes f :: hijack and ts1 ts2 :: string and snap :: snapshot
  assumes sorted: "sorted_snapshot snap"
    and progress: "e \<in> set snap \<Longrightarrow> \<exists>n. snd (f ts1 (fst e)) = Some n \<and> fst e < n"
    and together: "e \<in> set snap \<Longrightarrow> e' \<in> set snap \<Longrightarrow> fst e \<le> fst e' \<Longrightarrow> snd (f ts1 (fst e)) = Some n \<Longrightarrow>
      fst e' < n \<Longrightarrow> f ts1 (fst e') = f ts1 (fst e) \<and> f ts2 (fst e') = f ts2 (fst e)"
    and within: "e \<in> set snap \<Longrightarrow> e' \<in> set snap \<Longrightarrow> fst (f ts1 (fst e)) \<le> fst e' \<Longrightarrow> fst e' \<le> fst (f ts2 (fst e)) \<Longrightarrow>
      f ts1 (fst e') = f ts1 (fst e) \<and> f ts2 (fst e') = f ts2 (fst e)"
    and bound: "e \<in> set snap \<Longrightarrow> fst (f ts2 (fst e)) \<noteq> []"

definition in_own_bounds :: "hijack \<Rightarrow> string \<Rightarrow> string \<Rightarrow> string \<times> string \<Rightarrow> bool" where
  "in_own_bounds f ts1 ts2 e \<longleftrightarrow> fst (f ts1 (fst e)) \<le> fst e \<and> fst e \<le> fst (f ts2 (fst e))"

lemma seek_suffix:
  assumes "\<forall>x \<in> set pre. fst x < n" shows "seek n (pre @ pos) = dropWhile (\<lambda>e. fst e < n) pos"
  using assms by (simp add: seek_def dropWhile_append2)

context hijack_groups begin

lemma group_visit:
  assumes "snap = pre @ e # es" "\<forall>x \<in> set pre. \<forall>n. snd (f ts1 (fst x)) = Some n \<longrightarrow> n \<le> fst e"
    "snd (f ts1 (fst e)) = Some n"
  shows "takeWhile (\<lambda>x. fst (f ts2 (fst e)) = [] \<or> fst x \<le> fst (f ts2 (fst e))) (seek (fst (f ts1 (fst e))) snap)
    = filter (in_own_bounds f ts1 ts2) (takeWhile (\<lambda>x. fst x < n) (e # es))"
proof -
  let ?in = "\<lambda>x. fst (f ts1 (fst e)) \<le> fst x \<and> fst x \<le> fst (f ts2 (fst e))"
  have mem: "e \<in> set snap" using assms(1) by simp
  have srt: "sorted_snapshot (e # es)"
    using sorted assms(1) by (simp add: sorted_snapshot_def sorted_wrt_append)
  have lt: "fst e < n" using progress [OF mem] assms(3) by simp
  have pre: "\<not> ?in x" if x: "x \<in> set pre" for x
  proof
    assume "?in x"
    with within [OF mem, of x] x assms(1) have "f ts1 (fst x) = f ts1 (fst e)" by simp
    with assms(2,3) x have "n \<le> fst e" by metis
    with lt show False by simp
  qed
  have pos: "?in x \<longleftrightarrow> fst x < n \<and> in_own_bounds f ts1 ts2 x" if x: "x \<in> set (e # es)" for x
  proof
    assume i: "?in x"
    have "x \<in> set snap" using x assms(1) by auto
    from within [OF mem this] i have g: "f ts1 (fst x) = f ts1 (fst e)" "f ts2 (fst x) = f ts2 (fst e)"
      by blast+
    with progress [of x] x assms(1,3) have "fst x < n" by auto
    with i g show "fst x < n \<and> in_own_bounds f ts1 ts2 x" by (simp add: in_own_bounds_def)
  next
    assume o: "fst x < n \<and> in_own_bounds f ts1 ts2 x"
    have "x \<in> set snap" "fst e \<le> fst x" using srt x assms(1) by auto
    from together [OF mem this assms(3)] o show "?in x" by (auto simp: in_own_bounds_def)
  qed
  have "takeWhile (\<lambda>x. fst (f ts2 (fst e)) = [] \<or> fst x \<le> fst (f ts2 (fst e))) (seek (fst (f ts1 (fst e))) snap) = filter ?in snap"
    using range_slice [OF sorted, of "fst (f ts2 (fst e))"] bound [OF mem] by simp
  also have "\<dots> = filter ?in (e # es)" using assms(1) pre by simp
  also have "\<dots> = filter (\<lambda>x. fst x < n \<and> in_own_bounds f ts1 ts2 x) (e # es)"
    using pos by (intro filter_cong) auto
  also have "\<dots> = filter (in_own_bounds f ts1 ts2) (filter (\<lambda>x. fst x < n) (e # es))"
    by (simp add: conj_commute)
  finally show ?thesis using srt takeWhile_less_filter by metis
qed

lemma ts_loop_groups:
  assumes "snap = pre @ pos" "\<forall>x \<in> set pre. \<forall>y \<in> set pos. \<forall>n. snd (f ts1 (fst x)) = Some n \<longrightarrow> n \<le> fst y"
    "\<not> 0 <s limit \<or> int cnt < sint limit"
  shows "ts_loop f ts1 ts2 limit None snap cnt pos =
    Some (limited limit cnt (filter (in_own_bounds f ts1 ts2) pos), False)"
  using assms
proof (induction "length pos" arbitrary: pre pos cnt rule: less_induct)
  case less
  show ?case
  proof (cases pos)
    case Nil
    then show ?thesis by (subst ts_loop.simps) (simp add: limited_def)
  next
    case (Cons e es)
    have mem: "e \<in> set snap" using less.prems(1) Cons by simp
    obtain ks n where ks: "f ts1 (fst e) = (ks, Some n)" "fst e < n"
      using progress [OF mem] by (cases "f ts1 (fst e)") auto
    let ?G = "takeWhile (\<lambda>x. fst x < n) pos" and ?rest = "dropWhile (\<lambda>x. fst x < n) pos"
    let ?F = "filter (in_own_bounds f ts1 ts2) ?G"
    have visit: "takeWhile (\<lambda>x. fst (f ts2 (fst e)) = [] \<or> fst x \<le> fst (f ts2 (fst e))) (seek ks snap) = ?F"
      using group_visit [of pre e es n] less.prems(1,2) Cons ks by simp
    have pre_lt: "\<forall>x \<in> set pre. fst x < n"
      using sorted less.prems(1) Cons ks(2) unfolding sorted_snapshot_def by (auto simp: sorted_wrt_append)
    then have next_pos: "seek n snap = ?rest" using less.prems(1) by (simp add: seek_suffix)
    have split: "filter (in_own_bounds f ts1 ts2) pos = ?F @ filter (in_own_bounds f ts1 ts2) ?rest"
      by (metis filter_append takeWhile_dropWhile_id)
    have rest_ge: "n \<le> fst y" if "y \<in> set ?rest" for y
    proof -
      have "sorted_snapshot pos" using sorted less.prems(1) by (simp add: sorted_snapshot_def sorted_wrt_append)
      then have "?rest = filter (\<lambda>x. n \<le> fst x) pos" using seek_filter [of pos n] by (simp add: seek_def)
      with that show ?thesis by simp
    qed
    have inv: "\<forall>x \<in> set (pre @ ?G). \<forall>y \<in> set ?rest. \<forall>m. snd (f ts1 (fst x)) = Some m \<longrightarrow> m \<le> fst y"
    proof (intro ballI allI impI)
      fix x y m
      assume x: "x \<in> set (pre @ ?G)" and y: "y \<in> set ?rest" and m: "snd (f ts1 (fst x)) = Some m"
      show "m \<le> fst y"
      proof (cases "x \<in> set pre")
        case True
        moreover have "y \<in> set pos" using y by (rule set_dropWhileD)
        ultimately show ?thesis using less.prems(2) m by blast
      next
        case False
        with x have G: "x \<in> set pos" "fst x < n" by (auto dest: set_takeWhileD)
        have "sorted_snapshot (e # es)"
          using sorted less.prems(1) Cons by (simp add: sorted_snapshot_def sorted_wrt_append)
        then have "fst e \<le> fst x" using G(1) Cons by auto
        then have "f ts1 (fst x) = f ts1 (fst e)"
          using together [OF mem, of x n] G less.prems(1) ks(1) by simp
        with m ks(1) rest_ge [OF y] show ?thesis by simp
      qed
    qed
    have short: "length ?rest < length pos" using Cons ks(2) by (simp add: less_Suc_eq_le length_dropWhile_le)
    have whole: "snap = (pre @ ?G) @ ?rest" using less.prems(1) by simp
    have unfold: "ts_loop f ts1 ts2 limit None snap cnt pos =
        (case range_loop limit None (fst (f ts2 (fst e))) cnt (seek ks snap) of
           (vis, Exhausted) \<Rightarrow>
             Option.bind (ts_loop f ts1 ts2 limit None snap (cnt + length vis) ?rest) (\<lambda>(more, c). Some (vis @ more, c))
         | (vis, LimitHit) \<Rightarrow> Some (vis, False)
         | (vis, CtxDone) \<Rightarrow> Some (vis, True))"
      by (subst ts_loop.simps) (simp add: Cons ks(1) next_pos [unfolded Cons])
    show ?thesis
    proof (cases "0 <s limit \<and> nat (sint limit) - cnt \<le> length ?F")
      case True
      with less.prems(3) have "range_loop limit None (fst (f ts2 (fst e))) cnt (seek ks snap) = (take (nat (sint limit) - cnt) ?F, LimitHit)"
        by (simp add: range_loop_limited visit Let_def)
      with True limited_append_hit [of limit cnt ?F] show ?thesis unfolding unfold split by simp
    next
      case False
      then have r: "range_loop limit None (fst (f ts2 (fst e))) cnt (seek ks snap) = (?F, Exhausted)"
        using less.prems(3) by (cases "0 <s limit") (simp_all add: range_loop_limited range_loop_unlimited visit Let_def)
      have "\<not> 0 <s limit \<or> int (cnt + length ?F) < sint limit"
        using False less.prems(3) by (auto simp: nat_less_iff)
      note IH = less.hyps [OF short whole inv this]
      show ?thesis unfolding unfold split r using False limited_append_more [of limit cnt ?F] by (simp add: IH)
    qed
  qed
qed

lemma ts_loop_all:
  "ts_loop f ts1 ts2 limit None snap 0 snap = Some (limited limit 0 (filter (in_own_bounds f ts1 ts2) snap), False)"
  using ts_loop_groups [of "[]" snap limit 0] by (simp add: sint_pos_iff)

end

text \<open>The loop returns whenever the key to go on with is above the key it was made from.\<close>

lemma ts_loop_returns:
  assumes "sorted_snapshot snap" "\<And>e n. e \<in> set snap \<Longrightarrow> snd (f ts1 (fst e)) = Some n \<Longrightarrow> fst e < n"
    "snap = pre @ pos"
  shows "\<exists>y. ts_loop f ts1 ts2 limit ctx snap cnt pos = Some y"
  using assms(3)
proof (induction "length pos" arbitrary: pre pos cnt rule: less_induct)
  case less
  show ?case
  proof (cases pos)
    case Nil
    then show ?thesis by (subst ts_loop.simps) auto
  next
    case (Cons e es)
    obtain ks nx where f: "f ts1 (fst e) = (ks, nx)" by fastforce
    show ?thesis
    proof (cases nx)
      case None
      with f Cons show ?thesis by (subst ts_loop.simps) auto
    next
      case (Some n)
      have lt: "fst e < n" using assms(2) [of e n] less.prems Cons f Some by simp
      have "\<forall>x \<in> set pre. fst x < n"
        using assms(1) less.prems Cons lt unfolding sorted_snapshot_def by (auto simp: sorted_wrt_append)
      then have next_pos: "seek n snap = dropWhile (\<lambda>x. fst x < n) pos" using less.prems by (simp add: seek_suffix)
      have "snap = (pre @ takeWhile (\<lambda>x. fst x < n) pos) @ dropWhile (\<lambda>x. fst x < n) pos"
        using less.prems by simp
      moreover have "length (dropWhile (\<lambda>x. fst x < n) pos) < length pos"
        using Cons lt by (simp add: less_Suc_eq_le length_dropWhile_le)
      ultimately have "\<exists>y. ts_loop f ts1 ts2 limit ctx snap c (seek n snap) = Some y" for c
        using less.hyps next_pos by metis
      then obtain vis st more c where "range_loop limit ctx (fst (f ts2 (fst e))) cnt (seek ks snap) = (vis, st)"
        "ts_loop f ts1 ts2 limit ctx snap (cnt + length vis) (seek n snap) = Some (more, c)"
        by (metis surj_pair)
      with f Some Cons show ?thesis
        by (subst ts_loop.simps) (cases st, auto)
    qed
  qed
qed


section \<open>The generated callback\<close>

text \<open>How \<open>bump\<close> increments, and the order of octet strings.\<close>

lemma bump_rev_replicate: "bump_rev (replicate m (CHR 0xFF) @ c # s) =
    (if c \<noteq> CHR 0xFF then replicate m (CHR 0xFF) @ char_of (of_char c + 1 :: nat) # s
     else bump_rev (replicate m (CHR 0xFF) @ c # s))"
  by (induction m) auto

lemma bump_snoc:
  "c \<noteq> CHR 0xFF \<Longrightarrow> bump (s @ c # replicate m (CHR 0xFF)) = s @ char_of (of_char c + 1 :: nat) # replicate m (CHR 0xFF)"
  using bump_rev_replicate [of m c "rev s"] by (simp add: bump_def rev_replicate)

lemma split_at_last:
  "\<exists>c \<in> set s. c \<noteq> x \<Longrightarrow> \<exists>p c m. s = p @ c # replicate m x \<and> c \<noteq> x"
proof (induction s rule: rev_induct)
  case (snoc d s)
  show ?case
  proof (cases "d = x")
    case True
    with snoc obtain p c m where "s = p @ c # replicate m x" "c \<noteq> x" by auto
    with True have "s @ [d] = p @ c # replicate (Suc m) x \<and> c \<noteq> x" by (simp add: replicate_append_same)
    then show ?thesis by blast
  next
    case False
    then have "s @ [d] = s @ d # replicate 0 x \<and> d \<noteq> x" by simp
    then show ?thesis by blast
  qed
qed simp

lemma char_of_255: "char_of (255 :: nat) = CHR 0xFF"
  using char_of_char [of "CHR 0xFF", where ?'a = nat] by simp

lemma succ_code: "c \<noteq> CHR 0xFF \<Longrightarrow> of_char (char_of (of_char c + 1 :: nat)) = (of_char c + 1 :: nat)"
proof -
  assume c: "c \<noteq> CHR 0xFF"
  have "of_char c \<noteq> (255 :: nat)"
    using c char_of_255 char_of_char [of c, where ?'a = nat] by metis
  moreover have "of_char c < (256 :: nat)" by (rule nat_of_char_less_256)
  ultimately have "of_char c + 1 < (256 :: nat)" by linarith
  then show ?thesis by (simp only: of_char_of mod_less)
qed

lemma char_less_succ: "c \<noteq> CHR 0xFF \<Longrightarrow> c < char_of (of_char c + 1 :: nat)"
proof -
  assume c: "c \<noteq> CHR 0xFF"
  show ?thesis unfolding less_char_def succ_code [OF c] by simp
qed

lemma append_less_append [simp]: "(p @ xs :: string) < p @ ys \<longleftrightarrow> xs < ys"
  by (induction p) simp_all

lemma append_le_append [simp]: "(p @ xs :: string) \<le> p @ ys \<longleftrightarrow> xs \<le> ys"
  by (induction p) simp_all

lemma less_bump: "\<exists>c \<in> set s. c \<noteq> CHR 0xFF \<Longrightarrow> s @ rest < bump s"
proof -
  assume "\<exists>c \<in> set s. c \<noteq> CHR 0xFF"
  then obtain p c m where "s = p @ c # replicate m (CHR 0xFF)" "c \<noteq> CHR 0xFF"
    using split_at_last [of s "CHR 0xFF"] by blast
  then show ?thesis using char_less_succ [of c] by (simp add: bump_snoc)
qed

lemma bump_all_ff: "set s \<subseteq> {CHR 0xFF} \<Longrightarrow> bump s = s"
proof -
  have "set s \<subseteq> {CHR 0xFF} \<Longrightarrow> bump_rev s = s" for s by (induction s) auto
  then show "set s \<subseteq> {CHR 0xFF} \<Longrightarrow> bump s = s" by (simp add: bump_def)
qed

lemma str_join_append: "xs \<noteq> [] \<Longrightarrow> ys \<noteq> [] \<Longrightarrow> str_join sep (xs @ ys) = str_join sep xs @ sep @ str_join sep ys"
proof (induction xs)
  case (Cons x xs)
  then show ?case by (cases "xs = []") (simp_all add: str_join_Cons)
qed simp

text \<open>The part of a key before its time stamp field.\<close>

definition ts_prefix :: "nat \<Rightarrow> string \<Rightarrow> string \<Rightarrow> string" where
  "ts_prefix idx sep key = str_join sep (take idx (str_split key sep))"

lemma GenHijack_next:
  assumes "snd (GenHijackTsInKeyByIndex idx sep ts key) = Some n"
  shows "n = bump (ts_prefix idx sep key)" "\<exists>rest. key = ts_prefix idx sep key @ rest"
proof -
  have idx: "1 \<le> idx" "idx < length (str_split key sep)"
    using assms by (auto simp: GenHijackTsInKeyByIndex_def Let_def split: if_splits)
  show "n = bump (ts_prefix idx sep key)"
    using assms by (auto simp: GenHijackTsInKeyByIndex_def Let_def ts_prefix_def split: if_splits)
  have "key = str_join sep (take idx (str_split key sep) @ drop idx (str_split key sep))"
    by (simp add: str_join_split)
  also have "\<dots> = ts_prefix idx sep key @ sep @ str_join sep (drop idx (str_split key sep))"
    using idx unfolding ts_prefix_def by (intro str_join_append) auto
  finally show "\<exists>rest. key = ts_prefix idx sep key @ rest" by blast
qed

text \<open>Keys with a prefix of fixed width and a time stamp.\<close>

definition ts_key :: "char \<Rightarrow> nat \<Rightarrow> nat \<Rightarrow> string \<Rightarrow> bool" where
  "ts_key c w l key \<longleftrightarrow>
     (\<exists>p t. key = p @ c # t \<and> c \<notin> set p \<and> c \<notin> set t \<and> length p = w \<and> length t = l \<and> p \<noteq> [] \<and> last p \<noteq> CHR 0xFF)"

lemma split_scan_no_sep: "c \<notin> set s \<Longrightarrow> split_scan [c] acc s = [rev acc @ s]"
proof (induction s arbitrary: acc)
  case Nil
  show ?case by (subst split_scan.simps) simp
next
  case (Cons d s)
  then show ?case by (subst split_scan.simps) auto
qed

lemma split_scan_one_sep: "c \<notin> set p \<Longrightarrow> c \<notin> set t \<Longrightarrow> split_scan [c] acc (p @ c # t) = [rev acc @ p, t]"
proof (induction p arbitrary: acc)
  case Nil
  then show ?case by (subst split_scan.simps) (simp add: split_scan_no_sep)
next
  case (Cons d p)
  then show ?case by (subst split_scan.simps) auto
qed

lemma str_split_ts_key: "c \<notin> set p \<Longrightarrow> c \<notin> set t \<Longrightarrow> str_split (p @ c # t) [c] = [p, t]"
  by (simp add: str_split_def split_scan_one_sep)

lemma GenHijack_ts_key:
  assumes "c \<notin> set p" "c \<notin> set t" "p \<noteq> []" "length ts = length t"
  shows "GenHijackTsInKeyByIndex (Suc 0) [c] ts (p @ c # t) = (p @ c # ts, Some (bump p))"
  using assms by (simp add: GenHijackTsInKeyByIndex_def str_split_ts_key Let_def copy_into_def)

lemma bump_last: "p \<noteq> [] \<Longrightarrow> last p \<noteq> CHR 0xFF \<Longrightarrow> bump p = butlast p @ [char_of (of_char (last p) + 1 :: nat)]"
  using bump_snoc [of "last p" "butlast p" 0] by simp

lemma append_eq_length_le: "length xs = length ys \<Longrightarrow> (xs :: string) @ as \<le> ys @ bs \<longleftrightarrow> xs < ys \<or> xs = ys \<and> as \<le> bs"
  by (induction xs ys rule: list_induct2) auto

lemma append_eq_length_less: "length xs = length ys \<Longrightarrow> (xs :: string) @ as < ys @ bs \<longleftrightarrow> xs < ys \<or> xs = ys \<and> as < bs"
  by (induction xs ys rule: list_induct2) auto


lemma char_between: "c \<noteq> CHR 0xFF \<Longrightarrow> c \<le> d \<Longrightarrow> d < char_of (of_char c + 1 :: nat) \<Longrightarrow> d = c"
proof -
  assume c: "c \<noteq> CHR 0xFF" and d: "c \<le> d" "d < char_of (of_char c + 1 :: nat)"
  have "of_char c \<le> (of_char d :: nat)" "of_char d < (of_char c + 1 :: nat)"
    using d unfolding less_eq_char_def less_char_def succ_code [OF c] by simp_all
  then have "(of_char d :: nat) = of_char c" by linarith
  then show "d = c" by (rule of_char_eq_iff [THEN iffD1])
qed

lemma no_prefix_between:
  assumes "length p' = length p" "p \<noteq> []" "last p \<noteq> CHR 0xFF" "p \<le> p'" "p' < bump p"
  shows "p' = p"
proof -
  obtain q a where p: "p = q @ [a]" using assms(2) by (cases p rule: rev_cases) auto
  obtain q' b where p': "p' = q' @ [b]" "length q' = length q"
    using assms(1,2) p by (cases p' rule: rev_cases) auto
  have a: "a \<noteq> CHR 0xFF" "bump p = q @ [char_of (of_char a + 1 :: nat)]"
    using assms(2,3) p by (simp_all add: bump_last)
  have "q < q' \<or> q = q' \<and> a \<le> b" "q' < q \<or> q' = q \<and> b < char_of (of_char a + 1 :: nat)"
    using assms(4,5) p p' a(2) append_eq_length_le [of q q' "[a]" "[b]"]
      append_eq_length_less [of q' q "[b]" "[char_of (of_char a + 1 :: nat)]"] by (auto simp: less_imp_le)
  then have "q' = q" "a \<le> b" "b < char_of (of_char a + 1 :: nat)" by auto
  with char_between [OF a(1)] p p' show ?thesis by simp
qed

lemma ts_prefix_between:
  assumes "length p' = length p" "p \<noteq> []" "last p \<noteq> CHR 0xFF" "p @ c # t \<le> p' @ c # t'" "p' @ c # t' < bump p"
  shows "p' = p"
proof -
  have "p \<le> p'" using assms(1,4) append_eq_length_le [of p p' "c # t" "c # t'"] by auto
  moreover have "length p' = length (bump p)" using assms(1,2,3) by (simp add: bump_last)
  then have "p' < bump p" using assms(5) append_eq_length_less [of p' "bump p" "c # t'" "[]"] by simp
  ultimately show ?thesis using no_prefix_between assms(1-3) by blast
qed

lemma ts_prefix_within:
  fixes p :: string
  assumes "length p' = length p" "p @ c # ts1 \<le> p' @ c # t'" "p' @ c # t' \<le> p @ c # ts2"
  shows "p' = p"
  using assms append_eq_length_le [of p p' "c # ts1" "c # t'"] append_eq_length_le [of p' p "c # t'" "c # ts2"]
  by (auto dest: less_asym)

lemma ts_keys_groups:
  assumes "sorted_snapshot snap" "\<forall>e \<in> set snap. ts_key c w l (fst e)" "length ts1 = l" "length ts2 = l"
  shows "hijack_groups (GenHijackTsInKeyByIndex (Suc 0) [c]) ts1 ts2 snap"
proof -
  let ?f = "GenHijackTsInKeyByIndex (Suc 0) [c]"
  have key: "\<exists>p t. fst e = p @ c # t \<and> length p = w \<and> p \<noteq> [] \<and> last p \<noteq> CHR 0xFF
      \<and> ?f ts1 (fst e) = (p @ c # ts1, Some (bump p)) \<and> ?f ts2 (fst e) = (p @ c # ts2, Some (bump p))"
    if "e \<in> set snap" for e
  proof -
    from assms(2) that obtain p t where "fst e = p @ c # t" "c \<notin> set p" "c \<notin> set t" "length p = w" "length t = l"
      "p \<noteq> []" "last p \<noteq> CHR 0xFF" unfolding ts_key_def by blast
    with assms(3,4) show ?thesis by (auto simp: GenHijack_ts_key)
  qed
  show ?thesis
  proof
    show "sorted_snapshot snap" by (fact assms(1))
  next
    fix e
    assume "e \<in> set snap"
    from key [OF this] obtain p t where k: "fst e = p @ c # t" "p \<noteq> []" "last p \<noteq> CHR 0xFF"
      "?f ts1 (fst e) = (p @ c # ts1, Some (bump p))" "?f ts2 (fst e) = (p @ c # ts2, Some (bump p))" by blast
    then have "\<exists>x \<in> set p. x \<noteq> CHR 0xFF" using last_in_set by blast
    from less_bump [OF this] k show "\<exists>n. snd (?f ts1 (fst e)) = Some n \<and> fst e < n" by simp
    from k show "fst (?f ts2 (fst e)) \<noteq> []" by simp
  next
    fix e e' n
    assume e: "e \<in> set snap" "e' \<in> set snap"
    from key [OF e(1)] obtain p t where k: "fst e = p @ c # t" "length p = w" "p \<noteq> []" "last p \<noteq> CHR 0xFF"
      "?f ts1 (fst e) = (p @ c # ts1, Some (bump p))" "?f ts2 (fst e) = (p @ c # ts2, Some (bump p))" by blast
    from key [OF e(2)] obtain p' t' where k': "fst e' = p' @ c # t'" "length p' = w"
      "?f ts1 (fst e') = (p' @ c # ts1, Some (bump p'))" "?f ts2 (fst e') = (p' @ c # ts2, Some (bump p'))" by blast
    {
      assume "fst e \<le> fst e'" "snd (?f ts1 (fst e)) = Some n" "fst e' < n"
      with k k' have "p' = p" by (intro ts_prefix_between [of p' p c t t']) simp_all
      with k k' show "?f ts1 (fst e') = ?f ts1 (fst e) \<and> ?f ts2 (fst e') = ?f ts2 (fst e)" by simp
    next
      assume "fst (?f ts1 (fst e)) \<le> fst e'" "fst e' \<le> fst (?f ts2 (fst e))"
      with k k' have "p' = p" by (intro ts_prefix_within [of p' p c ts1 t' ts2]) simp_all
      with k k' show "?f ts1 (fst e') = ?f ts1 (fst e) \<and> ?f ts2 (fst e') = ?f ts2 (fst e)" by simp
    }
  qed
qed

text \<open>
  The generated callback on the entries of a list that have such keys, put into an empty column family, with time stamps cut
  or filled to the width of the field as the callback does.
\<close>

definition ts_snapshot :: "char \<Rightarrow> nat \<Rightarrow> nat \<Rightarrow> snapshot \<Rightarrow> snapshot" where
  "ts_snapshot c w l xs = foldr (\<lambda>(k, v). snap_put k v) (filter (\<lambda>e. ts_key c w l (fst e)) xs) []"

lemma keys_foldr_put: "fst ` set (foldr (\<lambda>(k, v). snap_put k v) xs []) = fst ` set xs"
proof (induction xs)
  case (Cons e xs)
  then show ?case by (cases e) (simp add: set_snap_put_keys)
qed simp

lemma sorted_ts_snapshot: "sorted_snapshot (ts_snapshot c w l xs)"
proof -
  have "sorted_snapshot (foldr (\<lambda>(k, v). snap_put k v) ys [])" for ys by (induction ys) (auto simp: sorted_snap_put)
  then show ?thesis by (simp add: ts_snapshot_def)
qed

lemma ts_snapshot_same:
  assumes "sorted_snapshot xs" "\<forall>e \<in> set xs. ts_key c w l (fst e)"
  shows "ts_snapshot c w l xs = xs"
proof -
  have "foldr (\<lambda>(k, v). snap_put k v) ys [] = ys" if "sorted_snapshot ys" for ys
    using that
  proof (induction ys)
    case (Cons e ys)
    then show ?case by (cases e; cases ys) auto
  qed simp
  with assms show ?thesis by (simp add: ts_snapshot_def)
qed

lemma length_copy_into [simp]: "length (copy_into l ts) = l"
  by (simp add: copy_into_def)

lemma copy_into_same: "length ts = l \<Longrightarrow> copy_into l ts = ts"
  by (simp add: copy_into_def)

interpretation ts_field: hijack_groups "GenHijackTsInKeyByIndex (Suc 0) [c]" "copy_into l a" "copy_into l b" "ts_snapshot c w l xs"
  for c w l a b xs
proof (rule ts_keys_groups [OF sorted_ts_snapshot])
  show "\<forall>e \<in> set (ts_snapshot c w l xs). ts_key c w l (fst e)"
  proof
    fix e
    assume "e \<in> set (ts_snapshot c w l xs)"
    then have "fst e \<in> fst ` set (ts_snapshot c w l xs)" by (rule imageI)
    then have "fst e \<in> fst ` set (filter (\<lambda>e. ts_key c w l (fst e)) xs)" by (simp only: ts_snapshot_def keys_foldr_put)
    then show "ts_key c w l (fst e)" by auto
  qed
qed simp_all

lemma ts_key_own_bounds:
  assumes "ts_key c w l key" "length ts1 = l" "length ts2 = l"
  shows "in_own_bounds (GenHijackTsInKeyByIndex (Suc 0) [c]) ts1 ts2 (key, v) \<longleftrightarrow>
    ts1 \<le> drop (Suc w) key \<and> drop (Suc w) key \<le> ts2"
  using assms by (auto simp: ts_key_def in_own_bounds_def GenHijack_ts_key)


section \<open>RocksDB as a key-value store\<close>

lemma KeyExist_iff: "sorted_snapshot xs \<Longrightarrow> (case seek key xs of [] \<Rightarrow> False | e # _ \<Rightarrow> fst e = key) \<longleftrightarrow> map_of xs key \<noteq> None"
proof (induction xs)
  case (Cons x xs)
  show ?case
  proof (cases "fst x < key")
    case True
    with Cons show ?thesis by (auto simp: seek_def)
  next
    case False
    with Cons.prems have "fst x = key \<or> key \<notin> fst ` set xs" by auto
    with False Cons.prems show ?thesis by (auto simp: seek_def map_of_eq_None_iff)
  qed
qed (simp add: seek_def)

definition rocks_entries where
  "rocks_entries eng r cf lo hi = fst (rocks_Range eng r None cf lo hi)"

definition rocks_usable :: "('d \<Rightarrow> bool) \<Rightarrow> ('d, 'h) rdb \<Rightarrow> string \<Rightarrow> bool" where
  "rocks_usable good r cf \<longleftrightarrow> good (rdb_DB r) \<and> rdb_CFHs r cf \<noteq> None"

lemma rocks_entries_eq:
  assumes "sorted_snapshot (cf_snapshot eng r cf)"
  shows "rocks_entries eng r cf lo hi =
    filter (\<lambda>e. lo \<le> fst e \<and> (hi = [] \<or> fst e \<le> hi)) (cf_snapshot eng r cf)"
proof -
  define opt where "opt = \<lparr>ro_StartKey = lo, ro_EndKey = hi, ro_StartTS = 0, ro_EndTS = 0, ro_TSFieldIndex = 0,
    ro_KeySeparator = [], ro_Key = [], ro_CF = cf, ro_Limit = 0, ro_IsJsonValue = False, ro_Ctx = None,
    ro_streamOutput = False\<rparr>"
  have "RangeForeach eng r opt = (limited (ro_Limit opt) 0
      (filter (\<lambda>e. ro_StartKey opt \<le> fst e \<and> (ro_EndKey opt = [] \<or> fst e \<le> ro_EndKey opt))
         (cf_snapshot eng r (ro_CF opt))), None)"
    by (rule RangeForeach_eq) (use assms in \<open>simp_all add: opt_def\<close>)
  then show ?thesis by (simp add: rocks_entries_def rocks_Range_def opt_def limited_def)
qed

sublocale rocks_engine_laws \<subseteq> key_value_impl "rocks_usable inv :: ('d, 'h) rdb \<Rightarrow> string \<Rightarrow> bool" "rocks_items eng" "rocks_Put eng" "rocks_Get eng"
    "rocks_Delete eng" "rocks_Exist eng" "rocks_entries eng"
proof
  fix s s' :: "('d, 'h) rdb" and b k v lo hi
  assume u: "rocks_usable inv s b"
  then obtain h where h: "rdb_CFHs s b = Some h" and i: "inv (rdb_DB s)" by (auto simp: rocks_usable_def)
  have srt: "sorted_snapshot (re_iter eng (rdb_DB s) (Some h))" using sorted [OF i] .
  show "rocks_usable inv s' b \<and> rocks_items eng s' b = (rocks_items eng s b)(k \<mapsto> v)" if "rocks_Put eng s b k v = (None, s')"
    using that h put [OF i, of h k v] srt
    by (auto simp: rocks_Put_def PutCF_def rocks_usable_def rocks_items_def cf_snapshot_def map_of_snap_put split: prod.splits)
  show "rocks_usable inv s' b \<and> rocks_items eng s' b = (rocks_items eng s b)(k := None)" if "rocks_Delete eng s b k = (None, s')"
    using that h delete [OF i, of h k]
    by (auto simp: rocks_Delete_def DeleteCF_def rocks_usable_def rocks_items_def cf_snapshot_def map_of_snap_del split: prod.splits)
  show "rocks_items eng s b k = Some v \<Longrightarrow> rocks_Get eng s b k = Inr v"
    by (simp add: rocks_Get_def GetCF_def rocks_items_def cf_snapshot_def h get [OF i])
  show "rocks_Exist eng s b k = (rocks_items eng s b k \<noteq> None)"
    using KeyExist_iff [OF srt, of k] by (simp add: rocks_Exist_def KeyExist_def rocks_items_def cf_snapshot_def h)
  have "sorted_snapshot (cf_snapshot eng s b)" using srt by (simp add: cf_snapshot_def h)
  then show "sorted_snapshot (rocks_entries eng s b lo hi) \<and>
      (\<forall>k v. ((k, v) \<in> set (rocks_entries eng s b lo hi)) =
        (rocks_items eng s b k = Some v \<and> lo \<le> k \<and> (hi = [] \<or> k \<le> hi)))"
    by (auto simp: rocks_entries_eq sorted_snapshot_filter rocks_items_def map_of_sorted_iff)
qed

context rocks_engine_laws begin

lemma rocks_is_key_value_impl:
  "key_value_impl (rocks_usable inv :: ('d, 'h) rdb \<Rightarrow> string \<Rightarrow> bool) (rocks_items eng) (rocks_Put eng) (rocks_Get eng) (rocks_Delete eng)
     (rocks_Exist eng) (rocks_entries eng)"
  by unfold_locales

lemma rocks_Get_missing: "rocks_usable inv r cf \<Longrightarrow> rocks_items eng r cf k = None \<Longrightarrow> rocks_Get eng r cf k = Inl (ErrNoValue k)"
  by (auto simp: rocks_usable_def rocks_Get_def GetCF_def rocks_items_def cf_snapshot_def get)

lemma sorted_cf: "inv (rdb_DB r) \<Longrightarrow> rdb_CFHs r cf = Some h \<Longrightarrow> sorted_snapshot (cf_snapshot eng r cf)"
  by (simp add: cf_snapshot_def sorted)

lemma delete_entries_snapshot:
  assumes "inv (rdb_DB r)" "\<And>d k. inv d \<Longrightarrow> fst (re_delete eng d (Some h) k) = None"
  shows "inv (rdb_DB (delete_entries eng (Some h) es r))
    \<and> rdb_CFHs (delete_entries eng (Some h) es r) = rdb_CFHs r
    \<and> re_iter eng (rdb_DB (delete_entries eng (Some h) es r)) =
        (re_iter eng (rdb_DB r))(Some h := filter (\<lambda>e. fst e \<notin> fst ` set es) (re_iter eng (rdb_DB r) (Some h)))"
  using assms(1)
proof (induction es arbitrary: r)
  case Nil
  then show ?case by (simp add: delete_entries_def fun_upd_idem)
next
  case (Cons e es)
  obtain d where d: "re_delete eng (rdb_DB r) (Some h) (fst e) = (None, d)"
    using assms(2) [OF Cons.prems, of "fst e"] by (cases "re_delete eng (rdb_DB r) (Some h) (fst e)") auto
  have step: "delete_entries eng (Some h) (e # es) r = delete_entries eng (Some h) es (r\<lparr>rdb_DB := d\<rparr>)"
    by (simp add: delete_entries_def DeleteCF_def d)
  from delete [OF Cons.prems d] have "inv d"
    "re_iter eng d = (re_iter eng (rdb_DB r))(Some h := snap_del (fst e) (re_iter eng (rdb_DB r) (Some h)))" by simp_all
  with Cons.IH [of "r\<lparr>rdb_DB := d\<rparr>"] show ?case
    by (auto simp: step snap_del_def fun_eq_iff intro: filter_cong)
qed

end

text \<open>A database in memory that obeys the laws, with the names of the column families as handles.\<close>

definition mem_rocks :: "(string \<Rightarrow> snapshot, string) rocks_engine" where
  "mem_rocks = \<lparr>re_iter = (\<lambda>d h. case h of None \<Rightarrow> [] | Some n \<Rightarrow> d n),
     re_get = (\<lambda>d h k. case h of None \<Rightarrow> Inl ''nil handle'' | Some n \<Rightarrow> Inr (map_of (d n) k)),
     re_put = (\<lambda>d h k v. case h of None \<Rightarrow> (Some ''nil handle'', d) | Some n \<Rightarrow> (None, d(n := snap_put k v (d n)))),
     re_delete = (\<lambda>d h k. case h of None \<Rightarrow> (Some ''nil handle'', d) | Some n \<Rightarrow> (None, d(n := snap_del k (d n))))\<rparr>"

definition mem_rocks_inv :: "(string \<Rightarrow> snapshot) \<Rightarrow> bool" where
  "mem_rocks_inv d \<longleftrightarrow> (\<forall>n. sorted_snapshot (d n))"

interpretation memrocks: rocks_engine_laws mem_rocks mem_rocks_inv
  by unfold_locales
    (auto simp: mem_rocks_def mem_rocks_inv_def sorted_snap_put sorted_snap_del intro!: ext split: option.split)

definition mem_rdb :: "snapshot \<Rightarrow> (string \<Rightarrow> snapshot, string) rdb" where
  "mem_rdb xs = \<lparr>rdb_DB = (\<lambda>n. if n = ''default'' then xs else []), rdb_CFHs = [''default'' \<mapsto> ''default'']\<rparr>"

lemma mem_rdb_simps [simp]:
  "rdb_CFHs (mem_rdb xs) ''default'' = Some ''default''"
  "sorted_snapshot xs \<Longrightarrow> mem_rocks_inv (rdb_DB (mem_rdb xs))"
  "cf_snapshot mem_rocks (mem_rdb xs) ''default'' = xs"
  by (auto simp: mem_rdb_def mem_rocks_inv_def cf_snapshot_def mem_rocks_def)


section \<open>Properties\<close>

text \<open>
  C5. On a database that obeys RocksDB's laws and a column family that is open: a number written
  by \<open>PutInt64\<close> is read back by \<open>GetInt64\<close>; \<open>kvdb.Get\<close> tells a missing key apart, and so does the method
  \<open>Get\<close>, with an error of its own; \<open>Range\<close> visits exactly the entries between the bounds in order.
\<close>

theorem rocks_store:
  assumes laws: "rocks_engine_laws eng good" and ok: "rocks_usable good r cf"
  shows "(PutInt64 (rocks_Put eng) r cf k n = (None, r') \<longrightarrow> GetInt64 (rocks_Get eng) r' cf k = Inr n)
    \<and> kvdb_Get (rocks_Exist eng) (rocks_Get eng) r cf k =
        (case rocks_items eng r cf k of None \<Rightarrow> Inl ErrKeyNotExisted | Some v \<Rightarrow> Inr v)
    \<and> (rocks_items eng r cf k = None \<longrightarrow> rocks_Get eng r cf k = Inl (ErrNoValue k))
    \<and> sorted_snapshot (rocks_entries eng r cf lo hi)
    \<and> ((k, v) \<in> set (rocks_entries eng r cf lo hi) \<longleftrightarrow>
        rocks_items eng r cf k = Some v \<and> lo \<le> k \<and> (hi = [] \<or> k \<le> hi))"
proof -
  note kv = rocks_engine_laws.rocks_is_key_value_impl [OF laws]
  show ?thesis
    using key_value_impl.int64_round_trip [OF kv ok] key_value_impl.kvdb_Get_spec [OF kv ok]
      rocks_engine_laws.rocks_Get_missing [OF laws ok] key_value_impl.range_items [OF kv ok]
    by blast
qed

theorem rocks_store_witness:
  "\<exists>r'. PutInt64 (rocks_Put mem_rocks) (mem_rdb []) ''default'' ''n'' 77 = (None, r')
     \<and> GetInt64 (rocks_Get mem_rocks) r' ''default'' ''n'' = Inr 77"
proof -
  have "rocks_usable mem_rocks_inv (mem_rdb []) ''default''" by (simp add: rocks_usable_def)
  moreover obtain r' where "PutInt64 (rocks_Put mem_rocks) (mem_rdb []) ''default'' ''n'' 77 = (None, r')"
    by (simp add: PutInt64_def rocks_Put_def PutCF_def mem_rocks_def)
  ultimately show ?thesis using rocks_store [OF memrocks.rocks_engine_laws_axioms] by blast
qed

text \<open>
  C24. \<open>RangeForeach\<close> without a context hands out the entries whose keys are between the start
  key and the end key, both included, in the order of the keys, an empty end key being no bound; with a
  positive limit the first that many of them; and it reports no error.
\<close>

theorem range_foreach_spec:
  assumes "rocks_engine_laws eng good" "good (rdb_DB r)" "rdb_CFHs r (ro_CF opt) = Some h" "ro_Ctx opt = None"
  shows "RangeForeach eng r opt =
     ((if 0 <s ro_Limit opt then take (nat (sint (ro_Limit opt))) else id)
        (filter (\<lambda>e. ro_StartKey opt \<le> fst e \<and> (ro_EndKey opt = [] \<or> fst e \<le> ro_EndKey opt))
           (re_iter eng (rdb_DB r) (Some h))), None)"
  using RangeForeach_eq [OF rocks_engine_laws.sorted_cf [OF assms(1-3)] assms(4)] assms(3)
  by (simp add: limited_def cf_snapshot_def)

theorem range_foreach_spec_witness:
  "RangeForeach mem_rocks (mem_rdb [(''a'', ''1''), (''b'', ''2''), (''c'', ''3'')])
     (NewRangeOption\<lparr>ro_StartKey := ''b''\<rparr>) = ([(''b'', ''2''), (''c'', ''3'')], None)"
proof -
  let ?r = "mem_rdb [(''a'', ''1''), (''b'', ''2''), (''c'', ''3'')]"
  have "re_iter mem_rocks (rdb_DB ?r) (Some ''default'') = [(''a'', ''1''), (''b'', ''2''), (''c'', ''3'')]"
    by (simp add: mem_rocks_def mem_rdb_def)
  then show ?thesis
    using range_foreach_spec [OF memrocks.rocks_engine_laws_axioms, of ?r "NewRangeOption\<lparr>ro_StartKey := ''b''\<rparr>" "''default''"]
    by (simp add: NewRangeOption_def DefaultColumnFamilyName_def i64_order)
qed

text \<open>
  C4. \<open>RangeForeachByTS\<close> with the generated callback, on keys that are a prefix of one width, the
  separator and a time stamp as long as the two bounds: it returns, and hands out exactly the entries
  whose time stamp is between the bounds, in the order of the keys and up to the limit.
\<close>

theorem range_by_ts_fixed_width:
  assumes "rocks_engine_laws eng good" "good (rdb_DB r)" "rdb_CFHs r (ro_CF opt) = Some h" "ro_Ctx opt = None"
    and "ts1 = FormatInt (sint (ro_StartTS opt))" "ts2 = FormatInt (sint (ro_EndTS opt))" "length ts2 = length ts1"
    and "\<forall>e \<in> set (re_iter eng (rdb_DB r) (Some h)). ts_key c w (length ts1) (fst e)"
  shows "RangeForeachByTS eng r opt (GenHijackTsInKeyByIndex 1 [c]) =
    Some (limited (ro_Limit opt) 0
      (filter (\<lambda>e. ts1 \<le> drop (w + 1) (fst e) \<and> drop (w + 1) (fst e) \<le> ts2) (re_iter eng (rdb_DB r) (Some h))), None)"
proof -
  let ?snap = "re_iter eng (rdb_DB r) (Some h)"
  have snap: "cf_snapshot eng r (ro_CF opt) = ?snap" using assms(3) by (simp add: cf_snapshot_def)
  have "ts_snapshot c w (length ts1) ?snap = ?snap"
    by (rule ts_snapshot_same [OF rocks_engine_laws.sorted [OF assms(1,2)] assms(8)])
  with ts_field.ts_loop_all [where c = c and l = "length ts1" and a = ts1 and b = ts2 and w = w and xs = ?snap and limit = "ro_Limit opt"] assms(7)
  have loop: "ts_loop (GenHijackTsInKeyByIndex (Suc 0) [c]) ts1 ts2 (ro_Limit opt) None ?snap 0 ?snap =
      Some (limited (ro_Limit opt) 0 (filter (in_own_bounds (GenHijackTsInKeyByIndex (Suc 0) [c]) ts1 ts2) ?snap), False)"
    by (simp add: copy_into_same)
  have "filter (in_own_bounds (GenHijackTsInKeyByIndex (Suc 0) [c]) ts1 ts2) ?snap =
      filter (\<lambda>e. ts1 \<le> drop (w + 1) (fst e) \<and> drop (w + 1) (fst e) \<le> ts2) ?snap"
    using assms(7,8) ts_key_own_bounds [of c w "length ts1" _ ts1 ts2] by (intro filter_cong) (auto split: prod.split)
  with loop show ?thesis by (simp add: RangeForeachByTS_def snap assms(4) flip: assms(5,6))
qed

definition demo_ts_snapshot :: snapshot where
  "demo_ts_snapshot = [(''a,5'', ''x''), (''a,8'', ''y''), (''b,6'', ''z'')]"

theorem range_by_ts_fixed_width_witness:
  "RangeForeachByTS mem_rocks (mem_rdb demo_ts_snapshot) (NewRangeOption\<lparr>ro_StartTS := 5, ro_EndTS := 6\<rparr>)
     (GenHijackTsInKeyByIndex 1 '','') = Some ([(''a,5'', ''x''), (''b,6'', ''z'')], None)"
proof -
  let ?r = "mem_rdb demo_ts_snapshot" and ?opt = "NewRangeOption\<lparr>ro_StartTS := 5, ro_EndTS := 6\<rparr>"
  have srt: "sorted_snapshot demo_ts_snapshot" by (simp add: demo_ts_snapshot_def)
  have it: "re_iter mem_rocks (rdb_DB ?r) (Some ''default'') = demo_ts_snapshot"
    by (simp add: mem_rocks_def mem_rdb_def)
  have fmt: "FormatInt 5 = ''5''" "FormatInt 6 = ''6''" by code_simp+
  have key: "ts_key (CHR '','') (Suc 0) (Suc 0) [a, CHR '','', d]" if "a \<noteq> CHR '',''" "a \<noteq> CHR 0xFF" "d \<noteq> CHR '',''" for a d
    unfolding ts_key_def by (rule exI [of _ "[a]"], rule exI [of _ "[d]"]) (use that in simp)
  have keys: "\<forall>e \<in> set demo_ts_snapshot. ts_key (CHR '','') 1 1 (fst e)"
    by (simp add: demo_ts_snapshot_def key)
  have "RangeForeachByTS mem_rocks ?r ?opt (GenHijackTsInKeyByIndex 1 '','') =
    Some (limited (ro_Limit ?opt) 0 (filter (\<lambda>e. ''5'' \<le> drop (1 + 1) (fst e) \<and> drop (1 + 1) (fst e) \<le> ''6'')
      (re_iter mem_rocks (rdb_DB ?r) (Some ''default''))), None)"
  proof (rule range_by_ts_fixed_width [OF memrocks.rocks_engine_laws_axioms])
    show "\<forall>e \<in> set (re_iter mem_rocks (rdb_DB ?r) (Some ''default'')). ts_key (CHR '','') 1 (length ''5'') (fst e)"
      using keys by (simp only: it list.size) simp
  qed (simp_all add: srt fmt NewRangeOption_def DefaultColumnFamilyName_def)
  then show ?thesis by (simp only: it) (simp add: NewRangeOption_def limited_def i64_order demo_ts_snapshot_def)
qed

text \<open>
  C25. \<open>RangeForeachByTS\<close> with the generated callback returns, whatever the field index, the
  limits, the context and the form of the keys, when before the time stamp field every key has an octet
  other than \<open>0xff\<close>, the ones that can be incremented.
\<close>

theorem range_by_ts_returns:
  assumes "rocks_engine_laws eng good" "good (rdb_DB r)" "rdb_CFHs r (ro_CF opt) = Some h"
    and "\<forall>e \<in> set (re_iter eng (rdb_DB r) (Some h)). \<exists>c \<in> set (ts_prefix idx sep (fst e)). c \<noteq> CHR 0xFF"
  shows "\<exists>y. RangeForeachByTS eng r opt (GenHijackTsInKeyByIndex idx sep) = Some y"
proof -
  let ?f = "GenHijackTsInKeyByIndex idx sep" and ?snap = "re_iter eng (rdb_DB r) (Some h)"
  have "fst e < n" if "e \<in> set ?snap" "snd (?f ts (fst e)) = Some n" for e n ts
    using GenHijack_next [OF that(2)] less_bump assms(4) that(1) by metis
  then have "\<exists>y. ts_loop ?f ts1 ts2 (ro_Limit opt) (ro_Ctx opt) ?snap 0 ?snap = Some y" for ts1 ts2
    using ts_loop_returns [of ?snap ?f ts1 "[]" ?snap] rocks_engine_laws.sorted [OF assms(1,2), of h] by simp
  then show ?thesis using assms(3) by (simp add: RangeForeachByTS_def cf_snapshot_def Let_def)
qed

theorem range_by_ts_returns_witness:
  "\<exists>y. RangeForeachByTS mem_rocks (mem_rdb [(''a,b,5'', ''x''), (''q,7'', ''y'')]) NewRangeOption
     (GenHijackTsInKeyByIndex 1 '','') = Some y"
proof -
  let ?r = "mem_rdb [(''a,b,5'', ''x''), (''q,7'', ''y'')]"
  have it: "re_iter mem_rocks (rdb_DB ?r) (Some ''default'') = [(''a,b,5'', ''x''), (''q,7'', ''y'')]"
    by (simp add: mem_rocks_def mem_rdb_def)
  have pre: "ts_prefix 1 '','' ''a,b,5'' = ''a''" "ts_prefix 1 '','' ''q,7'' = ''q''" by code_simp+
  show ?thesis
    by (rule range_by_ts_returns [OF memrocks.rocks_engine_laws_axioms, of ?r NewRangeOption "''default''"])
      (simp_all add: it pre [simplified] NewRangeOption_def DefaultColumnFamilyName_def)
qed

text \<open>
  A key whose part before the time stamp is all \<open>0xff\<close> cannot be incremented: the enumeration seeks it
  again and again.
\<close>

lemma ts_loop_stuck:
  assumes "\<And>c. range_loop limit ctx (fst (f ts2 k)) c (seek ks snap) = ([], Exhausted)"
    "f ts1 k = (ks, Some n)" "seek n snap = (k, v) # es"
  shows "ts_loop f ts1 ts2 limit ctx snap cnt ((k, v) # es) = None"
proof -
  let ?P = "\<lambda>f' t1 t2 l x s (c :: nat) p (y :: snapshot \<times> bool). f' = f \<longrightarrow> t1 = ts1 \<longrightarrow> t2 = ts2 \<longrightarrow> l = limit \<longrightarrow>
      x = ctx \<longrightarrow> s = snap \<longrightarrow> p = (k, v) # es \<longrightarrow> False"
  have "?P f ts1 ts2 limit ctx snap cnt ((k, v) # es) y" if "ts_loop f ts1 ts2 limit ctx snap cnt ((k, v) # es) = Some y" for y
    by (rule ts_loop.raw_induct [of ?P, OF _ that]) (use assms in \<open>(auto simp: bind_eq_Some_conv; blast)\<close>)
  then show ?thesis by (cases "ts_loop f ts1 ts2 limit ctx snap cnt ((k, v) # es)") blast+
qed

definition demo_ff_snapshot :: snapshot where
  "demo_ff_snapshot = [([CHR 0xFF, CHR '','', CHR ''5''], ''v'')]"

text \<open>
  On a database with the one entry whose key is the octet \<open>0xff\<close>, a comma and a time
  stamp outside the bounds, \<open>RangeForeachByTS\<close> with the default field index never returns.
\<close>

theorem range_by_ts_runs_forever:
  "RangeForeachByTS mem_rocks (mem_rdb demo_ff_snapshot) (NewRangeOption\<lparr>ro_StartTS := 6, ro_EndTS := 7\<rparr>)
     (GenHijackTsInKeyByIndex 1 '','') = None"
proof -
  let ?f = "GenHijackTsInKeyByIndex 1 '','' "
  let ?k = "[CHR 0xFF, CHR '','', CHR ''5'']"
  have f: "?f ''6'' ?k = ([CHR 0xFF, CHR '','', CHR ''6''], Some [CHR 0xFF])"
    "fst (?f ''7'' ?k) = [CHR 0xFF, CHR '','', CHR ''7'']" by code_simp+
  have fmt: "FormatInt 6 = ''6''" "FormatInt 7 = ''7''" by code_simp+
  have seek: "seek [CHR 0xFF, CHR '','', CHR ''6''] demo_ff_snapshot = []" "seek [CHR 0xFF] demo_ff_snapshot = demo_ff_snapshot"
    by code_simp+
  have srt: "sorted_snapshot demo_ff_snapshot" by (simp add: demo_ff_snapshot_def)
  have "ts_loop ?f ''6'' ''7'' (- 1) None demo_ff_snapshot 0 ((?k, ''v'') # []) = None"
    by (rule ts_loop_stuck [where ks = "[CHR 0xFF, CHR '','', CHR ''6'']" and n = "[CHR 0xFF]"])
      (use f seek in \<open>simp_all add: demo_ff_snapshot_def\<close>)
  moreover have "(?k, ''v'') # [] = demo_ff_snapshot" by (simp add: demo_ff_snapshot_def)
  ultimately show ?thesis using srt
    by (simp add: RangeForeachByTS_def fmt NewRangeOption_def DefaultColumnFamilyName_def mem_rdb_simps(3))
qed

definition demo_dev_snapshot :: snapshot where
  "demo_dev_snapshot = [(''dev1,5'', ''x''), (''dev10,5'', ''y''), (''dev2,5'', ''z'')]"

text \<open>
  Where the parts before the time stamps differ in length the enumeration leaves out
  keys: going on from \<open>dev1\<close> at \<open>dev2\<close> passes over \<open>dev10\<close>, whose time stamp is within the bounds. And
  with field index 0, which the documentation of the option allows, nothing at all is handed out.
\<close>

theorem range_by_ts_skips_keys:
  "RangeForeachByTS mem_rocks (mem_rdb demo_dev_snapshot) (NewRangeOption\<lparr>ro_StartTS := 5, ro_EndTS := 5\<rparr>)
     (GenHijackTsInKeyByIndex 1 '','') = Some ([(''dev1,5'', ''x''), (''dev2,5'', ''z'')], None)
   \<and> RangeForeachByTS mem_rocks (mem_rdb demo_ts_snapshot) (NewRangeOption\<lparr>ro_StartTS := 5, ro_EndTS := 5\<rparr>)
     (GenHijackTsInKeyByIndex 0 '','') = Some ([], None)"
  by code_simp

text \<open>
  \<open>DeleteRangeByKey\<close>, on an engine whose deletions succeed, removes exactly what \<open>RangeForeach\<close> hands out for the same
  option, and leaves the other column families and the handles as they are.
\<close>

lemma DeleteRangeByKey_effect:
  assumes "rocks_engine_laws eng good" "good (rdb_DB r)" "rdb_CFHs r (ro_CF opt) = Some h" "ro_Ctx opt = None"
    and "\<And>d k. good d \<Longrightarrow> fst (re_delete eng d (Some h) k) = None"
  shows "good (rdb_DB (DeleteRangeByKey eng r opt))" "rdb_CFHs (DeleteRangeByKey eng r opt) = rdb_CFHs r"
    "re_iter eng (rdb_DB (DeleteRangeByKey eng r opt)) = (re_iter eng (rdb_DB r))(Some h :=
        filter (\<lambda>e. e \<notin> set (fst (RangeForeach eng r opt))) (re_iter eng (rdb_DB r) (Some h)))"
proof -
  let ?snap = "re_iter eng (rdb_DB r) (Some h)" and ?vis = "fst (RangeForeach eng r opt)"
  have srt: "sorted_snapshot ?snap" by (rule rocks_engine_laws.sorted [OF assms(1,2)])
  have sub: "set ?vis \<subseteq> set ?snap"
    using RangeForeach_eq [OF rocks_engine_laws.sorted_cf [OF assms(1-3)] assms(4)] assms(3)
    by (auto simp: limited_def cf_snapshot_def dest: in_set_takeD)
  have "fst e \<notin> fst ` set ?vis \<longleftrightarrow> e \<notin> set ?vis" if "e \<in> set ?snap" for e
    using inj_on_image_mem_iff [of fst, OF _ that sub] sorted_snapshot_distinct [OF srt] by (simp add: distinct_map)
  then have "filter (\<lambda>e. fst e \<notin> fst ` set ?vis) ?snap = filter (\<lambda>e. e \<notin> set ?vis) ?snap"
    by (intro filter_cong) auto
  with rocks_engine_laws.delete_entries_snapshot [OF assms(1,2,5), of ?vis]
  show "good (rdb_DB (DeleteRangeByKey eng r opt))" "rdb_CFHs (DeleteRangeByKey eng r opt) = rdb_CFHs r"
    "re_iter eng (rdb_DB (DeleteRangeByKey eng r opt)) = (re_iter eng (rdb_DB r))(Some h :=
        filter (\<lambda>e. e \<notin> set ?vis) ?snap)"
    by (simp_all add: DeleteRangeByKey_def assms(3))
qed

end
