(* ===== verification/KeyCursor.thy ===== *)
theory KeyCursor
  imports BoltDB RocksRange
begin

text \<open>
  The whole interface \<open>KeyValueImpl\<close> of \<open>kvdb/kvdb.go\<close>, with its iterators: the contract of \<open>Seek\<close>, \<open>First\<close> and \<open>Last\<close>, that both
  implementations keep it, and that a client cannot tell them apart.
\<close>

section \<open>Iterators\<close>




definition last_entry :: "snapshot \<Rightarrow> (string \<times> string) option" where
  "last_entry xs = (if xs = [] then None else Some (last xs))"



lemma last_entry_greatest:
  "sorted_snapshot xs \<Longrightarrow> last_entry xs = Some e \<longleftrightarrow> e \<in> set xs \<and> (\<forall>e' \<in> set xs. fst e' \<le> fst e)"
proof (cases xs rule: rev_cases)
  case (snoc ys x)
  assume srt: "sorted_snapshot xs"
  then have above: "\<forall>y \<in> set ys. fst y < fst x" by (simp add: snoc sorted_snapshot_def sorted_wrt_append)
  have "e = x" if "e \<in> set xs" "fst x \<le> fst e"
    using that above snoc by (auto dest: leD)
  with above show ?thesis by (auto simp: snoc last_entry_def)
qed (simp add: last_entry_def)






section \<open>The two implementations\<close>



section \<open>Two stores with the same contents\<close>





section \<open>Properties\<close>




end
