(* ===== verification/RocksAdmin.thy ===== *)
theory RocksAdmin
  imports RocksDB
begin

text \<open>
  The rest of \<open>rocksdb/rocksdb.go\<close>: the options of a database, opening as a secondary, compaction, properties,
  backups, the seek with an upper bound, and the contexts an option is given. What \<open>gorocksdb\<close> does for these is an argument, the record
  \<open>rocks_admin\<close>; a backup engine is a value that opening it gives.
\<close>

section \<open>Options of a database\<close>

record db_options =
  do_KeepLogFileNum :: int
  do_InfoLogLevel :: string
  do_MaxLogFileSize :: int
  do_MaxTotalWalSize :: int
  do_WALTtlSeconds :: int
  do_WalSizeLimitMb :: int
  do_RateLimiter :: "(int \<times> int \<times> int) option"
  do_CreateIfMissing :: bool
  do_CreateIfMissingColumnFamilies :: bool

definition DefaultRateLimiter :: "int \<times> int \<times> int" where
  "DefaultRateLimiter = (10 * 2 ^ 20, 100000, 10)"

definition setDefault :: "db_options \<Rightarrow> db_options" where
  "setDefault opts = opts\<lparr>do_KeepLogFileNum := 1, do_InfoLogLevel := ''warn'', do_MaxLogFileSize := 128 * 2 ^ 20,
     do_MaxTotalWalSize := 128 * 2 ^ 20, do_WALTtlSeconds := 60, do_WalSizeLimitMb := 8,
     do_RateLimiter := Some DefaultRateLimiter\<rparr>"

text \<open>\<open>base\<close> is what \<open>NewDefaultOptions\<close> of the library gives.\<close>

definition NewDBOptions :: "db_options \<Rightarrow> db_options" where
  "NewDBOptions base =
     (setDefault base)\<lparr>do_CreateIfMissing := True, do_CreateIfMissingColumnFamilies := True\<rparr>"

section \<open>Opening as a secondary\<close>

text \<open>As \<open>New\<close>, with the paths of the master and of the secondary; \<open>open_db\<close> takes both.\<close>

definition NewSecondary ::
    "string \<Rightarrow> string \<Rightarrow> (string \<Rightarrow> (string + string list) option) \<Rightarrow>
     (string \<Rightarrow> string \<Rightarrow> string list \<Rightarrow> cf_options list \<Rightarrow> string + 'd \<times> 'h list) \<Rightarrow>
     cf_options_map option \<Rightarrow> open_error + ('d, 'h) rdb" where
  "NewSecondary master secondary listed open_db cfOpts =
     (let opts = AddDefaultCF (case cfOpts of None \<Rightarrow> [] | Some m \<Rightarrow> m) in
      case (case listed master of None \<Rightarrow> Inr [] | Some r \<Rightarrow> r) of
        Inl err \<Rightarrow> Inl (ListFailed err)
      | Inr cfsDB \<Rightarrow>
          (case GetKVPair (fold add_cf cfsDB opts) of (keys, values) \<Rightarrow>
             (case open_db master secondary keys values of
                Inl err \<Rightarrow> Inl (OpenFailed err)
              | Inr (d, handles) \<Rightarrow> Inr \<lparr>rdb_DB = d, rdb_CFHs = map_of (zip keys handles)\<rparr>)))"

text \<open>Every column family the database has, and the default one, is opened and has a handle.\<close>

lemma fold_add_cf_keys: "set (map fst (fold add_cf vs opts)) = set (map fst opts) \<union> set vs"
  by (induction vs arbitrary: opts) (auto simp: add_cf_def map_of_eq_None_iff)

lemma fold_add_cf_distinct: "distinct (map fst opts) \<Longrightarrow> distinct (map fst (fold add_cf vs opts))"
  by (induction vs arbitrary: opts) (auto simp: add_cf_def map_of_eq_None_iff image_iff)

lemma AddDefaultCF_keys:
  "set (map fst (AddDefaultCF opts)) = insert DefaultColumnFamilyName (set (map fst opts))"
  "distinct (map fst opts) \<Longrightarrow> distinct (map fst (AddDefaultCF opts))"
  by (auto simp: AddDefaultCF_def map_of_eq_None_iff image_iff)

lemma dom_zip_handles: "length ks = length hs \<Longrightarrow> dom (map_of (zip ks hs)) = set ks"
  by (simp add: dom_map_of_zip)

lemma rocksdb_New_handles:
  assumes "rocksdb_New listed open_db cfOpts = Inr r"
    and "\<And>ks vs d hs. open_db ks vs = Inr (d, hs) \<Longrightarrow> length hs = length ks"
  shows "dom (rdb_CFHs r) = insert DefaultColumnFamilyName
    (set (map fst (case cfOpts of None \<Rightarrow> [] | Some m \<Rightarrow> m)) \<union> set (case listed of Some (Inr cfs) \<Rightarrow> cfs | _ \<Rightarrow> []))"
proof -
  let ?opts = "AddDefaultCF (case cfOpts of None \<Rightarrow> [] | Some m \<Rightarrow> m)"
  let ?cfs = "case listed of Some (Inr cfs) \<Rightarrow> cfs | _ \<Rightarrow> []"
  let ?all = "fold add_cf ?cfs ?opts"
  have "(case listed of None \<Rightarrow> Inr [] | Some r \<Rightarrow> r) = (Inr ?cfs :: string + string list)"
    using assms(1) by (auto simp: rocksdb_New_def Let_def split: option.splits sum.splits)
  with assms(1) obtain d hs where o: "open_db (map fst ?all) (map snd ?all) = Inr (d, hs)"
    and r: "r = \<lparr>rdb_DB = d, rdb_CFHs = map_of (zip (map fst ?all) hs)\<rparr>"
    unfolding rocksdb_New_def Let_def GetKVPair_def by (auto split: sum.splits)
  have "dom (rdb_CFHs r) = set (map fst ?all)"
    using assms(2) [OF o] by (simp add: r dom_zip_handles del: set_map)
  then show ?thesis by (simp only: fold_add_cf_keys AddDefaultCF_keys) auto
qed

section \<open>Properties and backups\<close>

record backup_info =
  bi_NumFiles :: "32 word"
  bi_Size :: i64
  bi_Timestamp :: i64
  bi_ID :: i64

record ('d, 'h) rocks_admin =
  ra_flush :: "'d \<Rightarrow> string option"
  ra_compact :: "'d \<Rightarrow> 'h \<Rightarrow> 'd"
  ra_property :: "'d \<Rightarrow> string \<Rightarrow> string"
  ra_property_cf :: "'d \<Rightarrow> string \<Rightarrow> 'h option \<Rightarrow> string"
  ra_open_backup :: "string \<Rightarrow> string + unit"
  ra_create_backup :: "string \<Rightarrow> 'd \<Rightarrow> string option"
  ra_purge :: "string \<Rightarrow> 32 word \<Rightarrow> string option"
  ra_restore :: "string \<Rightarrow> string \<Rightarrow> string \<Rightarrow> string option"
  ra_backups :: "string \<Rightarrow> backup_info list"

text \<open>A \<open>Property\<close> and a \<open>PropertyPrefix\<close> are strings; the package names these.\<close>

datatype rdb_property =
    KStats | KSSTables | KLevelStats | KEstimateNumKeys | KBackgroundErrors | KEstimateLiveDataSize | KNumSnapshots
  | KOldestSnapshotTime | KNumLiveVersions | KCurrentSuperVersionNumber | KTotalSstFilesSize | KAggregatedTableProperties

primrec property_text :: "rdb_property \<Rightarrow> string" where
  "property_text KStats = ''stats''"
| "property_text KSSTables = ''sstables''"
| "property_text KLevelStats = ''levelstats''"
| "property_text KEstimateNumKeys = ''estimate-num-keys''"
| "property_text KBackgroundErrors = ''background-errors''"
| "property_text KEstimateLiveDataSize = ''estimate-live-data-size''"
| "property_text KNumSnapshots = ''num-snapshots''"
| "property_text KOldestSnapshotTime = ''oldest-snapshot-time''"
| "property_text KNumLiveVersions = ''num-live-versions''"
| "property_text KCurrentSuperVersionNumber = ''current-super-version-number''"
| "property_text KTotalSstFilesSize = ''total-sst-files-size''"
| "property_text KAggregatedTableProperties = ''aggregated-table-properties''"

datatype rdb_property_prefix = KNumFilesAtLevelPrefix | KCompressionRatioAtLevelPrefix | KAggregatedTablePropertiesAtLevel

primrec prefix_text :: "rdb_property_prefix \<Rightarrow> string" where
  "prefix_text KNumFilesAtLevelPrefix = ''num-files-at-level''"
| "prefix_text KCompressionRatioAtLevelPrefix = ''compression-ratio-at-level''"
| "prefix_text KAggregatedTablePropertiesAtLevel = ''aggregated-table-properties-at-level''"

definition rocksdbPrefix :: string where "rocksdbPrefix = ''rocksdb.''"

definition GetProperty where "GetProperty adm r name = ra_property adm (rdb_DB r) (rocksdbPrefix @ name)"
definition GetPropertyCF where "GetPropertyCF adm r name cf = ra_property_cf adm (rdb_DB r) (rocksdbPrefix @ name) cf"
definition GetPropertyWithPrefix where
  "GetPropertyWithPrefix adm r pre name = ra_property adm (rdb_DB r) (rocksdbPrefix @ name @ FormatInt pre)"

datatype admin_error = BackupOpenFailed string | BackupFailed string | NoBackups string | NilDB | MarshalFailed string

definition GetBackupEngine :: "('d, 'h) rocks_admin \<Rightarrow> string \<Rightarrow> admin_error option" where
  "GetBackupEngine adm fn = (case ra_open_backup adm fn of Inl err \<Rightarrow> Some (BackupOpenFailed err) | Inr _ \<Rightarrow> None)"

definition Backup :: "('d, 'h) rocks_admin \<Rightarrow> ('d, 'h) rdb \<Rightarrow> string \<Rightarrow> admin_error option" where
  "Backup adm r fn =
     (case GetBackupEngine adm fn of Some e \<Rightarrow> Some e
      | None \<Rightarrow> map_option BackupFailed (ra_create_backup adm fn (rdb_DB r)))"

definition PurgeOldBackups :: "('d, 'h) rocks_admin \<Rightarrow> string \<Rightarrow> 32 word \<Rightarrow> admin_error option" where
  "PurgeOldBackups adm fn numBackupsToKeep =
     (case GetBackupEngine adm fn of Some e \<Rightarrow> Some e
      | None \<Rightarrow> map_option BackupFailed (ra_purge adm fn numBackupsToKeep))"

definition Restore :: "('d, 'h) rocks_admin \<Rightarrow> string \<Rightarrow> string \<Rightarrow> admin_error option" where
  "Restore adm backupPath restorePath =
     (case GetBackupEngine adm backupPath of Some e \<Rightarrow> Some e
      | None \<Rightarrow> map_option BackupFailed (ra_restore adm backupPath restorePath restorePath))"

definition GetBackupInfo :: "('d, 'h) rocks_admin \<Rightarrow> string \<Rightarrow> admin_error + backup_info list" where
  "GetBackupInfo adm fn =
     (case GetBackupEngine adm fn of
        Some e \<Rightarrow> Inl e
      | None \<Rightarrow> (case ra_backups adm fn of [] \<Rightarrow> Inl (NoBackups fn) | bs \<Rightarrow> Inr bs))"

record cf_info =
  ci_Name :: string
  ci_EstimateNumKeys :: string
  ci_TotalSstFilesSize :: string
  ci_LevelStats :: string

text \<open>\<open>Info\<close>; \<open>names\<close> lists the column families in the order the iteration of the map takes.\<close>

definition cf_info_of :: "('d, 'h) rocks_admin \<Rightarrow> ('d, 'h) rdb \<Rightarrow> bool \<Rightarrow> string \<Rightarrow> cf_info" where
  "cf_info_of adm r verbose k =
     \<lparr>ci_Name = k, ci_EstimateNumKeys = GetPropertyCF adm r (property_text KEstimateNumKeys) (rdb_CFHs r k),
      ci_TotalSstFilesSize = GetPropertyCF adm r (property_text KTotalSstFilesSize) (rdb_CFHs r k),
      ci_LevelStats = (if verbose then GetPropertyCF adm r (property_text KLevelStats) (rdb_CFHs r k) else [])\<rparr>"

definition Info ::
    "(cf_info list \<Rightarrow> string + string) \<Rightarrow> ('d, 'h) rocks_admin \<Rightarrow> string list \<Rightarrow> ('d, 'h) rdb option \<Rightarrow> bool \<Rightarrow>
     admin_error + string" where
  "Info marshal adm names ro verbose =
     (case ro of
        None \<Rightarrow> Inl NilDB
      | Some r \<Rightarrow>
          (case marshal (map (cf_info_of adm r verbose) names) of
             Inl err \<Rightarrow> Inl (MarshalFailed err)
           | Inr data \<Rightarrow> Inr data))"

text \<open>\<open>Flush\<close> hands the error of the library on.\<close>

definition Flush :: "('d, 'h) rocks_admin \<Rightarrow> ('d, 'h) rdb \<Rightarrow> string option" where
  "Flush adm r = ra_flush adm (rdb_DB r)"

definition CompactCF :: "('d, 'h) rocks_admin \<Rightarrow> 'h \<Rightarrow> ('d, 'h) rdb \<Rightarrow> ('d, 'h) rdb" where
  "CompactCF adm cf r = r\<lparr>rdb_DB := ra_compact adm (rdb_DB r) cf\<rparr>"

section \<open>Opening to look and closing\<close>

text \<open>
  \<open>Exist\<close> opens the database read-only, and closes it again. \<open>Close\<close> of a handle: the library's \<open>Close\<close> of the database, the
  files of a secondary removed, and the message when that fails; the handle then has no database.
\<close>

definition rocksdb_Exist :: "(string \<Rightarrow> string + 'd) \<Rightarrow> string \<Rightarrow> bool" where
  "rocksdb_Exist open_ro fn = (case open_ro fn of Inl err \<Rightarrow> False | Inr tmp \<Rightarrow> True)"

record 'd rdb_handle =
  rh_DB :: "'d option"
  rh_secondaryPath :: string

datatype 'd close_effect = CloseDB 'd | DestroyDb string | PrintDestroyFailed string string

definition rocks_Close :: "(string \<Rightarrow> string option) \<Rightarrow> 'd rdb_handle \<Rightarrow> 'd rdb_handle \<times> 'd close_effect list" where
  "rocks_Close destroy h =
     (case rh_DB h of
        None \<Rightarrow> (h, [])
      | Some d \<Rightarrow>
          let path = rh_secondaryPath h in
          (h\<lparr>rh_DB := None\<rparr>,
           CloseDB d # (if path = [] then []
             else DestroyDb path # (case destroy path of None \<Rightarrow> [] | Some err \<Rightarrow> [PrintDestroyFailed path err]))))"

lemma rocks_Close_twice: "rocks_Close destroy (fst (rocks_Close destroy h)) = (fst (rocks_Close destroy h), [])"
  by (cases "rh_DB h") (simp_all add: rocks_Close_def Let_def)

section \<open>The last keys below a bound\<close>

text \<open>
  \<open>SeekKeyUpperBound\<close>: an iterator with an upper bound sees the entries below it, and \<open>SeekForPrev\<close> of the bound
  moves to the last of them. \<open>no_key\<close> is what the key of an iterator that is nowhere is. A nil bound does not bound.
\<close>

definition bounded_iter :: "string \<Rightarrow> snapshot \<Rightarrow> snapshot" where
  "bounded_iter upper xs = (if upper = [] then xs else takeWhile (\<lambda>e. fst e < upper) xs)"

definition SeekKeyUpperBound ::
    "('d, 'h) rocks_engine \<Rightarrow> string \<Rightarrow> ('d, 'h) rdb \<Rightarrow> 'h option \<Rightarrow> string \<Rightarrow> string \<Rightarrow> string option \<times> string option" where
  "SeekKeyUpperBound eng no_key r cf key upper =
     (let xs = bounded_iter upper (re_iter eng (rdb_DB r) cf) in
      case seek key xs of
        [] \<Rightarrow> (None, None)
      | e # _ \<Rightarrow> (Some (fst e), Some (case seek_for_prev upper xs of None \<Rightarrow> no_key | Some l \<Rightarrow> fst l)))"

lemma takeWhile_below:
  "sorted_snapshot xs \<Longrightarrow> takeWhile (\<lambda>e. fst e < upper) xs = filter (\<lambda>e. fst e < upper) xs"
proof (induction xs)
  case (Cons x xs)
  show ?case
  proof (cases "fst x < upper")
    case False
    with Cons.prems have "\<forall>y \<in> set xs. \<not> fst y < upper" by (auto simp: sorted_snapshot_def)
    with False show ?thesis by (simp add: filter_False)
  qed (use Cons in \<open>simp add: sorted_snapshot_def\<close>)
qed simp

lemma case_last: "(case ys of [] \<Rightarrow> None | y # l \<Rightarrow> Some (last (y # l))) = (if ys = [] then None else Some (last ys))"
  by (cases ys) auto

lemma sorted_bounded: "sorted_snapshot xs \<Longrightarrow> sorted_snapshot (filter P xs)"
  by (simp add: sorted_snapshot_def sorted_wrt_map sorted_wrt_filter)

text \<open>The first and the last key from \<open>key\<close> on and below the bound, or neither.\<close>

theorem seek_key_upper_bound:
  assumes "sorted_snapshot (re_iter eng (rdb_DB r) cf)" "upper \<noteq> []"
  shows "SeekKeyUpperBound eng no_key r cf key upper =
    (case filter (\<lambda>e. key \<le> fst e \<and> fst e < upper) (re_iter eng (rdb_DB r) cf) of
       [] \<Rightarrow> (None, None) | e # es \<Rightarrow> (Some (fst e), Some (fst (last (e # es)))))"
proof -
  let ?xs = "re_iter eng (rdb_DB r) cf"
  let ?below = "filter (\<lambda>e. fst e < upper) ?xs"
  let ?in = "filter (\<lambda>e. key \<le> fst e \<and> fst e < upper) ?xs"
  have sk: "seek key ?below = ?in"
    by (simp add: seek_filter [OF sorted_bounded [OF assms(1)]] conj_commute)
  have all: "takeWhile (\<lambda>e. fst e \<le> upper) ?below = ?below"
    by (rule takeWhile_eq_all_conv [THEN iffD2]) auto
  have prev: "seek_for_prev upper ?below = (if ?below = [] then None else Some (last ?below))"
    unfolding seek_for_prev_def all by (rule case_last)
  have eq: "?below = takeWhile (\<lambda>e. fst e < key) ?below @ ?in"
    by (simp only: sk [symmetric] seek_def takeWhile_dropWhile_id)
  have lst: "last ?below = last ?in" "?below \<noteq> []" if ne: "?in \<noteq> []"
  proof -
    have "last (takeWhile (\<lambda>e. fst e < key) ?below @ ?in) = last ?in" using ne by (rule last_appendR)
    then show "last ?below = last ?in" by (simp only: eq [symmetric])
    show "?below \<noteq> []" using ne by (auto simp: filter_empty_conv)
  qed
  show ?thesis
  proof (cases ?in)
    case Nil
    then show ?thesis
      using assms(2) by (simp add: SeekKeyUpperBound_def bounded_iter_def takeWhile_below [OF assms(1)] sk)
  next
    case (Cons e es)
    then have ne: "?in \<noteq> []" by simp
    have "seek_for_prev upper ?below = Some (last (e # es))"
      using lst [OF ne] Cons by (simp add: prev)
    with Cons assms(2) show ?thesis
      by (simp add: SeekKeyUpperBound_def bounded_iter_def takeWhile_below [OF assms(1)] sk)
  qed
qed

section \<open>The context of an enumeration\<close>

text \<open>
  Contexts made by \<open>context.WithCancel\<close>, in the order they are made: the context each comes from (\<open>None\<close> is the
  background) and those cancelled. A context is done when it or one it comes from is cancelled.
\<close>

record ctx_world =
  cw_next :: nat
  cw_parent :: "nat \<Rightarrow> nat option"
  cw_cancelled :: "nat list"

function ctx_done :: "ctx_world \<Rightarrow> nat \<Rightarrow> bool" where
  "ctx_done w c \<longleftrightarrow> c \<in> set (cw_cancelled w)
     \<or> (case cw_parent w c of None \<Rightarrow> False | Some p \<Rightarrow> if p < c then ctx_done w p else False)"
  by pat_completeness auto
termination by (relation "measure snd") auto

declare ctx_done.simps [simp del]

lemma ctx_done_cancelled [simp]: "c \<in> set (cw_cancelled w) \<Longrightarrow> ctx_done w c"
  by (subst ctx_done.simps) simp

record range_ctx =
  rc_Ctx :: "nat option"
  rc_Cancel :: "nat option"

definition cancel_if_any :: "nat option \<Rightarrow> ctx_world \<Rightarrow> ctx_world" where
  "cancel_if_any c w = (case c of None \<Rightarrow> w | Some c \<Rightarrow> w\<lparr>cw_cancelled := c # cw_cancelled w\<rparr>)"

definition SetupCancelContext :: "nat option \<Rightarrow> range_ctx \<times> ctx_world \<Rightarrow> range_ctx \<times> ctx_world" where
  "SetupCancelContext ctx st =
     (case st of (rc, w) \<Rightarrow>
        let w = cancel_if_any (rc_Cancel rc) w; c = cw_next w
        in (\<lparr>rc_Ctx = Some c, rc_Cancel = Some c\<rparr>, w\<lparr>cw_next := Suc c, cw_parent := (cw_parent w)(c := ctx)\<rparr>))"

definition Done :: "range_ctx \<times> ctx_world \<Rightarrow> range_ctx \<times> ctx_world" where
  "Done st = (case st of (rc, w) \<Rightarrow> (rc, cancel_if_any (rc_Cancel rc) w))"

text \<open>What a sequence of \<open>SetupCancelContext\<close> on a fresh option has made, from the context \<open>n\<close> on.\<close>

definition range_ctx_inv :: "nat \<Rightarrow> range_ctx \<times> ctx_world \<Rightarrow> bool" where
  "range_ctx_inv n st \<longleftrightarrow>
     (case st of (rc, w) \<Rightarrow>
        rc_Cancel rc = rc_Ctx rc \<and> n \<le> cw_next w \<and> list_all (\<lambda>c. c < cw_next w) (cw_cancelled w)
        \<and> (if n = cw_next w then rc_Ctx rc = None else rc_Ctx rc = Some (cw_next w - 1) \<and> cw_next w - 1 \<notin> set (cw_cancelled w))
        \<and> list_all (\<lambda>c. c \<in> set (cw_cancelled w)) [n..<cw_next w - 1])"

lemma SetupCancelContext_inv:
  assumes "range_ctx_inv n st" shows "range_ctx_inv n (SetupCancelContext ctx st)"
proof (cases st)
  case (Pair rc w)
  show ?thesis
  proof (cases "n = cw_next w")
    case True
    with assms Pair have "rc_Cancel rc = None" "list_all (\<lambda>c. c < n) (cw_cancelled w)" by (simp_all add: range_ctx_inv_def)
    with True Pair show ?thesis by (auto simp: range_ctx_inv_def SetupCancelContext_def cancel_if_any_def list_all_iff Let_def)
  next
    case False
    with assms Pair have "rc_Cancel rc = Some (cw_next w - 1)" "n < cw_next w"
      "list_all (\<lambda>c. c < cw_next w) (cw_cancelled w)" "list_all (\<lambda>c. c \<in> set (cw_cancelled w)) [n..<cw_next w - 1]"
      by (simp_all add: range_ctx_inv_def)
    moreover then obtain m where "cw_next w = Suc m" by (cases "cw_next w") auto
    ultimately show ?thesis using Pair
      by (auto simp: range_ctx_inv_def SetupCancelContext_def cancel_if_any_def list_all_iff less_Suc_eq Let_def)
  qed
qed

lemma SetupCancelContext_fold_inv: "range_ctx_inv n st \<Longrightarrow> range_ctx_inv n (fold SetupCancelContext ctxs st)"
  by (induction ctxs arbitrary: st) (auto simp: SetupCancelContext_inv)

lemma SetupCancelContext_next: "cw_next (snd (fold SetupCancelContext ctxs st)) = cw_next (snd st) + length ctxs"
  by (induction ctxs arbitrary: st) (auto simp: SetupCancelContext_def cancel_if_any_def Let_def split: prod.splits option.splits)

text \<open>
  Of the contexts an option was given one after the other only the last one is left when the enumeration begins, and
  it is done exactly when the context it was made from is; \<open>Done\<close> then ends it too.
\<close>

theorem range_contexts:
  assumes "list_all (\<lambda>c. c < n) (cw_cancelled w)" "cw_next w = n" "\<And>p. ctx = Some p \<Longrightarrow> p < n + length ctxs"
    and "fold SetupCancelContext (ctxs @ [ctx]) (\<lparr>rc_Ctx = None, rc_Cancel = None\<rparr>, w) = (rc, w')"
  shows "rc_Ctx rc = Some (n + length ctxs)
    \<and> (ctx_done w' (n + length ctxs) \<longleftrightarrow> (case ctx of None \<Rightarrow> False | Some p \<Rightarrow> ctx_done w' p))
    \<and> list_all (ctx_done w') [n..<n + length ctxs]
    \<and> ctx_done (snd (Done (rc, w'))) (n + length ctxs)"
proof -
  let ?last = "n + length ctxs"
  obtain rc1 w1 where st1: "fold SetupCancelContext ctxs (\<lparr>rc_Ctx = None, rc_Cancel = None\<rparr>, w) = (rc1, w1)" by fastforce
  have "range_ctx_inv n (\<lparr>rc_Ctx = None, rc_Cancel = None\<rparr>, w)"
    using assms(1,2) by (simp add: range_ctx_inv_def)
  from SetupCancelContext_fold_inv [OF this, of "ctxs @ [ctx]"] assms(4) have inv: "range_ctx_inv n (rc, w')" by simp
  have n1: "cw_next w1 = ?last"
    using SetupCancelContext_next [of ctxs "(\<lparr>rc_Ctx = None, rc_Cancel = None\<rparr>, w)"] st1 assms(2) by simp
  have step: "SetupCancelContext ctx (rc1, w1) = (rc, w')" using assms(4) st1 by simp
  then have n': "cw_next w' = Suc ?last" and par: "cw_parent w' ?last = ctx"
    using n1 by (auto simp: SetupCancelContext_def cancel_if_any_def Let_def split: option.splits)
  have rc: "rc_Ctx rc = Some ?last" "rc_Cancel rc = Some ?last" "?last \<notin> set (cw_cancelled w')"
    "list_all (\<lambda>c. c \<in> set (cw_cancelled w')) [n..<?last]"
    using inv n' by (auto simp: range_ctx_inv_def)
  have "ctx_done w' ?last \<longleftrightarrow> (case ctx of None \<Rightarrow> False | Some p \<Rightarrow> ctx_done w' p)"
    using rc(3) par assms(3) by (subst ctx_done.simps) (auto split: option.splits)
  moreover have "list_all (ctx_done w') [n..<?last]"
    using rc(4) by (auto simp: list_all_iff)
  moreover have "ctx_done (snd (Done (rc, w'))) ?last"
    using rc(2) by (simp add: Done_def cancel_if_any_def)
  ultimately show ?thesis using rc(1) by simp
qed

end
