(* ===== verification/FastJson.thy ===== *)
theory FastJson
  imports GoPrelude "HOL-Library.AList"
begin

text \<open>
  \<open>fastjson\<close> and \<open>jsonrpc\<close>: objects and arrays over \<open>interface{}\<close> values, with getters that convert, and
  the requests and responses of JSON-RPC. Encoding and decoding of JSON text is the standard
  library's and an argument where a result needs it; so are the operations on floating point numbers.
\<close>

section \<open>Values\<close>

text \<open>
  What an \<open>interface{}\<close> holds here: nil, the types \<open>encoding/json\<close> decodes to, and the numbers and
  pointers a caller can put. The kinds are those of \<open>reflect\<close>; a pointer may be nil.
\<close>

datatype int_kind = KInt | KInt8 | KInt16 | KInt32 | KInt64
datatype uint_kind = KUint | KUint8 | KUint16 | KUint32 | KUint64 | KUintptr
datatype float_kind = KFloat32 | KFloat64

datatype 'f jval =
    JNull
  | JBool bool
  | JInt int_kind i64
  | JUint uint_kind "64 word"
  | JFloat float_kind 'f
  | JStr string
  | JArr "'f jval list"
  | JMap "(string \<times> 'f jval) list"
  | JPtr "'f jval option"
  | JOther

text \<open>\<open>reflect.Kind\<close> as the number the code compares.\<close>

fun kind_num :: "'f jval \<Rightarrow> nat" where
  "kind_num JNull = 0"
| "kind_num (JBool b) = 1"
| "kind_num (JInt k i) = (case k of KInt \<Rightarrow> 2 | KInt8 \<Rightarrow> 3 | KInt16 \<Rightarrow> 4 | KInt32 \<Rightarrow> 5 | KInt64 \<Rightarrow> 6)"
| "kind_num (JUint k u) =
     (case k of KUint \<Rightarrow> 7 | KUint8 \<Rightarrow> 8 | KUint16 \<Rightarrow> 9 | KUint32 \<Rightarrow> 10 | KUint64 \<Rightarrow> 11 | KUintptr \<Rightarrow> 12)"
| "kind_num (JFloat k f) = (case k of KFloat32 \<Rightarrow> 13 | KFloat64 \<Rightarrow> 14)"
| "kind_num (JStr s) = 24"
| "kind_num (JArr xs) = 23"
| "kind_num (JMap m) = 21"
| "kind_num (JPtr p) = 22"
| "kind_num JOther = 25"

text \<open>The conversions of the standard library and of the language the getters use.\<close>

record 'f float_ops =
  fo_parse :: "string \<Rightarrow> 'f"
  fo_to_int :: "'f \<Rightarrow> i64"
  fo_of_int :: "i64 \<Rightarrow> 'f"
  fo_of_uint :: "64 word \<Rightarrow> 'f"
  fo_zero :: 'f
  fo_show :: "'f \<Rightarrow> string"
  fo_json :: "'f jval \<Rightarrow> string"
  fo_show_other :: "'f jval \<Rightarrow> string"

text \<open>\<open>v.Int()\<close> and \<open>v.Uint()\<close> panic on any other kind.\<close>

fun reflect_Int :: "'f jval \<Rightarrow> i64 outcome" where
  "reflect_Int (JInt k i) = Returns i"
| "reflect_Int v = Panics"

fun reflect_Uint :: "'f jval \<Rightarrow> 64 word outcome" where
  "reflect_Uint (JUint k u) = Returns u"
| "reflect_Uint v = Panics"

fun reflect_Float :: "'f jval \<Rightarrow> 'f outcome" where
  "reflect_Float (JFloat k f) = Returns f"
| "reflect_Float v = Panics"

fun reflect_String :: "'f jval \<Rightarrow> string" where
  "reflect_String (JStr s) = s"
| "reflect_String v = ''<value>''"

section \<open>Getters on a value\<close>

fun map_outcome :: "('a \<Rightarrow> 'b) \<Rightarrow> 'a outcome \<Rightarrow> 'b outcome" where
  "map_outcome g (Returns x) = Returns (g x)"
| "map_outcome g Panics = Panics"

definition GetIntValue :: "'f float_ops \<Rightarrow> 'f jval \<Rightarrow> i64 outcome" where
  "GetIntValue fo i =
     (if i = JNull then Returns 0
      else
        let k = kind_num i in
        if k = 13 \<or> k = 14 then map_outcome (fo_to_int fo) (reflect_Float i)
        else if k = 24 then Returns (fo_to_int fo (fo_parse fo (reflect_String i)))
        else if 2 \<le> k \<and> k \<le> 14 then reflect_Int i
        else if 7 \<le> k \<and> k \<le> 11 then reflect_Uint i
        else Returns 0)"

definition GetFloatValue :: "'f float_ops \<Rightarrow> 'f jval \<Rightarrow> 'f outcome" where
  "GetFloatValue fo i =
     (if i = JNull then Returns (fo_zero fo)
      else
        let k = kind_num i in
        if k = 24 then Returns (fo_parse fo (reflect_String i))
        else if 2 \<le> k \<and> k \<le> 6 then map_outcome (fo_of_int fo) (reflect_Int i)
        else if 7 \<le> k \<and> k \<le> 11 then map_outcome (fo_of_uint fo) (reflect_Uint i)
        else if k = 13 \<or> k = 14 then reflect_Float i
        else Returns (fo_zero fo))"

definition GetBoolValue :: "'f jval \<Rightarrow> bool" where
  "GetBoolValue i = (case i of JBool b \<Rightarrow> b | _ \<Rightarrow> False)"

text \<open>\<open>GetString\<close>; a \<open>uintptr\<close> and a pointer take the default case.\<close>

definition json_GetString :: "'f float_ops \<Rightarrow> 'f jval \<Rightarrow> string" where
  "json_GetString fo v =
     (case v of
        JNull \<Rightarrow> ''null''
      | JMap m \<Rightarrow> fo_json fo v
      | JArr xs \<Rightarrow> fo_json fo v
      | JStr s \<Rightarrow> s
      | JInt k i \<Rightarrow> FormatInt (sint i)
      | JUint k u \<Rightarrow> if k = KUintptr then fo_show_other fo v else FormatInt (uint u)
      | JFloat k f \<Rightarrow> fo_show fo f
      | JBool b \<Rightarrow> if b then ''true'' else ''false''
      | _ \<Rightarrow> fo_show_other fo v)"

lemma GetIntValue_cases:
  "GetIntValue fo JNull = Returns 0" "GetIntValue fo (JInt k i) = Returns i"
  "GetIntValue fo (JUint u w) = Panics" "GetIntValue fo (JFloat fk x) = Returns (fo_to_int fo x)"
  "GetIntValue fo (JStr s) = Returns (fo_to_int fo (fo_parse fo s))" "GetIntValue fo (JBool b) = Returns 0"
  "GetIntValue fo (JArr xs) = Returns 0" "GetIntValue fo (JMap m) = Returns 0"
  "GetIntValue fo (JPtr p) = Returns 0" "GetIntValue fo JOther = Returns 0"
  by (simp_all add: GetIntValue_def split: int_kind.split uint_kind.split float_kind.split)

lemma GetFloatValue_total: "\<exists>x. GetFloatValue fo v = Returns x"
  by (cases v) (auto simp: GetFloatValue_def split: int_kind.split uint_kind.split float_kind.split)

section \<open>Objects and arrays\<close>

text \<open>The entries of a \<open>JSONObject\<close> are a map; an association list without duplicate keys.\<close>

type_synonym 'f json_object = "(string \<times> 'f jval) list"

definition NewObject :: "'f json_object" where "NewObject = []"

definition ContainsKey :: "'f json_object \<Rightarrow> string \<Rightarrow> bool" where
  "ContainsKey obj key = (map_of obj key \<noteq> None)"

definition json_Put :: "string \<Rightarrow> 'f jval \<Rightarrow> 'f json_object \<Rightarrow> 'f json_object" where
  "json_Put key val obj = AList.update key val obj"

text \<open>\<open>Remove\<close> looks the entry up; it returns it and the object as it is.\<close>

definition json_Remove :: "string \<Rightarrow> 'f json_object \<Rightarrow> 'f jval \<times> 'f json_object" where
  "json_Remove key obj = (case map_of obj key of Some elem \<Rightarrow> (elem, obj) | None \<Rightarrow> (JNull, obj))"

text \<open>Pointers are followed; a nil pointer ends in the zero \<open>reflect.Value\<close>, whose \<open>Interface\<close> panics.\<close>

fun deref :: "'f jval \<Rightarrow> 'f jval outcome" where
  "deref (JPtr None) = Panics"
| "deref (JPtr (Some v)) = deref v"
| "deref v = Returns v"

definition json_Get :: "'f json_object \<Rightarrow> string \<Rightarrow> 'f jval outcome" where
  "json_Get obj key =
     (case map_of obj key of
        None \<Rightarrow> Returns JNull
      | Some i \<Rightarrow> if i = JNull then Returns JNull else deref i)"

definition obj_GetIntValue :: "'f float_ops \<Rightarrow> 'f json_object \<Rightarrow> string \<Rightarrow> i64 outcome" where
  "obj_GetIntValue fo obj key = bind_outcome (json_Get obj key) (GetIntValue fo)"

definition obj_GetFloatValue :: "'f float_ops \<Rightarrow> 'f json_object \<Rightarrow> string \<Rightarrow> 'f outcome" where
  "obj_GetFloatValue fo obj key = bind_outcome (json_Get obj key) (GetFloatValue fo)"

definition obj_GetString :: "'f float_ops \<Rightarrow> 'f json_object \<Rightarrow> string \<Rightarrow> string outcome" where
  "obj_GetString fo obj key = map_outcome (json_GetString fo) (json_Get obj key)"

definition obj_GetBoolValue :: "'f json_object \<Rightarrow> string \<Rightarrow> bool" where
  "obj_GetBoolValue obj key = (case map_of obj key of None \<Rightarrow> False | Some i \<Rightarrow> GetBoolValue i)"

datatype 'f array_result = ArrayOf "'f jval list" | NotAnArray "'f jval"

definition GetJSONArray :: "'f json_object \<Rightarrow> string \<Rightarrow> 'f array_result outcome" where
  "GetJSONArray obj key =
     map_outcome (\<lambda>elem. case elem of JNull \<Rightarrow> ArrayOf [] | JArr xs \<Rightarrow> ArrayOf xs | _ \<Rightarrow> NotAnArray elem)
       (json_Get obj key)"

definition json_Keys :: "'f json_object \<Rightarrow> string list" where
  "json_Keys obj = map fst obj"

definition json_Values :: "'f json_object \<Rightarrow> 'f jval list" where
  "json_Values obj = map snd obj"

definition json_Entries :: "'f json_object \<Rightarrow> string list \<times> 'f jval list" where
  "json_Entries obj = (map fst obj, map snd obj)"

text \<open>\<open>JSONArray.Get\<close>: beyond the end nil, below 0 a panic.\<close>

definition arr_Get :: "'f jval list \<Rightarrow> int \<Rightarrow> 'f jval outcome" where
  "arr_Get arr index =
     (if index \<ge> int (length arr) then Returns JNull
      else if index < 0 then Panics else Returns (arr ! nat index))"

definition arr_GetIntValue :: "'f float_ops \<Rightarrow> 'f jval list \<Rightarrow> int \<Rightarrow> i64 outcome" where
  "arr_GetIntValue fo arr index = bind_outcome (arr_Get arr index) (GetIntValue fo)"

definition arr_GetFloatValue :: "'f float_ops \<Rightarrow> 'f jval list \<Rightarrow> int \<Rightarrow> 'f outcome" where
  "arr_GetFloatValue fo arr index = bind_outcome (arr_Get arr index) (GetFloatValue fo)"

definition arr_GetString :: "'f float_ops \<Rightarrow> 'f jval list \<Rightarrow> int \<Rightarrow> string outcome" where
  "arr_GetString fo arr index = map_outcome (json_GetString fo) (arr_Get arr index)"

definition arr_GetBoolValue :: "'f jval list \<Rightarrow> int \<Rightarrow> bool outcome" where
  "arr_GetBoolValue arr index = map_outcome GetBoolValue (arr_Get arr index)"

definition arr_GetJSONObject :: "'f jval list \<Rightarrow> int \<Rightarrow> 'f json_object option outcome" where
  "arr_GetJSONObject arr index =
     map_outcome (\<lambda>i. case i of JMap m \<Rightarrow> Some m | _ \<Rightarrow> None) (arr_Get arr index)"

text \<open>
  Text and back. \<open>decode\<close> is \<open>json.Unmarshal\<close> for the entries, \<open>None\<close> for the text \<open>null\<close>: into a map it stores its
  entries over those that are there, a slice it replaces. \<open>marshal\<close> gives the text of the entries or an error, whose
  own text \<open>String\<close> returns.
\<close>

definition ObjectFrom :: "(string \<times> 'f jval) list \<Rightarrow> 'f json_object" where "ObjectFrom m = m"

text \<open>\<open>MarshalJSON\<close> hands the entries to \<open>json.Marshal\<close>.\<close>

definition obj_MarshalJSON :: "((string \<times> 'f jval) list \<Rightarrow> string + string) \<Rightarrow> 'f json_object \<Rightarrow> string + string" where
  "obj_MarshalJSON marshal obj = marshal obj"

definition obj_UnmarshalJSON ::
    "(string \<Rightarrow> string + (string \<times> 'f jval) list option) \<Rightarrow> string \<Rightarrow> 'f json_object \<Rightarrow> string option \<times> 'f json_object" where
  "obj_UnmarshalJSON decode data obj =
     (case decode data of
        Inl e \<Rightarrow> (Some e, obj)
      | Inr None \<Rightarrow> (None, [])
      | Inr (Some es) \<Rightarrow> (None, fold (\<lambda>(k, v). json_Put k v) es obj))"

definition ParseObject ::
    "(string \<Rightarrow> string + (string \<times> 'f jval) list option) \<Rightarrow> string \<Rightarrow> string option \<times> 'f json_object" where
  "ParseObject decode data = obj_UnmarshalJSON decode data NewObject"

definition obj_String :: "('f json_object \<Rightarrow> string + string) \<Rightarrow> 'f json_object \<Rightarrow> string" where
  "obj_String marshal obj = (case marshal obj of Inl e \<Rightarrow> e | Inr t \<Rightarrow> t)"

text \<open>An object with distinct keys comes back from its text, whatever was in the object that reads it under other keys.\<close>

lemma fold_json_Put_fresh:
  "distinct (map fst es) \<Longrightarrow> fst ` set es \<inter> fst ` set obj = {} \<Longrightarrow> fold (\<lambda>(k, v). json_Put k v) es obj = obj @ es"
proof (induction es arbitrary: obj)
  case (Cons e es)
  have "AList.update k v obj = obj @ [(k, v)]" if "k \<notin> fst ` set obj" for k v
    using that by (induction obj) auto
  with Cons show ?case by (cases e) (auto simp: json_Put_def)
qed simp

lemma obj_MarshalJSON_read_back:
  assumes "obj_MarshalJSON marshal obj = Inr text" "decode text = Inr (Some obj)" "distinct (map fst obj)"
  shows "ParseObject decode text = (None, obj)"
  using assms(2,3) by (simp add: ParseObject_def obj_UnmarshalJSON_def NewObject_def fold_json_Put_fresh)

definition NewArray :: "'f jval list" where "NewArray = []"
definition ArrayFrom :: "'f jval list \<Rightarrow> 'f jval list" where "ArrayFrom arr = arr"
definition arr_Size :: "'f jval list \<Rightarrow> nat" where "arr_Size arr = length arr"

definition arr_UnmarshalJSON ::
    "(string \<Rightarrow> string + 'f jval list option) \<Rightarrow> string \<Rightarrow> 'f jval list \<Rightarrow> string option \<times> 'f jval list" where
  "arr_UnmarshalJSON decode data arr =
     (case decode data of Inl e \<Rightarrow> (Some e, arr) | Inr None \<Rightarrow> (None, []) | Inr (Some xs) \<Rightarrow> (None, xs))"

definition ParseArray :: "(string \<Rightarrow> string + 'f jval list option) \<Rightarrow> string \<Rightarrow> string option \<times> 'f jval list" where
  "ParseArray decode data = arr_UnmarshalJSON decode data NewArray"

definition arr_String :: "('f jval list \<Rightarrow> string + string) \<Rightarrow> 'f jval list \<Rightarrow> string" where
  "arr_String marshal arr = (case marshal arr of Inl e \<Rightarrow> e | Inr t \<Rightarrow> t)"

lemma map_of_json_Put: "map_of (json_Put key v obj) = (map_of obj)(key \<mapsto> v)"
  by (simp add: json_Put_def update_conv')

lemma deref_plain: "(\<And>p. v \<noteq> JPtr p) \<Longrightarrow> deref v = Returns v"
  by (cases v) auto

text \<open>
  \<open>GetIntValue\<close> panics exactly on a value of an unsigned kind, because the test for the
  signed kinds spans the unsigned ones; every other value converts.
\<close>

theorem GetIntValue_panics_iff:
  "GetIntValue fo v = Panics \<longleftrightarrow> (\<exists>k u. v = JUint k u)"
  by (cases v) (simp_all add: GetIntValue_cases)

text \<open>
  After \<open>Put\<close> of a value that is no pointer, \<open>Get\<close> returns it, \<open>ContainsKey\<close> holds, the
  other keys keep their values and no key is duplicated; \<open>Remove\<close> returns what \<open>Get\<close> finds and leaves
  the object as it was, so the key is still there.
\<close>

theorem json_object_laws:
  assumes "distinct (map fst obj)" "\<And>p. v \<noteq> JPtr p"
  shows "json_Get (json_Put key v obj) key = Returns v
    \<and> ContainsKey (json_Put key v obj) key
    \<and> (\<forall>other. other \<noteq> key \<longrightarrow> json_Get (json_Put key v obj) other = json_Get obj other)
    \<and> distinct (json_Keys (json_Put key v obj))
    \<and> json_Remove key (json_Put key v obj) = (v, json_Put key v obj)"
  using assms(1) deref_plain [OF assms(2)]
  by (simp add: json_Get_def ContainsKey_def json_Keys_def json_Remove_def map_of_json_Put)
    (simp add: json_Put_def distinct_update)

theorem json_object_laws_witness:
  "json_Remove ''k'' (json_Put ''k'' (JStr ''v'') [(''a'', JBool True :: nat jval)]) =
     (JStr ''v'', [(''a'', JBool True), (''k'', JStr ''v'')])"
proof -
  have "json_Remove ''k'' (json_Put ''k'' (JStr ''v'') [(''a'', JBool True :: nat jval)]) =
     (JStr ''v'', json_Put ''k'' (JStr ''v'') [(''a'', JBool True)])"
    using json_object_laws [of "[(''a'', JBool True :: nat jval)]" "JStr ''v''" "''k''"] by simp
  then show ?thesis by (simp add: json_Put_def)
qed

section \<open>JSON-RPC\<close>

record 'f rpc_request =
  rq_ID :: "32 word option"
  rq_JsonRpc :: string
  rq_Method :: string
  rq_Params :: "'f jval"

record 'f rpc_response =
  rs_ID :: "32 word"
  rs_JsonRpc :: string
  rs_Error :: "'f jval"
  rs_Result :: "'f jval"

text \<open>The error object of the protocol; \<open>Code\<close> is an \<open>int\<close>. No function of the repository makes one.\<close>

record 'f json_error =
  je_Code :: i64
  je_Message :: string
  je_Data :: "'f jval"

definition RPCVersion :: string where "RPCVersion = ''2.0''"

definition CreateResponse :: "'f rpc_request \<Rightarrow> 'f rpc_response" where
  "CreateResponse req =
     \<lparr>rs_ID = (case rq_ID req of None \<Rightarrow> 0 | Some i \<Rightarrow> i), rs_JsonRpc = RPCVersion, rs_Error = JNull, rs_Result = JNull\<rparr>"

definition GetField :: "'f jval \<Rightarrow> string \<Rightarrow> 'f jval" where
  "GetField obj field =
     (case obj of JMap m \<Rightarrow> (case map_of m field of None \<Rightarrow> JNull | Some v \<Rightarrow> v) | _ \<Rightarrow> JNull)"

definition GetStringField :: "'f jval \<Rightarrow> string \<Rightarrow> string option" where
  "GetStringField obj field = (case GetField obj field of JStr s \<Rightarrow> Some s | _ \<Rightarrow> None)"

definition GetIntegerField :: "'f jval \<Rightarrow> string \<Rightarrow> 'f option" where
  "GetIntegerField obj field = (case GetField obj field of JFloat KFloat64 x \<Rightarrow> Some x | _ \<Rightarrow> None)"

definition GetBoolField :: "'f jval \<Rightarrow> string \<Rightarrow> bool option" where
  "GetBoolField obj field = (case GetField obj field of JBool b \<Rightarrow> Some b | _ \<Rightarrow> None)"

definition rs_String :: "('f rpc_response \<Rightarrow> string + string) \<Rightarrow> 'f rpc_response \<Rightarrow> string" where
  "rs_String marshal resp = (case marshal resp of Inl e \<Rightarrow> e | Inr t \<Rightarrow> t)"

text \<open>
  \<open>HttpRequest\<close> with the random identifier \<open>i\<close>: \<open>post\<close> gives the error of the request, or the error of reading the
  body or the body; \<open>unmarshal\<close> reads a body into a response that is there.
\<close>

datatype post_error = PostFailed string | BodyFailed string | NotAResponse string

definition HttpRequest ::
    "('f rpc_request \<Rightarrow> string + (string + string)) \<Rightarrow> (string \<Rightarrow> 'f rpc_response \<Rightarrow> string + 'f rpc_response) \<Rightarrow>
     32 word \<Rightarrow> string \<Rightarrow> 'f jval \<Rightarrow> 'f jval \<Rightarrow> post_error + 'f rpc_response" where
  "HttpRequest post unmarshal i rpcMethod params resUnmarshal =
     (case post \<lparr>rq_ID = Some i, rq_JsonRpc = ''2.0'', rq_Method = rpcMethod, rq_Params = params\<rparr> of
        Inl e \<Rightarrow> Inl (PostFailed e)
      | Inr (Inl e) \<Rightarrow> Inl (BodyFailed e)
      | Inr (Inr data) \<Rightarrow>
          (case unmarshal data \<lparr>rs_ID = 0, rs_JsonRpc = [], rs_Error = JNull, rs_Result = resUnmarshal\<rparr> of
             Inl e \<Rightarrow> Inl (NotAResponse e)
           | Inr res \<Rightarrow> Inr res))"

text \<open>Between a client and a server that passes requests and responses on: the response has the client's identifier.\<close>

lemma HttpRequest_identifier:
  assumes "\<And>req. post req = Inr (Inr (enc (CreateResponse req)))" "\<And>res old. unmarshal (enc res) old = Inr res"
  shows "\<exists>res. HttpRequest post unmarshal i m params r = Inr res \<and> rs_ID res = i \<and> rs_JsonRpc res = RPCVersion"
  by (simp add: HttpRequest_def assms CreateResponse_def)

lemma fields_of_nil [simp]:
  "GetStringField JNull f = None" "GetIntegerField JNull f = None" "GetBoolField JNull f = None"
  by (simp_all add: GetStringField_def GetIntegerField_def GetBoolField_def GetField_def)

end
