(* ===== verification/RocksServer.thy ===== *)
theory RocksServer
  imports RocksRange RocksAdmin FastJson
begin

text \<open>
  \<open>rocksdb/server.go\<close> and \<open>rocksdb/cmd/rdb/rdb.go\<close>: the JSON-RPC and HTTP front end of a database and the
  command line tool. Parameters are \<open>interface{}\<close> values as JSON decodes them (\<open>FastJson\<close>); a file a
  request names is an entry of a map from names to contents, and \<open>create\<close> tells whether it can be
  created. A call that does not return is \<open>None\<close>.
\<close>

section \<open>Requests\<close>

datatype rpc_error =
    KeyRequired | ValueRequired | PathRequired | CreateFailed string | InvalidTsindex int
  | RangeFailed rdb_error | EngineFailed kv_error | AdminFailed admin_error | UnsupportedMethod string
  | BadRequest string | UnsupportedURL string | NotPost string

definition str_param :: "'f jval \<Rightarrow> string \<Rightarrow> string \<Rightarrow> string" where
  "str_param params field dflt = (case GetStringField params field of None \<Rightarrow> dflt | Some p \<Rightarrow> p)"

definition bool_param :: "'f jval \<Rightarrow> string \<Rightarrow> bool \<Rightarrow> bool" where
  "bool_param params field dflt = (case GetBoolField params field of None \<Rightarrow> dflt | Some t \<Rightarrow> t)"

definition handleSet :: "('d, 'h) rocks_engine \<Rightarrow> ('d, 'h) rdb \<Rightarrow> 'f jval \<Rightarrow> rpc_error option \<times> ('d, 'h) rdb" where
  "handleSet eng r params =
     (case GetStringField params ''key'' of
        None \<Rightarrow> (Some KeyRequired, r)
      | Some key \<Rightarrow>
          (case GetStringField params ''value'' of
             None \<Rightarrow> (Some ValueRequired, r)
           | Some val \<Rightarrow>
               (case PutCF eng r (rdb_CFHs r (str_param params ''cf'' DefaultColumnFamilyName)) key val of
                  (e, r') \<Rightarrow> (map_option EngineFailed e, r'))))"

definition path_param :: "'f jval \<Rightarrow> string option" where
  "path_param params = (case GetStringField params ''path'' of None \<Rightarrow> None | Some p \<Rightarrow> if p = [] then None else Some p)"

definition handleInfo ::
    "(cf_info list \<Rightarrow> string + string) \<Rightarrow> ('d, 'h) rocks_admin \<Rightarrow> string list \<Rightarrow> ('d, 'h) rdb \<Rightarrow> 'f jval \<Rightarrow>
     rpc_error + string" where
  "handleInfo marshal adm names r params =
     (let verbose = bool_param params ''verbose'' False in
      case Info marshal adm names (Some r) verbose of Inl e \<Rightarrow> Inl (AdminFailed e) | Inr t \<Rightarrow> Inr t)"

definition handleBackupInfo :: "('d, 'h) rocks_admin \<Rightarrow> 'f jval \<Rightarrow> rpc_error + backup_info list" where
  "handleBackupInfo adm params =
     (case path_param params of
        None \<Rightarrow> Inl PathRequired
      | Some p \<Rightarrow> (case GetBackupInfo adm p of Inl e \<Rightarrow> Inl (AdminFailed e) | Inr bs \<Rightarrow> Inr bs))"

definition handleBackup :: "('d, 'h) rocks_admin \<Rightarrow> ('d, 'h) rdb \<Rightarrow> 'f jval \<Rightarrow> rpc_error option" where
  "handleBackup adm r params =
     (case path_param params of None \<Rightarrow> Some PathRequired | Some p \<Rightarrow> map_option AdminFailed (Backup adm r p))"

text \<open>\<open>to_u32\<close> is the conversion of a \<open>float64\<close> to \<open>uint32\<close>.\<close>

definition handlePurgeBackup :: "('f \<Rightarrow> 32 word) \<Rightarrow> ('d, 'h) rocks_admin \<Rightarrow> 'f jval \<Rightarrow> rpc_error option" where
  "handlePurgeBackup to_u32 adm params =
     (case path_param params of
        None \<Rightarrow> Some PathRequired
      | Some p \<Rightarrow>
          (let keep = (case GetIntegerField params ''keep'' of None \<Rightarrow> 3 | Some k \<Rightarrow> to_u32 k)
           in map_option AdminFailed (PurgeOldBackups adm p keep)))"

section \<open>Range requests\<close>

text \<open>
  The option the parameters give, before and after the fields that are read once the sink is open:
  \<open>output\<close> names the file, if one is asked for.
\<close>

definition rpc_option :: "'f float_ops \<Rightarrow> 'f jval \<Rightarrow> range_option" where
  "rpc_option fo params =
     (let opt = NewRangeOption\<lparr>ro_CF := str_param params ''cf'' (ro_CF NewRangeOption),
          ro_Key := str_param params ''key'' [], ro_StartKey := str_param params ''startkey'' [],
          ro_EndKey := str_param params ''endkey'' [], ro_IsJsonValue := bool_param params ''jsonval'' False,
          ro_streamOutput := (GetStringField params ''output'' \<noteq> None),
          ro_KeySeparator := str_param params ''sep'' (ro_KeySeparator NewRangeOption)\<rparr>
      in opt\<lparr>ro_Limit := (case GetIntegerField params ''limit'' of
               Some f \<Rightarrow> fo_to_int fo f
             | None \<Rightarrow> if ro_streamOutput opt then ro_Limit opt else 1000),
            ro_TSFieldIndex := (case GetIntegerField params ''tsindex'' of
               Some f \<Rightarrow> sint (fo_to_int fo f)
             | None \<Rightarrow> ro_TSFieldIndex opt)\<rparr>)"

definition rpc_times :: "'f float_ops \<Rightarrow> i64 \<Rightarrow> 'f jval \<Rightarrow> range_option \<Rightarrow> range_option" where
  "rpc_times fo now params opt =
     opt\<lparr>ro_StartTS := (case GetIntegerField params ''startts'' of
            None \<Rightarrow> ro_StartTS opt
          | Some f \<Rightarrow> (let t = fo_to_int fo f in if t <s 0 then now + t else t)),
         ro_EndTS := (case GetIntegerField params ''endts'' of
            None \<Rightarrow> ro_EndTS opt
          | Some f \<Rightarrow> (let t = fo_to_int fo f in if t <s 0 then now + t else if t = 0 then now else t))\<rparr>"

type_synonym files = "string \<rightharpoonup> string"

text \<open>The file is created, and emptied, before the field index is checked.\<close>

definition write_sink :: "string option \<Rightarrow> string \<Rightarrow> files \<Rightarrow> files" where
  "write_sink out text fs = (case out of None \<Rightarrow> fs | Some o' \<Rightarrow> fs(o' \<mapsto> the (fs o') @ text))"

definition range_reply :: "string option \<Rightarrow> rdb_error option \<Rightarrow> string \<Rightarrow> rpc_error + string" where
  "range_reply out err text =
     (case err of
        Some e \<Rightarrow> Inl (RangeFailed e)
      | None \<Rightarrow>
          (case out of
             None \<Rightarrow> Inr text
           | Some o' \<Rightarrow> Inr (if o' \<noteq> [] then CHR 0x22 # ''write result to '' @ o' @ '' successfully'' @ [CHR 0x22] else [])))"

definition result_ok :: string where
  "result_ok = [CHR ''{'', CHR 0x22] @ ''result'' @ [CHR 0x22, CHR '':'', CHR 0x22] @ ''ok'' @ [CHR 0x22, CHR ''}'']"

definition handleRangeAction ::
    "(out_elem \<Rightarrow> string option) \<Rightarrow> (out_elem list \<Rightarrow> string option) \<Rightarrow> ('d, 'h) rocks_engine \<Rightarrow> 'f float_ops \<Rightarrow>
     (string \<Rightarrow> bool) \<Rightarrow> i64 \<Rightarrow> (nat \<Rightarrow> bool) \<Rightarrow> string \<Rightarrow> 'f jval \<Rightarrow> ('d, 'h) rdb \<Rightarrow> files \<Rightarrow>
     ((rpc_error + string) \<times> ('d, 'h) rdb \<times> files) option" where
  "handleRangeAction enc enc_all eng fo create now ctx method params r fs =
     (let out = GetStringField params ''output'' in
      if (case out of None \<Rightarrow> False | Some o' \<Rightarrow> \<not> create o') then Some (Inl (CreateFailed (the out)), r, fs)
      else
        let fs = (case out of None \<Rightarrow> fs | Some o' \<Rightarrow> fs(o' \<mapsto> []));
            opt = rpc_option fo params
        in if ro_TSFieldIndex opt < 0 then Some (Inl (InvalidTsindex (ro_TSFieldIndex opt)), r, fs)
           else
             let opt = rpc_times fo now params (opt\<lparr>ro_Ctx := Some ctx\<rparr>) in
             if method = ''get'' then
               map_option (\<lambda>(err, text). (range_reply out err text, r, write_sink out text fs))
                 (GetRange enc enc_all eng now r (Some opt))
             else if method = ''delete'' then
               map_option (\<lambda>(err, r').
                   let text = (if err = None then result_ok else [])
                   in (range_reply out err text, r', write_sink out text fs))
                 (DeleteRange eng now r (Some opt))
             else Some (range_reply out None [], r, fs))"

section \<open>Dispatch\<close>

datatype rpc_result = RawJson string | TextResult string | BackupList "backup_info list"

record rpc_reply =
  rp_ID :: "32 word"
  rp_Result :: rpc_result

record ('d, 'h, 'f) rpc_env =
  en_enc :: "out_elem \<Rightarrow> string option"
  en_enc_all :: "out_elem list \<Rightarrow> string option"
  en_eng :: "('d, 'h) rocks_engine"
  en_adm :: "('d, 'h) rocks_admin"
  en_fo :: "'f float_ops"
  en_to_u32 :: "'f \<Rightarrow> 32 word"
  en_create :: "string \<Rightarrow> bool"
  en_marshal :: "cf_info list \<Rightarrow> string + string"
  en_cfs :: "string list"

text \<open>\<open>en_cfs\<close> lists the names in \<open>CFHs\<close>, in the order an iteration takes.\<close>

definition compact_all :: "('d, 'h) rocks_admin \<Rightarrow> string list \<Rightarrow> ('d, 'h) rdb \<Rightarrow> ('d, 'h) rdb" where
  "compact_all adm names r =
     fold (\<lambda>v r. case rdb_CFHs r v of None \<Rightarrow> r | Some h \<Rightarrow> CompactCF adm h r) names r"

definition HandleRPC ::
    "('d, 'h, 'f) rpc_env \<Rightarrow> i64 \<Rightarrow> (nat \<Rightarrow> bool) \<Rightarrow> 'f rpc_request \<Rightarrow> ('d, 'h) rdb \<Rightarrow> files \<Rightarrow>
     ((rpc_error + rpc_reply) \<times> ('d, 'h) rdb \<times> files) option" where
  "HandleRPC en now ctx req r fs =
     (let reply = (\<lambda>res. \<lparr>rp_ID = (case rq_ID req of None \<Rightarrow> 0 | Some i \<Rightarrow> i), rp_Result = res\<rparr>);
          method = rq_Method req;
          params = rq_Params req
      in if method = ''get'' \<or> method = ''delete'' then
           map_option (\<lambda>(res, r', fs'). (case res of Inl e \<Rightarrow> Inl e | Inr t \<Rightarrow> Inr (reply (RawJson t)), r', fs'))
             (handleRangeAction (en_enc en) (en_enc_all en) (en_eng en) (en_fo en) (en_create en) now ctx method params r fs)
         else Some
           (if method = ''set'' then
              (case handleSet (en_eng en) r params of
                 (Some e, r') \<Rightarrow> (Inl e, r', fs)
               | (None, r') \<Rightarrow> (Inr (reply (TextResult ''set ok'')), r', fs))
            else if method = ''info'' then
              (case handleInfo (en_marshal en) (en_adm en) (en_cfs en) r params of
                 Inl e \<Rightarrow> (Inl e, r, fs)
               | Inr t \<Rightarrow> (Inr (reply (RawJson t)), r, fs))
            else if method = ''flush'' then (Inr (reply (TextResult ''flush ok'')), r, fs)
            else if method = ''compact'' then
              (Inr (reply (TextResult ''compact ok'')), compact_all (en_adm en) (en_cfs en) r, fs)
            else if method = ''backup'' then
              (case handleBackup (en_adm en) r params of
                 Some e \<Rightarrow> (Inl e, r, fs) | None \<Rightarrow> (Inr (reply (RawJson [])), r, fs))
            else if method = ''backup_info'' then
              (case handleBackupInfo (en_adm en) params of
                 Inl e \<Rightarrow> (Inl e, r, fs) | Inr bs \<Rightarrow> (Inr (reply (BackupList bs)), r, fs))
            else if method = ''purge_backup'' then
              (case handlePurgeBackup (en_to_u32 en) (en_adm en) params of
                 Some e \<Rightarrow> (Inl e, r, fs) | None \<Rightarrow> (Inr (reply (RawJson [])), r, fs))
            else (Inl (UnsupportedMethod method), r, fs)))"

text \<open>
  \<open>HandleHttpRequest\<close>: the status, and the reply or the error that is written as JSON. \<open>decode\<close> is
  \<open>json.Unmarshal\<close> of the body, which is an error where it cannot be read.
\<close>

record http_request =
  hr_Method :: string
  hr_Path :: string
  hr_Body :: "string + string"

definition HandleHttpRequest ::
    "('d, 'h, 'f) rpc_env \<Rightarrow> (string \<Rightarrow> string + 'f rpc_request) \<Rightarrow> i64 \<Rightarrow> (nat \<Rightarrow> bool) \<Rightarrow> http_request \<Rightarrow> ('d, 'h) rdb \<Rightarrow> files \<Rightarrow>
     (nat \<times> (rpc_error + rpc_reply) \<times> ('d, 'h) rdb \<times> files) option" where
  "HandleHttpRequest en decode now ctx req r fs =
     (if hr_Method req \<noteq> ''POST'' then Some (400, Inl (NotPost (hr_Method req)), r, fs)
      else if hr_Path req = ''/api/rpc'' then
        (case hr_Body req of
           Inl err \<Rightarrow> Some (200, Inl (BadRequest err), r, fs)
         | Inr data \<Rightarrow>
             (case decode data of
                Inl err \<Rightarrow> Some (200, Inl (BadRequest err), r, fs)
              | Inr jsonReq \<Rightarrow> map_option (\<lambda>res. (200, res)) (HandleRPC en now ctx jsonReq r fs)))
      else Some (200, Inl (UnsupportedURL (hr_Path req)), r, fs))"

section \<open>What a request can do\<close>

lemma range_loop_never: "(\<And>n. \<not> c n) \<Longrightarrow> range_loop limit (Some c) hi cnt xs = range_loop limit None hi cnt xs"
  by (induction xs arbitrary: cnt) auto

lemma RangeForeach_never:
  assumes "ro_Ctx opt = Some c" "\<And>n. \<not> c n"
  shows "RangeForeach eng r opt = RangeForeach eng r (opt\<lparr>ro_Ctx := None\<rparr>)"
  using assms by (simp add: RangeForeach_def range_loop_never Let_def)

lemma range_loop_length:
  "0 <s limit \<Longrightarrow> int cnt < sint limit \<Longrightarrow> cnt + length (fst (range_loop limit ctx hi cnt xs)) \<le> nat (sint limit)"
proof (induction xs arbitrary: cnt)
  case (Cons e es)
  show ?case
  proof (cases "sint limit \<le> int (Suc cnt)")
    case False
    then have "int (Suc cnt) < sint limit" by simp
    from Cons.IH [OF Cons.prems(1) this] Cons.prems show ?thesis
      by (auto simp: nat_le_iff le_nat_iff split: prod.split option.splits)
  qed (use Cons.prems in auto)
qed auto

lemma range_loop_exhausted_below:
  "0 <s limit \<Longrightarrow> int cnt < sint limit \<Longrightarrow> range_loop limit ctx hi cnt xs = (vis, Exhausted) \<Longrightarrow>
   int (cnt + length vis) < sint limit"
proof (induction xs arbitrary: cnt vis)
  case (Cons e es)
  show ?case
  proof (cases "hi = [] \<or> fst e \<le> hi")
    case True
    with Cons.prems have more: "int (Suc cnt) < sint limit" by (auto split: if_splits)
    with True Cons.prems obtain vis' where "range_loop limit ctx hi (Suc cnt) es = (vis', Exhausted)" "vis = e # vis'"
      by (auto split: if_splits prod.splits)
    with Cons.IH [OF Cons.prems(1) more] show ?thesis by simp
  qed (use Cons.prems in simp)
qed auto

lemma ts_loop_length:
  assumes "ts_loop f ts1 ts2 limit ctx snap cnt pos = Some y" "0 <s limit" "int cnt < sint limit"
  shows "cnt + length (fst y) \<le> nat (sint limit)"
proof -
  let ?P = "\<lambda>f ts1 ts2 l ctx snap cnt pos (y :: snapshot \<times> bool). l = limit \<longrightarrow> int cnt < sint limit \<longrightarrow>
      cnt + length (fst y) \<le> nat (sint limit)"
  have "?P f ts1 ts2 limit ctx snap cnt pos y"
  proof (rule ts_loop.raw_induct [of ?P, OF _ assms(1)])
    fix loop f ts1 ts2 l ctx snap cnt pos y
    assume IH: "\<And>f ts1 ts2 l ctx snap cnt pos y. loop f ts1 ts2 l ctx snap cnt pos = Some y \<Longrightarrow> ?P f ts1 ts2 l ctx snap cnt pos y"
      and body: "(case pos of [] \<Rightarrow> Some ([], False)
        | e # x \<Rightarrow> (case f ts1 (fst e) of (keyStart, None) \<Rightarrow> Some ([], False)
           | (keyStart, Some nextKey) \<Rightarrow>
               (case range_loop l ctx (fst (f ts2 (fst e))) cnt (seek keyStart snap) of
                  (vis, Exhausted) \<Rightarrow> Option.bind (loop f ts1 ts2 l ctx snap (cnt + length vis) (seek nextKey snap))
                     (\<lambda>(more, c). Some (vis @ more, c))
                | (vis, LimitHit) \<Rightarrow> Some (vis, False)
                | (vis, CtxDone) \<Rightarrow> Some (vis, True)))) = Some y"
    show "?P f ts1 ts2 l ctx snap cnt pos y"
    proof (intro impI)
      assume l: "l = limit" and cnt: "int cnt < sint limit"
      show "cnt + length (fst y) \<le> nat (sint limit)"
      proof (cases pos)
        case Nil
        with body cnt show ?thesis by auto
      next
        case (Cons e es)
        obtain ks nx where f: "f ts1 (fst e) = (ks, nx)" by fastforce
        obtain vis st where r: "range_loop l ctx (fst (f ts2 (fst e))) cnt (seek ks snap) = (vis, st)" by fastforce
        have vis: "cnt + length vis \<le> nat (sint limit)" using range_loop_length [OF assms(2) cnt] r l by (metis fst_conv)
        consider "nx = None" | n where "nx = Some n" "st = Exhausted" | n where "nx = Some n" "st \<noteq> Exhausted" by blast
        then show ?thesis
        proof cases
          case 2
          with body Cons f r obtain more c where "loop f ts1 ts2 l ctx snap (cnt + length vis) (seek n snap) = Some (more, c)"
            "y = (vis @ more, c)" by (auto simp: bind_eq_Some_conv)
          with IH [OF this(1)] l range_loop_exhausted_below [OF assms(2) cnt] r 2 show ?thesis by fastforce
        next
          case 3
          with body Cons f r vis show ?thesis by (cases st) auto
        qed (use body Cons f cnt in auto)
      qed
    qed
  qed
  with assms(3) show ?thesis by blast
qed

lemma range_limit:
  assumes "0 <s ro_Limit opt"
  shows "length (fst (RangeForeach eng r opt)) \<le> nat (sint (ro_Limit opt))"
    "RangeForeachByTS eng r opt f = Some y \<Longrightarrow> length (fst y) \<le> nat (sint (ro_Limit opt))"
proof -
  have pos: "int 0 < sint (ro_Limit opt)" using assms by (simp add: sint_pos_iff)
  show "length (fst (RangeForeach eng r opt)) \<le> nat (sint (ro_Limit opt))"
    using range_loop_length [OF assms pos, of "ro_Ctx opt" "ro_EndKey opt"]
    by (simp add: RangeForeach_def Let_def case_prod_unfold)
  show "length (fst y) \<le> nat (sint (ro_Limit opt))" if "RangeForeachByTS eng r opt f = Some y"
    using that ts_loop_length [OF _ assms pos] by (auto simp: RangeForeachByTS_def Let_def)
qed

section \<open>Properties\<close>

text \<open>
  C35. A range request that names neither a limit nor an output file visits at most 1000 entries,
  by key and by time stamp, whatever its other parameters, the state and the callback.
\<close>

theorem rpc_default_limit:
  assumes "GetIntegerField params ''limit'' = None" "GetStringField params ''output'' = None"
    and "opt = rpc_times fo now params ((rpc_option fo params)\<lparr>ro_Ctx := Some ctx\<rparr>)"
  shows "length (fst (RangeForeach eng r opt)) \<le> 1000 \<and>
    (case RangeForeachByTS eng r opt f of None \<Rightarrow> True | Some y \<Rightarrow> length (fst y) \<le> 1000)"
proof -
  have "ro_Limit opt = 1000" using assms by (simp add: rpc_times_def rpc_option_def Let_def)
  then show ?thesis
    using range_limit(1) [of opt eng r] range_limit(2) [of opt eng r f] by (simp add: i64_order split: option.split)
qed

definition demo_float_ops :: "i64 float_ops" where
  "demo_float_ops = \<lparr>fo_parse = (\<lambda>s. 0), fo_to_int = (\<lambda>i. i), fo_of_int = (\<lambda>i. i), fo_of_uint = (\<lambda>u. u), fo_zero = 0,
     fo_show = (\<lambda>i. FormatInt (sint i)), fo_json = (\<lambda>v. []), fo_show_other = (\<lambda>v. [])\<rparr>"

theorem rpc_default_limit_witness:
  "length (fst (RangeForeach mem_rocks (mem_rdb (replicate 1500 (''k'', ''v'')))
     (rpc_times demo_float_ops 7 JNull ((rpc_option demo_float_ops JNull)\<lparr>ro_Ctx := Some (\<lambda>n. False)\<rparr>)))) \<le> 1000"
  using rpc_default_limit [of JNull "rpc_times demo_float_ops 7 JNull ((rpc_option demo_float_ops JNull)\<lparr>ro_Ctx := Some (\<lambda>n. False)\<rparr>)"
      demo_float_ops 7 "\<lambda>n. False" mem_rocks "mem_rdb (replicate 1500 (''k'', ''v''))"] by simp

lemma snap_put_seek:
  "sorted_snapshot xs \<Longrightarrow> \<exists>es. seek k (snap_put k v xs) = (k, v) # es"
proof (induction k v xs rule: snap_put.induct)
  case (2 k v l w xs)
  then show ?case by (auto simp: seek_def)
qed (simp add: seek_def)

text \<open>
  What a successful \<open>set\<close> request stores, a \<open>get\<close> request for the same column family and key
  that is not empty answers: the JSON text of the key and the value, under the identifier of the request.
\<close>

theorem rpc_set_then_get:
  assumes "rocks_engine_laws (en_eng en) good" "good (rdb_DB r)" "rdb_CFHs r cf = Some h" "key \<noteq> []"
    and "HandleRPC en now ctx store r fs
      = Some (Inr reply, r', fs')"
    and "rq_Method store = ''set''" "rq_Params store = JMap [(''key'', JStr key), (''value'', JStr val), (''cf'', JStr cf)]"
    "rq_Method ask = ''get''" "rq_Params ask = JMap [(''key'', JStr key), (''cf'', JStr cf)]"
  shows "HandleRPC en now' ctx' ask r' fs' =
    Some (Inr \<lparr>rp_ID = (case rq_ID ask of None \<Rightarrow> 0 | Some i \<Rightarrow> i),
      rp_Result = RawJson (case en_enc en (KVRaw key val) of None \<Rightarrow> [] | Some t \<Rightarrow> t)\<rparr>, r', fs')"
proof -
  let ?eng = "en_eng en"
  have srt: "sorted_snapshot (re_iter ?eng (rdb_DB r) (Some h))" by (rule rocks_engine_laws.sorted [OF assms(1,2)])
  obtain d where d: "re_put ?eng (rdb_DB r) (Some h) key val = (None, d)" and r': "r' = r\<lparr>rdb_DB := d\<rparr>" and fs': "fs' = fs"
    using assms(3,5,6,7)
    by (auto simp: HandleRPC_def handleSet_def GetStringField_def GetField_def str_param_def PutCF_def Let_def
        split: prod.splits option.splits)
  have "re_iter ?eng d (Some h) = snap_put key val (re_iter ?eng (rdb_DB r) (Some h))"
    using rocks_engine_laws.put [OF assms(1,2) d] by simp
  with snap_put_seek [OF srt] obtain es where "seek key (re_iter ?eng d (Some h)) = (key, val) # es" by metis
  then show ?thesis using assms(3,4,8,9)
    by (simp add: HandleRPC_def handleRangeAction_def rpc_option_def rpc_times_def GetStringField_def GetIntegerField_def
        GetBoolField_def GetField_def str_param_def bool_param_def NewRangeOption_def GetRange_def WriteTo_def r'
        range_reply_def write_sink_def Let_def)
qed


text \<open>
  A \<open>delete\<close> request with a start and an end key, and no limit, removes only the first 1000
  entries of the range, on an engine whose deletions succeed, and answers that it succeeded.
\<close>

theorem rpc_delete_first_1000:
  assumes "rocks_engine_laws (en_eng en) good" "good (rdb_DB r)" "rdb_CFHs r ''default'' = Some h"
    and "\<And>d k. good d \<Longrightarrow> fst (re_delete (en_eng en) d (Some h) k) = None"
    and "rq_Method req = ''delete''" "rq_Params req = JMap [(''startkey'', JStr lo), (''endkey'', JStr hi)]" "\<And>n. \<not> ctx n"
  shows "\<exists>r'. HandleRPC en now ctx req r fs =
      Some (Inr \<lparr>rp_ID = (case rq_ID req of None \<Rightarrow> 0 | Some i \<Rightarrow> i), rp_Result = RawJson result_ok\<rparr>, r', fs)
    \<and> re_iter (en_eng en) (rdb_DB r') (Some h) =
        filter (\<lambda>e. e \<notin> set (take 1000 (filter (\<lambda>e. lo \<le> fst e \<and> (hi = [] \<or> fst e \<le> hi))
            (re_iter (en_eng en) (rdb_DB r) (Some h)))))
          (re_iter (en_eng en) (rdb_DB r) (Some h))"
proof -
  let ?eng = "en_eng en" and ?snap = "re_iter (en_eng en) (rdb_DB r) (Some h)"
  define opt where "opt = rpc_times (en_fo en) now (rq_Params req) ((rpc_option (en_fo en) (rq_Params req))\<lparr>ro_Ctx := Some ctx\<rparr>)"
  have opt: "ro_CF opt = ''default''" "ro_Key opt = []" "ro_Limit opt = 1000" "ro_StartKey opt = lo" "ro_EndKey opt = hi"
    "ro_StartTS opt = 0" "ro_EndTS opt = 0" "ro_Ctx opt = Some ctx" "0 \<le> ro_TSFieldIndex opt"
    by (simp_all add: opt_def rpc_times_def rpc_option_def assms(6) GetStringField_def GetIntegerField_def GetBoolField_def
        GetField_def str_param_def bool_param_def NewRangeOption_def DefaultColumnFamilyName_def Let_def)
  have same: "RangeForeach ?eng r opt = RangeForeach ?eng r (opt\<lparr>ro_Ctx := None\<rparr>)"
    by (rule RangeForeach_never [OF opt(8) assms(7)])
  have vis: "fst (RangeForeach ?eng r opt) =
      take 1000 (filter (\<lambda>e. lo \<le> fst e \<and> (hi = [] \<or> fst e \<le> hi)) ?snap)"
    using RangeForeach_eq [of ?eng r "opt\<lparr>ro_Ctx := None\<rparr>"] rocks_engine_laws.sorted_cf [OF assms(1-3)] opt assms(3)
    by (simp add: same limited_def cf_snapshot_def i64_order)
  let ?r' = "DeleteRangeByKey ?eng r opt"
  have "?r' = DeleteRangeByKey ?eng r (opt\<lparr>ro_Ctx := None\<rparr>)" by (simp add: DeleteRangeByKey_def same)
  with DeleteRangeByKey_effect(3) [OF assms(1,2), of "opt\<lparr>ro_Ctx := None\<rparr>" h] assms(3,4) opt(1)
  have "re_iter ?eng (rdb_DB ?r') (Some h) = filter (\<lambda>e. e \<notin> set (fst (RangeForeach ?eng r opt))) ?snap"
    by (simp add: same)
  moreover have "HandleRPC en now ctx req r fs =
      Some (Inr \<lparr>rp_ID = (case rq_ID req of None \<Rightarrow> 0 | Some i \<Rightarrow> i), rp_Result = RawJson result_ok\<rparr>, ?r', fs)"
  proof -
    have "ro_TSFieldIndex (rpc_option (en_fo en) (rq_Params req)) = ro_TSFieldIndex opt" by (simp add: opt_def rpc_times_def)
    moreover have "rpc_times (en_fo en) now (rq_Params req) (rpc_option (en_fo en) (rq_Params req)\<lparr>ro_Ctx := Some ctx\<rparr>) = opt"
      by (simp add: opt_def)
    moreover have "GetStringField (rq_Params req) ''output'' = None"
      by (simp add: assms(6) GetStringField_def GetField_def)
    moreover have "DeleteRange ?eng now r (Some opt) = Some (None, ?r')"
      using opt assms(3) by (simp add: DeleteRange_def by_ts_def)
    ultimately show ?thesis using assms(5) opt(9)
      by (simp add: HandleRPC_def handleRangeAction_def range_reply_def write_sink_def Let_def)
  qed
  ultimately show ?thesis unfolding vis by blast
qed

definition demo_rpc_env :: "(string \<Rightarrow> snapshot, string, i64) rpc_env" where
  "demo_rpc_env = \<lparr>en_enc = (\<lambda>e. case e of KVRaw k v \<Rightarrow> Some v | KVJson k v \<Rightarrow> Some v), en_enc_all = (\<lambda>es. Some []),
     en_eng = mem_rocks,
     en_adm = \<lparr>ra_flush = (\<lambda>d. None), ra_compact = (\<lambda>d h. d), ra_property = (\<lambda>d n. []), ra_property_cf = (\<lambda>d n h. []),
       ra_open_backup = (\<lambda>p. Inr ()), ra_create_backup = (\<lambda>p d. None), ra_purge = (\<lambda>p n. None),
       ra_restore = (\<lambda>a b c. None), ra_backups = (\<lambda>p. [])\<rparr>,
     en_fo = demo_float_ops, en_to_u32 = ucast, en_create = (\<lambda>f. True), en_marshal = (\<lambda>i. Inr []), en_cfs = [''default'']\<rparr>"

definition demo_request :: "string \<Rightarrow> (string \<times> i64 jval) list \<Rightarrow> i64 rpc_request" where
  "demo_request m ps = \<lparr>rq_ID = Some 4, rq_JsonRpc = RPCVersion, rq_Method = m, rq_Params = JMap ps\<rparr>"

theorem rpc_set_then_get_witness:
  "\<exists>r'. HandleRPC demo_rpc_env 0 (\<lambda>n. False) (demo_request ''set'' [(''key'', JStr ''k''), (''value'', JStr ''v''), (''cf'', JStr ''default'')])
      (mem_rdb []) (\<lambda>f. None) = Some (Inr \<lparr>rp_ID = 4, rp_Result = TextResult ''set ok''\<rparr>, r', (\<lambda>f. None))
    \<and> HandleRPC demo_rpc_env 9 (\<lambda>n. False) (demo_request ''get'' [(''key'', JStr ''k''), (''cf'', JStr ''default'')]) r' (\<lambda>f. None) =
      Some (Inr \<lparr>rp_ID = 4, rp_Result = RawJson ''v''\<rparr>, r', (\<lambda>f. None))"
proof -
  let ?st = "demo_request ''set'' [(''key'', JStr ''k''), (''value'', JStr ''v''), (''cf'', JStr ''default'')]"
  let ?ask = "demo_request ''get'' [(''key'', JStr ''k''), (''cf'', JStr ''default'')]"
  obtain r' where s: "HandleRPC demo_rpc_env 0 (\<lambda>n. False) ?st (mem_rdb []) (\<lambda>f. None) =
      Some (Inr \<lparr>rp_ID = 4, rp_Result = TextResult ''set ok''\<rparr>, r', (\<lambda>f. None))"
    by (simp add: HandleRPC_def demo_request_def demo_rpc_env_def handleSet_def GetStringField_def GetField_def
        str_param_def PutCF_def mem_rocks_def Let_def)
  have laws: "rocks_engine_laws (en_eng demo_rpc_env) mem_rocks_inv" "en_enc demo_rpc_env (KVRaw ''k'' ''v'') = Some ''v''"
    using memrocks.rocks_engine_laws_axioms by (simp_all add: demo_rpc_env_def)
  have "HandleRPC demo_rpc_env 9 (\<lambda>n. False) ?ask r' (\<lambda>f. None) =
      Some (Inr \<lparr>rp_ID = (case rq_ID ?ask of None \<Rightarrow> 0 | Some i \<Rightarrow> i),
        rp_Result = RawJson (case en_enc demo_rpc_env (KVRaw ''k'' ''v'') of None \<Rightarrow> [] | Some t \<Rightarrow> t)\<rparr>, r', (\<lambda>f. None))"
    by (rule rpc_set_then_get [OF laws(1) _ _ _ s, of "''default''" "''default''"]) (simp_all add: demo_request_def)
  with s laws(2) show ?thesis by (simp add: demo_request_def)
qed


theorem rpc_delete_first_1000_witness:
  "\<exists>r'. HandleRPC demo_rpc_env 0 (\<lambda>n. False) (demo_request ''delete'' [(''startkey'', JStr ''b''), (''endkey'', JStr ''b'')])
      (mem_rdb [(''a'', ''1''), (''b'', ''2''), (''c'', ''3'')]) (\<lambda>f. None) =
      Some (Inr \<lparr>rp_ID = 4, rp_Result = RawJson result_ok\<rparr>, r', (\<lambda>f. None))
    \<and> re_iter mem_rocks (rdb_DB r') (Some ''default'') = [(''a'', ''1''), (''c'', ''3'')]"
proof -
  let ?r = "mem_rdb [(''a'', ''1''), (''b'', ''2''), (''c'', ''3'')]"
  have it: "re_iter mem_rocks (rdb_DB ?r) (Some ''default'') = [(''a'', ''1''), (''b'', ''2''), (''c'', ''3'')]"
    by (simp add: mem_rocks_def mem_rdb_def)
  have laws: "rocks_engine_laws (en_eng demo_rpc_env) mem_rocks_inv" "en_eng demo_rpc_env = mem_rocks"
    using memrocks.rocks_engine_laws_axioms by (simp_all add: demo_rpc_env_def)
  show ?thesis
    using rpc_delete_first_1000 [OF laws(1), of ?r "''default''" "demo_request ''delete'' [(''startkey'', JStr ''b''), (''endkey'', JStr ''b'')]"
        "''b''" "''b''" "\<lambda>n. False" 0 "\<lambda>f. None"] laws(2)
    by (simp add: demo_request_def it) (simp add: mem_rocks_def)
qed

end
