(* ===== verification/RdbCommand.thy ===== *)
theory RdbCommand
  imports RocksServer
begin

text \<open>
  \<open>rocksdb/cmd/rdb/rdb.go\<close>: the command line tool. The package \<open>flag\<close> is an argument: from the flags a
  subcommand registers and its arguments, the value of each flag, or an error. Opening the database,
  the output file and the user switch are arguments too; what is printed is a list of texts.
\<close>

section \<open>Flags of the subcommands\<close>

datatype flag_val = FBool bool | FStr string | FInt i64 | FUint "64 word"

type_synonym flag_set = "(string \<times> flag_val) list"

text \<open>The names and the defaults, by subcommand; \<open>-h\<close> belongs to all.\<close>

definition range_flags :: flag_set where
  "range_flags = [(''cf'', FStr ''default''), (''k'', FStr []), (''s'', FStr []), (''e'', FStr []), (''S'', FInt 0),
     (''E'', FInt 0), (''d'', FStr '',''), (''i'', FInt 1), (''l'', FInt (- 1))]"

definition subcmd_flags :: "string \<Rightarrow> flag_set" where
  "subcmd_flags cmd = (''h'', FBool False) #
     (if cmd = ''get'' \<or> cmd = ''delete'' then range_flags
      else if cmd = ''restore'' then [(''t'', FStr []), (''f'', FStr [])]
      else if cmd = ''backup'' then [(''t'', FStr [])]
      else if cmd = ''http'' then [(''l'', FStr '':9000'')]
      else if cmd = ''purge'' then [(''k'', FUint 30)]
      else if cmd = ''backup_info'' then [(''d'', FUint 30)]
      else [])"

record db_cmd =
  dc_dbpath :: string
  dc_output :: string
  dc_user :: string
  dc_verbose :: bool
  dc_readonly :: bool
  dc_opt :: range_option
  dc_subCmdHelp :: bool
  dc_restorePath :: string
  dc_backupPath :: string
  dc_addr :: string
  dc_keepCnt :: "64 word"
  dc_subCommand :: string

text \<open>The fields a subcommand does not register stay zero, the option included.\<close>

definition zero_option :: range_option where
  "zero_option = \<lparr>ro_StartKey = [], ro_EndKey = [], ro_StartTS = 0, ro_EndTS = 0, ro_TSFieldIndex = 0,
     ro_KeySeparator = [], ro_Key = [], ro_CF = [], ro_Limit = 0, ro_IsJsonValue = False, ro_Ctx = None,
     ro_streamOutput = False\<rparr>"

fun flag_str :: "flag_val option \<Rightarrow> string" where
  "flag_str (Some (FStr s)) = s"
| "flag_str v = []"

fun flag_int :: "flag_val option \<Rightarrow> i64" where
  "flag_int (Some (FInt i)) = i"
| "flag_int v = 0"

fun flag_uint :: "flag_val option \<Rightarrow> 64 word" where
  "flag_uint (Some (FUint i)) = i"
| "flag_uint v = 0"

datatype cmd_error =
    ParseFailed string | InvalidTSFieldIndex int | UserSwitch string | OutputFailed string | OpenDB open_error
  | DbpathRequired | BackupPathRequired | RestorePathsRequired | CmdRange rdb_error | CmdAdmin admin_error
  | ListenFailed string | NotImplemented string

datatype parse_result = Usage | Parsed "cmd_error option" db_cmd

text \<open>
  The registered flags with their values after parsing: \<open>flag.Parse\<close> overrides the defaults, and stores
  values of the type a flag is registered with.
\<close>

definition store_flags :: "string \<Rightarrow> (string \<rightharpoonup> flag_val) \<Rightarrow> db_cmd \<Rightarrow> db_cmd" where
  "store_flags sub v cmd =
     (if sub = ''get'' \<or> sub = ''delete'' then
        cmd\<lparr>dc_opt := (dc_opt cmd)\<lparr>ro_CF := flag_str (v ''cf''), ro_Key := flag_str (v ''k''),
           ro_StartKey := flag_str (v ''s''), ro_EndKey := flag_str (v ''e''), ro_StartTS := flag_int (v ''S''),
           ro_EndTS := flag_int (v ''E''), ro_KeySeparator := flag_str (v ''d''),
           ro_TSFieldIndex := sint (flag_int (v ''i'')), ro_Limit := flag_int (v ''l'')\<rparr>\<rparr>
      else if sub = ''restore'' then cmd\<lparr>dc_restorePath := flag_str (v ''t''), dc_backupPath := flag_str (v ''f'')\<rparr>
      else if sub = ''backup'' then cmd\<lparr>dc_backupPath := flag_str (v ''t'')\<rparr>
      else if sub = ''http'' then cmd\<lparr>dc_addr := flag_str (v ''l'')\<rparr>
      else if sub = ''purge'' then cmd\<lparr>dc_keepCnt := flag_uint (v ''k'')\<rparr>
      else if sub = ''backup_info'' then cmd\<lparr>dc_keepCnt := flag_uint (v ''d'')\<rparr>
      else cmd)"

definition parseSubCommand ::
    "(flag_set \<Rightarrow> string list \<Rightarrow> string + (string \<rightharpoonup> flag_val)) \<Rightarrow> i64 \<Rightarrow> string list \<Rightarrow> db_cmd \<Rightarrow> parse_result" where
  "parseSubCommand parse now args cmd =
     (let sub = hd args; cmd = cmd\<lparr>dc_subCommand := sub\<rparr> in
      case parse (subcmd_flags sub) (tl args) of
        Inl err \<Rightarrow> Parsed (Some (ParseFailed err)) cmd
      | Inr given \<Rightarrow>
          let v = map_of (subcmd_flags sub) ++ given;
              cmd = (store_flags sub v cmd)\<lparr>dc_subCmdHelp := (v ''h'' = Some (FBool True))\<rparr>
          in if dc_subCmdHelp cmd then Usage
             else
               let opt = dc_opt cmd;
                   opt = (if ro_StartTS opt <s 0 then opt\<lparr>ro_StartTS := now + ro_StartTS opt\<rparr> else opt);
                   opt = (if ro_EndTS opt <s 0 then opt\<lparr>ro_EndTS := now + ro_EndTS opt\<rparr> else opt)
               in Parsed (if ro_TSFieldIndex opt < 0 then Some (InvalidTSFieldIndex (ro_TSFieldIndex opt)) else None)
                    (cmd\<lparr>dc_opt := opt\<rparr>))"

section \<open>Running a subcommand\<close>

record ('d, 'h, 'f) cmd_env =
  ce_rpc :: "('d, 'h, 'f) rpc_env"
  ce_now :: i64
  ce_set_user :: "string \<Rightarrow> string option"
  ce_open_db :: "string \<Rightarrow> bool \<Rightarrow> open_error + ('d, 'h) rdb"
  ce_show_backup :: "backup_info \<Rightarrow> string"
  ce_listen :: "string \<Rightarrow> ('d, 'h) rdb \<Rightarrow> string option"

type_synonym ('d, 'h) cmd_result = "cmd_error option \<times> ('d, 'h) rdb option \<times> string"

definition with_db :: "('d, 'h, 'f) cmd_env \<Rightarrow> db_cmd \<Rightarrow>
    (('d, 'h) rdb \<Rightarrow> ('d, 'h) cmd_result option) \<Rightarrow> ('d, 'h) cmd_result option" where
  "with_db en cmd k =
     (case ce_open_db en (dc_dbpath cmd) (dc_readonly cmd) of
        Inl err \<Rightarrow> Some (Some (OpenDB err), None, [])
      | Inr r \<Rightarrow> k r)"

definition cmd_get :: "('d, 'h, 'f) cmd_env \<Rightarrow> db_cmd \<Rightarrow> ('d, 'h) cmd_result option" where
  "cmd_get en cmd = with_db en cmd (\<lambda>r.
     map_option (\<lambda>(e, text). (map_option CmdRange e, Some r, text))
       (GetRange (en_enc (ce_rpc en)) (en_enc_all (ce_rpc en)) (en_eng (ce_rpc en)) (ce_now en) r (Some (dc_opt cmd))))"

definition cmd_delete :: "('d, 'h, 'f) cmd_env \<Rightarrow> db_cmd \<Rightarrow> ('d, 'h) cmd_result option" where
  "cmd_delete en cmd = with_db en cmd (\<lambda>r.
     map_option (\<lambda>(e, r'). (map_option CmdRange e, Some r', if e = None then result_ok else []))
       (DeleteRange (en_eng (ce_rpc en)) (ce_now en) r (Some (dc_opt cmd))))"

definition cmd_info :: "('d, 'h, 'f) cmd_env \<Rightarrow> db_cmd \<Rightarrow> ('d, 'h) cmd_result option" where
  "cmd_info en cmd = with_db en cmd (\<lambda>r.
     Some (case Info (en_marshal (ce_rpc en)) (en_adm (ce_rpc en)) (en_cfs (ce_rpc en)) (Some r) (dc_verbose cmd) of
             Inl e \<Rightarrow> (Some (CmdAdmin e), Some r, [])
           | Inr t \<Rightarrow> (None, Some r, t)))"

definition cmd_backup :: "('d, 'h, 'f) cmd_env \<Rightarrow> db_cmd \<Rightarrow> ('d, 'h) cmd_result option" where
  "cmd_backup en cmd = with_db en cmd (\<lambda>r.
     Some (if dc_backupPath cmd = [] then Some BackupPathRequired
           else map_option CmdAdmin (Backup (en_adm (ce_rpc en)) r (dc_backupPath cmd)), Some r, []))"

definition cmd_restore :: "('d, 'h, 'f) cmd_env \<Rightarrow> db_cmd \<Rightarrow> cmd_error option" where
  "cmd_restore en cmd =
     (if dc_restorePath cmd = [] \<or> dc_backupPath cmd = [] then Some RestorePathsRequired
      else map_option CmdAdmin (Restore (en_adm (ce_rpc en)) (dc_backupPath cmd) (dc_restorePath cmd)))"

definition cmd_backupInfo :: "('d, 'h, 'f) cmd_env \<Rightarrow> db_cmd \<Rightarrow> cmd_error option \<times> string" where
  "cmd_backupInfo en cmd =
     (if dc_dbpath cmd = [] then (Some DbpathRequired, [])
      else case GetBackupInfo (en_adm (ce_rpc en)) (dc_dbpath cmd) of
             Inl e \<Rightarrow> (Some (CmdAdmin e), [])
           | Inr bs \<Rightarrow> (None, concat (map (\<lambda>b. ''Backup info: '' @ ce_show_backup en b @ newline) bs)))"

definition cmd_serveHttp :: "('d, 'h, 'f) cmd_env \<Rightarrow> db_cmd \<Rightarrow> ('d, 'h) cmd_result option" where
  "cmd_serveHttp en cmd = with_db en cmd (\<lambda>r.
     Some (map_option ListenFailed (ce_listen en (dc_addr cmd) r), Some r, []))"

definition cmd_purge :: "('d, 'h, 'f) cmd_env \<Rightarrow> db_cmd \<Rightarrow> cmd_error option" where
  "cmd_purge en cmd =
     map_option CmdAdmin (PurgeOldBackups (en_adm (ce_rpc en)) (dc_dbpath cmd) (ucast (dc_keepCnt cmd)))"

definition doSubCommand :: "('d, 'h, 'f) cmd_env \<Rightarrow> db_cmd \<Rightarrow> ('d, 'h) cmd_result option" where
  "doSubCommand en cmd =
     (case ce_set_user en (dc_user cmd) of
        Some err \<Rightarrow> Some (Some (UserSwitch err), None, [])
      | None \<Rightarrow>
          if dc_output cmd \<noteq> [] \<and> \<not> en_create (ce_rpc en) (dc_output cmd)
          then Some (Some (OutputFailed (dc_output cmd)), None, [])
          else
            let sub = dc_subCommand cmd in
            if sub = ''info'' then cmd_info en cmd
            else if sub = ''get'' then cmd_get en cmd
            else if sub = ''delete'' then cmd_delete en cmd
            else if sub = ''restore'' then Some (cmd_restore en cmd, None, [])
            else if sub = ''backup'' then cmd_backup en cmd
            else if sub = ''http'' then cmd_serveHttp en cmd
            else if sub = ''purge'' then Some (cmd_purge en cmd, None, [])
            else if sub = ''backup_info'' then (case cmd_backupInfo en cmd of (e, t) \<Rightarrow> Some (e, None, t))
            else Some (Some (NotImplemented sub), None, []))"

text \<open>
  \<open>main\<close>, from the arguments after the global flags: usage and exit, or the error and the text written;
  an error is appended as JSON by \<open>show\<close>.
\<close>

datatype ('d, 'h) cmd_outcome = Exits | Finishes "cmd_error option" "('d, 'h) rdb option" string

definition rdb_main ::
    "(cmd_error \<Rightarrow> string) \<Rightarrow> (flag_set \<Rightarrow> string list \<Rightarrow> string + (string \<rightharpoonup> flag_val)) \<Rightarrow> ('d, 'h, 'f) cmd_env \<Rightarrow>
     db_cmd \<Rightarrow> string list \<Rightarrow> ('d, 'h) cmd_outcome option" where
  "rdb_main show_error parse en cmd args =
     (if args = [] then Some Exits
      else
        case parseSubCommand parse (ce_now en) args cmd of
          Usage \<Rightarrow> Some Exits
        | Parsed (Some err) cmd' \<Rightarrow> Some (Finishes (Some err) None (show_error err @ newline))
        | Parsed None cmd' \<Rightarrow>
            map_option (\<lambda>(e, r, text).
                Finishes e r (text @ (case e of None \<Rightarrow> [] | Some err \<Rightarrow> show_error err @ newline)))
              (doSubCommand en cmd'))"

section \<open>The global flags\<close>

definition global_flags :: "string option \<Rightarrow> flag_set" where
  "global_flags current_user =
     [(''d'', FStr []), (''o'', FStr []), (''u'', FStr (case current_user of None \<Rightarrow> ''www'' | Some u \<Rightarrow> u)),
      (''v'', FBool False), (''r'', FBool False)]"

definition global_cmd :: "(string \<rightharpoonup> flag_val) \<Rightarrow> db_cmd" where
  "global_cmd v =
     \<lparr>dc_dbpath = flag_str (v ''d''), dc_output = flag_str (v ''o''), dc_user = flag_str (v ''u''),
      dc_verbose = (v ''v'' = Some (FBool True)), dc_readonly = (v ''r'' = Some (FBool True)), dc_opt = zero_option,
      dc_subCmdHelp = False, dc_restorePath = [], dc_backupPath = [], dc_addr = [], dc_keepCnt = 0, dc_subCommand = []\<rparr>"

text \<open>
  The whole program: \<open>parse_global\<close> gives the values of the global flags and the remaining arguments, or exits with
  a message. Whether debug messages are printed comes first in the result.
\<close>

definition rdb_program ::
    "(cmd_error \<Rightarrow> string) \<Rightarrow> (flag_set \<Rightarrow> string list \<Rightarrow> ((string \<rightharpoonup> flag_val) \<times> string list) option) \<Rightarrow>
     (flag_set \<Rightarrow> string list \<Rightarrow> string + (string \<rightharpoonup> flag_val)) \<Rightarrow> ('d, 'h, 'f) cmd_env \<Rightarrow> string option \<Rightarrow> string list \<Rightarrow>
     bool \<times> ('d, 'h) cmd_outcome option" where
  "rdb_program show_error parse_global parse en current_user argv =
     (case parse_global (global_flags current_user) argv of
        None \<Rightarrow> (False, Some Exits)
      | Some (given, rest) \<Rightarrow>
          let cmd = global_cmd (map_of (global_flags current_user) ++ given)
          in (dc_verbose cmd, rdb_main show_error parse en cmd rest))"

section \<open>What the program changes\<close>

lemma with_db_unchanged:
  assumes "with_db en cmd k = Some (e, Some r, text)"
    and "\<And>r0 res. k r0 = Some res \<Longrightarrow> fst (snd res) = Some r0"
  shows "ce_open_db en (dc_dbpath cmd) (dc_readonly cmd) = Inr r"
  using assms(1) by (auto simp: with_db_def split: sum.splits dest: assms(2))

lemma doSubCommand_unchanged:
  assumes "doSubCommand en cmd = Some (e, Some r, text)" "dc_subCommand cmd \<noteq> ''delete''"
  shows "ce_open_db en (dc_dbpath cmd) (dc_readonly cmd) = Inr r"
proof -
  consider "cmd_info en cmd = Some (e, Some r, text)" | "cmd_get en cmd = Some (e, Some r, text)"
    | "cmd_backup en cmd = Some (e, Some r, text)" | "cmd_serveHttp en cmd = Some (e, Some r, text)"
    using assms by (auto simp: doSubCommand_def Let_def split: option.splits if_splits prod.splits)
  then show ?thesis
  proof cases
    case 1
    then show ?thesis unfolding cmd_info_def by (rule with_db_unchanged) (auto split: sum.splits)
  next
    case 2
    then show ?thesis unfolding cmd_get_def by (rule with_db_unchanged) auto
  next
    case 3
    then show ?thesis unfolding cmd_backup_def by (rule with_db_unchanged) auto
  next
    case 4
    then show ?thesis unfolding cmd_serveHttp_def by (rule with_db_unchanged) auto
  qed
qed

lemma store_flags_global:
  "dc_dbpath (store_flags sub v cmd) = dc_dbpath cmd \<and> dc_readonly (store_flags sub v cmd) = dc_readonly cmd
   \<and> dc_subCommand (store_flags sub v cmd) = dc_subCommand cmd"
  by (simp add: store_flags_def)

lemma parseSubCommand_global:
  "parseSubCommand parse now args cmd = Parsed err cmd' \<Longrightarrow>
   dc_dbpath cmd' = dc_dbpath cmd \<and> dc_readonly cmd' = dc_readonly cmd \<and> dc_subCommand cmd' = hd args"
  by (auto simp: parseSubCommand_def Let_def store_flags_global split: sum.splits if_splits)

text \<open>
  Every subcommand but \<open>delete\<close> leaves the database as it was opened, under the path and in the mode of the global flags;
  a command line that cannot be parsed opens none.
\<close>

theorem only_delete_changes:
  assumes "parse_global (global_flags u) argv = Some (given, sub # args)" "sub \<noteq> ''delete''"
    and "rdb_program show_error parse_global parse en u argv = (v, Some (Finishes e (Some r) text))"
  shows "ce_open_db en (dc_dbpath (global_cmd (map_of (global_flags u) ++ given)))
      (dc_readonly (global_cmd (map_of (global_flags u) ++ given))) = Inr r"
proof -
  let ?cmd = "global_cmd (map_of (global_flags u) ++ given)"
  obtain cmd' where p: "parseSubCommand parse (ce_now en) (sub # args) ?cmd = Parsed None cmd'"
    and d: "\<exists>text. doSubCommand en cmd' = Some (e, Some r, text)"
    using assms(1,3)
    by (auto simp: rdb_program_def rdb_main_def Let_def split: parse_result.splits option.splits)
  have g: "dc_dbpath cmd' = dc_dbpath ?cmd" "dc_readonly cmd' = dc_readonly ?cmd" "dc_subCommand cmd' = sub"
    using parseSubCommand_global [OF p] by simp_all
  from d obtain text' where "doSubCommand en cmd' = Some (e, Some r, text')" by blast
  from doSubCommand_unchanged [OF this] g assms(2) show ?thesis by simp
qed

end
