(* ===== verification/RdbTool.thy ===== *)
theory RdbTool
  imports RdbCommand
begin

text \<open>
  The tool \<open>rdb\<close> as a whole, from the command line to the database and the output: what \<open>get\<close> prints and \<open>delete\<close>
  removes, for one set of flags.
\<close>

section \<open>Range commands from the command line\<close>

text \<open>The value of a flag of \<open>get\<close> and \<open>delete\<close>, and the option the flags give when no key and no time stamp is asked for.\<close>

definition range_flag :: "(string \<rightharpoonup> flag_val) \<Rightarrow> string \<Rightarrow> flag_val option" where
  "range_flag given = map_of range_flags ++ given"

definition by_key_option :: "(string \<rightharpoonup> flag_val) \<Rightarrow> range_option" where
  "by_key_option given = zero_option\<lparr>ro_CF := flag_str (range_flag given ''cf''),
     ro_StartKey := flag_str (range_flag given ''s''), ro_EndKey := flag_str (range_flag given ''e''),
     ro_KeySeparator := flag_str (range_flag given ''d''), ro_TSFieldIndex := 1, ro_Limit := flag_int (range_flag given ''l'')\<rparr>"



section \<open>The two commands\<close>

text \<open>What the flags select of the entries of a column family.\<close>

definition selected :: "(string \<rightharpoonup> flag_val) \<Rightarrow> snapshot \<Rightarrow> snapshot" where
  "selected given snap =
     (let lo = flag_str (range_flag given ''s''); hi = flag_str (range_flag given ''e''); limit = flag_int (range_flag given ''l'')
      in (if 0 <s limit then take (nat (sint limit)) else id) (filter (\<lambda>e. lo \<le> fst e \<and> (hi = [] \<or> fst e \<le> hi)) snap))"

lemma by_key_option_simps [simp]:
  "ro_Key (by_key_option given) = []" "ro_Ctx (by_key_option given) = None" "by_ts (by_key_option given) = False"
  "ro_IsJsonValue (by_key_option given) = False" "ro_streamOutput (by_key_option given) = False"
  "ro_CF (by_key_option given) = flag_str (range_flag given ''cf'')"
  by (simp_all add: by_key_option_def zero_option_def by_ts_def)





lemma selected_again:
  assumes "\<not> 0 <s flag_int (range_flag given ''l'')"
  shows "selected given (filter (\<lambda>e. e \<notin> set (selected given snap)) snap) = []"
  using assms by (auto simp: selected_def Let_def filter_empty_conv)

section \<open>Properties\<close>










end
