(* ===== verification/Codec.thy ===== *)
theory Codec
  imports IOHelper
begin

text \<open>
  \<open>codec/codec.go\<close> and \<open>codec/gob.go\<close>: values written as JSON with errors as values, replies of a server checked, and
  sequences of values written with \<open>encoding/gob\<close>. What \<open>json.Marshal\<close> gives for a value and what the gob encoder and
  decoder do with one value are arguments.
\<close>

section \<open>JSON\<close>

definition nl :: string where "nl = [CHR 0x0A]"

text \<open>
  \<open>JsonMarshal\<close> and \<open>ToJsonError\<close> call one another; \<open>errObj\<close> and \<open>resObj\<close> make the values with a field for the text of an
  error and for a result. The calls may go on for ever.
\<close>

partial_function (option) JsonMarshal :: "('j \<Rightarrow> string + string) \<Rightarrow> (string \<Rightarrow> 'j) \<Rightarrow> 'j \<Rightarrow> string option" where
  "JsonMarshal marshal errObj i =
     (case marshal i of
        Inr out \<Rightarrow> Some out
      | Inl err \<Rightarrow> Option.bind (JsonMarshal marshal errObj (errObj err)) (\<lambda>out. Some (out @ nl)))"

definition ToJsonError :: "('j \<Rightarrow> string + string) \<Rightarrow> (string \<Rightarrow> 'j) \<Rightarrow> string \<Rightarrow> string option" where
  "ToJsonError marshal errObj err = map_option (\<lambda>out. out @ nl) (JsonMarshal marshal errObj (errObj err))"

definition ToJsonResult :: "('j \<Rightarrow> string + string) \<Rightarrow> (string \<Rightarrow> 'j) \<Rightarrow> ('j \<Rightarrow> 'j) \<Rightarrow> 'j \<Rightarrow> string option" where
  "ToJsonResult marshal errObj resObj v = map_option (\<lambda>out. out @ nl) (JsonMarshal marshal errObj (resObj v))"

text \<open>What is written to the writer; a nil result is answered with the string \<open>ok\<close>.\<close>

definition WriteJsonRpcString ::
    "('j \<Rightarrow> string + string) \<Rightarrow> (string \<Rightarrow> 'j) \<Rightarrow> ('j \<Rightarrow> 'j) \<Rightarrow> (string \<Rightarrow> 'j) \<Rightarrow> 'j option \<Rightarrow> string option \<Rightarrow> string option" where
  "WriteJsonRpcString marshal errObj resObj strVal res err =
     (case err of
        None \<Rightarrow> ToJsonResult marshal errObj resObj (case res of None \<Rightarrow> strVal ''ok'' | Some v \<Rightarrow> v)
      | Some e \<Rightarrow> ToJsonError marshal errObj e)"

text \<open>The type switch: a string, octets, a value with a method \<open>String\<close> (its result), and any other value.\<close>

datatype 'j writable = WrString string | WrBytes string | WrStringer string | WrOther 'j

definition WriteJsonString :: "('j \<Rightarrow> string + string) \<Rightarrow> (string \<Rightarrow> 'j) \<Rightarrow> 'j \<Rightarrow> string option" where
  "WriteJsonString marshal errObj res = JsonMarshal marshal errObj res"

definition WriteString :: "('j \<Rightarrow> string + string) \<Rightarrow> (string \<Rightarrow> 'j) \<Rightarrow> 'j writable \<Rightarrow> string option" where
  "WriteString marshal errObj i =
     (case i of
        WrString s \<Rightarrow> Some s
      | WrBytes s \<Rightarrow> Some s
      | WrStringer s \<Rightarrow> Some s
      | WrOther v \<Rightarrow> WriteJsonString marshal errObj v)"

text \<open>\<open>String\<close> of the info of a rate limit; \<open>infoVal\<close> makes the value that is marshalled.\<close>

definition rate_info_String :: "('j \<Rightarrow> string + string) \<Rightarrow> (string \<Rightarrow> 'j) \<Rightarrow> (rate_info \<Rightarrow> 'j) \<Rightarrow> rate_info \<Rightarrow> string option" where
  "rate_info_String marshal errObj infoVal info = JsonMarshal marshal errObj (infoVal info)"

text \<open>A file is opened and then decoded; the file stays as it is.\<close>

datatype 'e decode_error = CannotOpen | DecodeErr 'e

definition JsonUnmarshalFromFile :: "(byte list \<Rightarrow> 'e + 'v) \<Rightarrow> file_system \<Rightarrow> string \<Rightarrow> 'e decode_error + 'v" where
  "JsonUnmarshalFromFile decode fs fn =
     (case fs fn of
        None \<Rightarrow> Inl CannotOpen
      | Some data \<Rightarrow> (case decode data of Inl e \<Rightarrow> Inl (DecodeErr e) | Inr v \<Rightarrow> Inr v))"

definition XmlUnmarshalFromFile :: "(byte list \<Rightarrow> 'e + 'v) \<Rightarrow> file_system \<Rightarrow> string \<Rightarrow> 'e decode_error + 'v" where
  "XmlUnmarshalFromFile unmarshal fs fn =
     (case fs fn of
        None \<Rightarrow> Inl CannotOpen
      | Some data \<Rightarrow> (case unmarshal data of Inl e \<Rightarrow> Inl (DecodeErr e) | Inr v \<Rightarrow> Inr v))"

section \<open>Replies\<close>

record http_reply =
  hr_StatusCode :: int
  hr_Status :: string
  hr_Body :: string

text \<open>The error given, or a text with status, body and an error, which may be nil.\<close>

datatype http_error = GivenErr string | ReplyErr int string string "string option"

text \<open>
  \<open>decode\<close> reads a body as a JSON-RPC response: whether it has an error, or its own error. The error in the text is the one
  of decoding, which is nil there.
\<close>

definition HttpError :: "(string \<Rightarrow> string + bool) \<Rightarrow> http_reply option \<Rightarrow> string option \<Rightarrow> http_error option" where
  "HttpError decode resp err =
     (case resp of
        None \<Rightarrow> map_option GivenErr err
      | Some r \<Rightarrow>
          (case err of
             Some e \<Rightarrow> Some (ReplyErr (hr_StatusCode r) (hr_Status r) (hr_Body r) (Some e))
           | None \<Rightarrow>
               if length (hr_Body r) < 11 then None
               else
                 (case decode (hr_Body r) of
                    Inl e \<Rightarrow> None
                  | Inr hasError \<Rightarrow>
                      if hasError then Some (ReplyErr (hr_StatusCode r) (hr_Status r) (hr_Body r) None) else None)))"

section \<open>Gob\<close>

text \<open>
  A value as the functions get it, or a slice of values; \<open>enc\<close> gives the octets for a value and the next state of
  an encoder, \<open>dec\<close> the value read as the given type and the rest of what a decoder reads from.
\<close>

datatype 'v gob_val = GobOne 'v | GobSlice "'v gob_val list"

type_synonym ('v, 'e) gob_encoder = "'e \<Rightarrow> 'v gob_val \<Rightarrow> string + byte list \<times> 'e"
type_synonym ('v, 't, 'r) gob_decoder = "'r \<Rightarrow> 't \<Rightarrow> string + 'v gob_val \<times> 'r"

datatype gob_error = EncodeError nat nat string | DecodeError nat nat string | FileOpenError

text \<open>The loop with \<open>i\<close> values done of \<open>n\<close>; the octets written before an error stay written.\<close>

fun gob_encode_loop :: "('v, 'e) gob_encoder \<Rightarrow> nat \<Rightarrow> nat \<Rightarrow> 'e \<Rightarrow> 'v gob_val list \<Rightarrow> gob_error option \<times> byte list" where
  "gob_encode_loop enc n i e [] = (None, [])"
| "gob_encode_loop enc n i e (v # vs) =
     (case enc e v of
        Inl err \<Rightarrow> (Some (EncodeError (Suc i) n err), [])
      | Inr (bs, e') \<Rightarrow> (case gob_encode_loop enc n (Suc i) e' vs of (err, out) \<Rightarrow> (err, bs @ out)))"

definition GobEncodeTo :: "('v, 'e) gob_encoder \<Rightarrow> 'e \<Rightarrow> 'v gob_val list \<Rightarrow> gob_error option \<times> byte list" where
  "GobEncodeTo enc new vals = gob_encode_loop enc (length vals) 0 new vals"

text \<open>The values are passed on as one argument, the slice.\<close>

definition GobEncode :: "('v, 'e) gob_encoder \<Rightarrow> 'e \<Rightarrow> 'v gob_val list \<Rightarrow> gob_error + byte list" where
  "GobEncode enc new vals =
     (case GobEncodeTo enc new [GobSlice vals] of (Some e, out) \<Rightarrow> Inl e | (None, out) \<Rightarrow> Inr out)"

definition GobEncodeToFile ::
    "(string \<Rightarrow> bool) \<Rightarrow> ('v, 'e) gob_encoder \<Rightarrow> 'e \<Rightarrow> string \<Rightarrow> 'v gob_val list \<Rightarrow> file_system \<Rightarrow> gob_error option \<times> file_system" where
  "GobEncodeToFile can_create enc new fn vals fs =
     (if \<not> can_create fn then (Some FileOpenError, fs)
      else case GobEncodeTo enc new vals of (err, out) \<Rightarrow> (err, fs(fn \<mapsto> out)))"

fun gob_decode_loop :: "('v, 't, 'r) gob_decoder \<Rightarrow> nat \<Rightarrow> nat \<Rightarrow> 'r \<Rightarrow> 't list \<Rightarrow> gob_error option \<times> 'v gob_val list" where
  "gob_decode_loop dec n i r [] = (None, [])"
| "gob_decode_loop dec n i r (t # ts) =
     (case dec r t of
        Inl err \<Rightarrow> (Some (DecodeError (Suc i) n err), [])
      | Inr (v, r') \<Rightarrow> (case gob_decode_loop dec n (Suc i) r' ts of (err, vs) \<Rightarrow> (err, v # vs)))"

text \<open>The values stored before an error stay stored.\<close>

definition GobDecodeFrom :: "('v, 't, 'r) gob_decoder \<Rightarrow> 'r \<Rightarrow> 't list \<Rightarrow> gob_error option \<times> 'v gob_val list" where
  "GobDecodeFrom dec r ts = gob_decode_loop dec (length ts) 0 r ts"

definition GobDecode :: "('v, 't, 'r) gob_decoder \<Rightarrow> (byte list \<Rightarrow> 'r) \<Rightarrow> byte list \<Rightarrow> 't list \<Rightarrow> gob_error option \<times> 'v gob_val list" where
  "GobDecode dec reader data ts = GobDecodeFrom dec (reader data) ts"

text \<open>\<open>GobDecodeValue\<close> is the same loop over values of \<open>reflect\<close>.\<close>

definition GobDecodeValue :: "('v, 't, 'r) gob_decoder \<Rightarrow> (byte list \<Rightarrow> 'r) \<Rightarrow> byte list \<Rightarrow> 't list \<Rightarrow> gob_error option \<times> 'v gob_val list" where
  "GobDecodeValue dec reader data ts = gob_decode_loop dec (length ts) 0 (reader data) ts"

lemma GobDecodeValue_same: "GobDecodeValue dec reader data ts = GobDecode dec reader data ts"
  by (simp add: GobDecodeValue_def GobDecode_def GobDecodeFrom_def)

section \<open>Properties\<close>

text \<open>
  When the object for an error can always be marshalled, \<open>JsonMarshal\<close> always returns: the text of the value, or the
  object with the error, followed by a newline.
\<close>

theorem JsonMarshal_total:
  assumes "\<And>e. \<exists>out. marshal (errObj e) = Inr out"
  shows "JsonMarshal marshal errObj i =
    Some (case marshal i of Inr out \<Rightarrow> out | Inl e \<Rightarrow> (case marshal (errObj e) of Inr out \<Rightarrow> out @ nl))"
proof (cases "marshal i")
  case (Inl e)
  from assms obtain out where "marshal (errObj e) = Inr out" by blast
  with Inl show ?thesis by (subst JsonMarshal.simps, subst JsonMarshal.simps) simp
next
  case (Inr out)
  then show ?thesis by (subst JsonMarshal.simps) simp
qed

theorem JsonMarshal_total_witness:
  "JsonMarshal (\<lambda>s. if s = ''bad'' then Inl ''unsupported'' else Inr s) id ''bad'' = Some (''unsupported'' @ nl)
   \<and> JsonMarshal (\<lambda>s. if hd s = CHR ''!'' then Inl ''unsupported'' else Inr s) (Cons (CHR ''E'')) ''ok'' = Some ''ok''"
proof -
  have "JsonMarshal (\<lambda>s. if hd s = CHR ''!'' then Inl ''unsupported'' else Inr s) (Cons (CHR ''E'')) ''ok'' = Some ''ok''"
    by (subst JsonMarshal_total) simp_all
  moreover have "JsonMarshal (\<lambda>s. if s = ''bad'' then Inl ''unsupported'' else Inr s) id ''bad'' = Some (''unsupported'' @ nl)"
    by (subst JsonMarshal.simps, simp, subst JsonMarshal.simps, simp)
  ultimately show ?thesis by simp
qed

text \<open>
  A gob encoder and decoder that agree: \<open>reads e bs r\<close> says that the decoder in state \<open>r\<close> is as far as the encoder in
  state \<open>e\<close> and has the octets \<open>bs\<close> before it.
\<close>

definition gob_agree ::
    "('v, 'e) gob_encoder \<Rightarrow> ('v, 't, 'r) gob_decoder \<Rightarrow> ('v gob_val \<Rightarrow> 't) \<Rightarrow> ('e \<Rightarrow> byte list \<Rightarrow> 'r \<Rightarrow> bool) \<Rightarrow> bool" where
  "gob_agree enc dec typ reads \<longleftrightarrow>
     (\<forall>e v bs e' rest r. enc e v = Inr (bs, e') \<longrightarrow> reads e (bs @ rest) r \<longrightarrow>
        (\<exists>r'. dec r (typ v) = Inr (v, r') \<and> reads e' rest r'))"

lemma gob_loops:
  assumes "gob_agree enc dec typ reads" "gob_encode_loop enc n i e vals = (None, out)" "reads e out r"
  shows "gob_decode_loop dec n i r (map typ vals) = (None, vals)"
  using assms(2,3)
proof (induction vals arbitrary: i e out r)
  case (Cons v vals)
  from Cons.prems(1) obtain bs e' out' where enc: "enc e v = Inr (bs, e')"
    "gob_encode_loop enc n (Suc i) e' vals = (None, out')" "out = bs @ out'"
    by (auto split: sum.splits prod.splits)
  with Cons.prems(2) assms(1) obtain r' where "dec r (typ v) = Inr (v, r')" "reads e' out' r'"
    unfolding gob_agree_def by blast
  with Cons.IH [OF enc(2)] show ?case by simp
qed simp

text \<open>
  What \<open>GobEncodeTo\<close> writes without an error, \<open>GobDecodeFrom\<close> reads back: the same values in the same order, when
  the encoder and the decoder for one value agree.
\<close>

theorem gob_round_trip:
  assumes "gob_agree enc dec typ reads" "reads new out (reader out)" "GobEncodeTo enc new vals = (None, out)"
  shows "GobDecode dec reader out (map typ vals) = (None, vals)"
  using gob_loops [OF assms(1)] assms(2,3) by (simp add: GobEncodeTo_def GobDecode_def GobDecodeFrom_def)

text \<open>An encoding of octets and slices with their lengths, for a value of at most 255 octets.\<close>

definition demo_enc :: "(byte list, unit) gob_encoder" where
  "demo_enc e v =
     (case v of
        GobOne bs \<Rightarrow> if length bs < 256 then Inr (word_of_int (int (length bs)) # bs, ()) else Inl ''too long''
      | GobSlice vs \<Rightarrow> Inl ''type not registered for interface'')"

definition demo_dec :: "(byte list, unit, byte list) gob_decoder" where
  "demo_dec r t = (case r of [] \<Rightarrow> Inl ''EOF'' | n # bs \<Rightarrow> Inr (GobOne (take (unat n) bs), drop (unat n) bs))"

lemma demo_agree: "gob_agree demo_enc demo_dec (\<lambda>v. ()) (\<lambda>e bs r. bs = r)"
proof -
  have "unat (word_of_int (int (length bs)) :: byte) = length bs" if "length bs < 256" for bs :: "byte list"
    using that by (simp add: unsigned_of_nat take_bit_nat_eq_self)
  then show ?thesis by (auto simp: gob_agree_def demo_enc_def demo_dec_def split: gob_val.splits if_splits)
qed

theorem gob_round_trip_witness:
  "GobDecode demo_dec id [2, 7, 8, 1, 9] [(), ()] = (None, [GobOne [7, 8], GobOne [9]])"
proof -
  have "GobEncodeTo demo_enc () [GobOne [7, 8], GobOne [9]] = (None, [2, 7, 8, 1, 9])"
    by (simp add: GobEncodeTo_def demo_enc_def)
  from gob_round_trip [OF demo_agree _ this, of id] show ?thesis by simp
qed

text \<open>
  \<open>GobEncode\<close> does not pair with \<open>GobDecode\<close>: it writes one value, the slice of its arguments, whatever their number.
  With an encoder that cannot encode such a slice it always fails.
\<close>

lemma GobEncode_one_value:
  "GobEncode enc new vals =
     (case enc new (GobSlice vals) of Inl e \<Rightarrow> Inl (EncodeError 1 1 e) | Inr (bs, e') \<Rightarrow> Inr bs)"
  by (auto simp: GobEncode_def GobEncodeTo_def split: sum.split)

end
