(* ===== verification/RpcService.thy ===== *)
theory RpcService
  imports RocksServer Codec
begin

text \<open>
  The JSON-RPC service as a client sees it: \<open>HttpRequest\<close> of \<open>jsonrpc/jsonrpc.go\<close> against \<open>HandleHttpRequest\<close> of
  \<open>rocksdb/server.go\<close>, whose reply \<open>codec.WriteString\<close> or \<open>codec.WriteJsonRpcString\<close> writes. The JSON form of requests and
  replies is an argument.
\<close>

section \<open>Messages\<close>


text \<open>
  \<open>wi_request\<close> is what \<open>Encode\<close> leaves in the buffer, \<open>wi_read\<close> is \<open>UnmarshalFrom\<close> into a request that is zero, \<open>wi_reply\<close> and
  \<open>wi_error\<close> are \<open>json.Marshal\<close> of a response and of the object with the text of an error, and \<open>wi_response\<close> is
  \<open>json.Unmarshal\<close> into a response.
\<close>

record 'f rpc_wire =
  wi_request :: "'f rpc_request \<Rightarrow> string"
  wi_read :: "string \<Rightarrow> string + 'f rpc_request"
  wi_reply :: "rpc_reply \<Rightarrow> string + string"
  wi_error :: "string \<Rightarrow> string + string"
  wi_response :: "string \<Rightarrow> 'f rpc_response \<Rightarrow> string + 'f rpc_response"
  wi_other :: "rpc_error \<Rightarrow> string"

text \<open>A response has a method \<open>String\<close>, which gives the error of \<open>json.Marshal\<close> where there is one.\<close>

definition reply_String :: "'f rpc_wire \<Rightarrow> rpc_reply \<Rightarrow> string" where
  "reply_String wire reply = (case wi_reply wire reply of Inl e \<Rightarrow> e | Inr t \<Rightarrow> t)"

text \<open>\<open>Data\<close> has the same octets.\<close>

definition reply_Data :: "'f rpc_wire \<Rightarrow> rpc_reply \<Rightarrow> string" where
  "reply_Data wire reply = reply_String wire reply"





section \<open>What the JSON forms have to promise\<close>








section \<open>A call by what the server does\<close>






section \<open>Properties\<close>













end
