(* ===== verification/HttpAPI.thy ===== *)
theory HttpAPI
  imports HelperSys "HOL-Library.Monad_Syntax"
begin

text \<open>
  \<open>HttpAPI\<close>: the context of a request with its values (\<open>context.go\<close>), the registered APIs and \<open>Do\<close> with
  its error callbacks and retries (\<open>api.go\<close>), and the form values. The functions a user registers, the
  HTTP client and the decoding of a response are arguments over a state \<open>'w\<close> of the world outside. What a
  context value holds is tagged by its type, so that a type assertion that fails is a panic. A callback is
  an identifier that an argument of the model interprets, as a context can hold callbacks.
\<close>

section \<open>Contexts\<close>

datatype 'o ctx_val =
    CString string
  | CInt int
  | CInt64 i64
  | CBool bool
  | CBytes string
  | CForm string
  | CCancel nat
  | CClient nat
  | CCallbacks "nat list"
  | CObject "(rtype, 'o) iface"

record 'o api_ctx =
  ctx_ref :: nat
  ctx_elems :: "string \<rightharpoonup> 'o ctx_val"

definition KeyRequestID :: string where "KeyRequestID = ''__api_request_id''"
definition KeyErrorCallback :: string where "KeyErrorCallback = ''__api_error_callback''"
definition KeyRetryCount :: string where "KeyRetryCount = ''__api_retry_count''"
definition KeyReqObj :: string where "KeyReqObj = ''__api_req_obj''"
definition KeyReqClient :: string where "KeyReqClient = ''__api_req_client''"
definition KeySpent :: string where "KeySpent = ''__api_spent''"
definition KeyDebug :: string where "KeyDebug = ''__api_debug''"
definition KeyDebugResData :: string where "KeyDebugResData = ''__api_debug_response_data''"
definition KeyDebugAPI :: string where "KeyDebugAPI = ''__api_debug_api''"

lemmas ctx_keys = KeyRequestID_def KeyErrorCallback_def KeyRetryCount_def KeyReqObj_def KeyReqClient_def
  KeySpent_def KeyDebug_def KeyDebugResData_def KeyDebugAPI_def

definition DefaultRetryCount :: i64 where "DefaultRetryCount = 1"

definition NewAPIContext :: "nat \<Rightarrow> 'o api_ctx" where
  "NewAPIContext ref = \<lparr>ctx_ref = ref, ctx_elems = Map.empty\<rparr>"

text \<open>\<open>Set\<close> of a nil interface stores an entry, whose value \<open>Get\<close> gives as for a missing key.\<close>

definition ctx_Get :: "'o api_ctx \<Rightarrow> string \<Rightarrow> 'o ctx_val option" where
  "ctx_Get c key = (case ctx_elems c key of Some (CObject None) \<Rightarrow> None | v \<Rightarrow> v)"

definition ctx_Set :: "string \<Rightarrow> 'o ctx_val \<Rightarrow> 'o api_ctx \<Rightarrow> 'o api_ctx" where
  "ctx_Set key val c = c\<lparr>ctx_elems := (ctx_elems c)(key \<mapsto> val)\<rparr>"

definition ctx_Delete :: "string \<Rightarrow> 'o api_ctx \<Rightarrow> 'o api_ctx" where
  "ctx_Delete key c = c\<lparr>ctx_elems := (ctx_elems c)(key := None)\<rparr>"

definition ctx_SetNX :: "string \<Rightarrow> 'o ctx_val \<Rightarrow> 'o api_ctx \<Rightarrow> 'o api_ctx" where
  "ctx_SetNX key val c = (if ctx_elems c key = None then ctx_Set key val c else c)"

text \<open>An addition of Go \<open>int\<close>s wraps at 64 bits.\<close>

definition int_add :: "int \<Rightarrow> int \<Rightarrow> int" where
  "int_add a b = sint (word_of_int (a + b) :: i64)"

definition ctx_Inc :: "string \<Rightarrow> int \<Rightarrow> 'o api_ctx \<Rightarrow> 'o api_ctx outcome" where
  "ctx_Inc key val c =
     (case ctx_elems c key of
        None \<Rightarrow> Returns (ctx_Set key (CInt val) c)
      | Some (CInt n) \<Rightarrow> Returns (ctx_Set key (CInt (int_add val n)) c)
      | Some v \<Rightarrow> Panics)"

definition ctx_GetString :: "'o api_ctx \<Rightarrow> string \<Rightarrow> string \<Rightarrow> string outcome" where
  "ctx_GetString c key dflt =
     (case ctx_Get c key of None \<Rightarrow> Returns dflt | Some (CString s) \<Rightarrow> Returns s | Some v \<Rightarrow> Panics)"

definition ctx_GetInt :: "'o api_ctx \<Rightarrow> string \<Rightarrow> int \<Rightarrow> int outcome" where
  "ctx_GetInt c key dflt =
     (case ctx_Get c key of None \<Rightarrow> Returns dflt | Some (CInt s) \<Rightarrow> Returns s | Some v \<Rightarrow> Panics)"

definition GetRequestID :: "'o api_ctx \<Rightarrow> string outcome" where
  "GetRequestID c = ctx_GetString c KeyRequestID []"

definition SetRequestID :: "string \<Rightarrow> 'o api_ctx \<Rightarrow> 'o api_ctx" where
  "SetRequestID i c = ctx_Set KeyRequestID (CString i) c"

definition EnableAPIDebug :: "'o api_ctx \<Rightarrow> 'o api_ctx" where
  "EnableAPIDebug c = ctx_Set KeyDebug (CBool True) c"

definition IsAPIDebug :: "'o api_ctx \<Rightarrow> bool" where
  "IsAPIDebug c = (ctx_Get c KeyDebug \<noteq> None)"

definition GetRequestObject :: "'o api_ctx \<Rightarrow> (rtype, 'o) iface" where
  "GetRequestObject c = (case ctx_Get c KeyReqObj of Some (CObject x) \<Rightarrow> x | _ \<Rightarrow> None)"

definition SetRequestObject :: "(rtype, 'o) iface \<Rightarrow> 'o api_ctx \<Rightarrow> 'o api_ctx" where
  "SetRequestObject x c = ctx_Set KeyReqObj (CObject x) c"

definition GetRequestClient :: "'o api_ctx \<Rightarrow> nat option" where
  "GetRequestClient c = (case ctx_Get c KeyReqClient of Some (CClient k) \<Rightarrow> Some k | _ \<Rightarrow> None)"

definition SetRequestClient :: "nat \<Rightarrow> 'o api_ctx \<Rightarrow> 'o api_ctx" where
  "SetRequestClient k c = ctx_Set KeyReqClient (CClient k) c"

definition GetErrorCallback :: "'o api_ctx \<Rightarrow> nat list outcome" where
  "GetErrorCallback c =
     (case ctx_Get c KeyErrorCallback of None \<Rightarrow> Returns [] | Some (CCallbacks cbs) \<Rightarrow> Returns cbs | Some v \<Rightarrow> Panics)"

definition SetErrorCallback :: "nat list \<Rightarrow> 'o api_ctx \<Rightarrow> 'o api_ctx" where
  "SetErrorCallback cbs c = ctx_Set KeyErrorCallback (CCallbacks cbs) c"

definition GetRetryCount :: "'o api_ctx \<Rightarrow> i64" where
  "GetRetryCount c = (case ctx_Get c KeyRetryCount of Some (CInt64 n) \<Rightarrow> n | _ \<Rightarrow> DefaultRetryCount)"

definition SetRetryCount :: "i64 \<Rightarrow> 'o api_ctx \<Rightarrow> 'o api_ctx" where
  "SetRetryCount n c = ctx_Set KeyRetryCount (CInt64 n) c"

definition GetLastAPIResponse :: "'o api_ctx \<Rightarrow> string option outcome" where
  "GetLastAPIResponse c =
     (if ctx_Get c KeyDebug = None then Returns None
      else case ctx_Get c KeyDebugResData of None \<Rightarrow> Returns None | Some (CBytes d) \<Rightarrow> Returns (Some d) | Some v \<Rightarrow> Panics)"

definition KeyCancelFunc :: string where "KeyCancelFunc = ''__api_cancel_func''"
definition KeyRequestDesc :: string where "KeyRequestDesc = ''__api_request_desc''"
definition KeyRequestPath :: string where "KeyRequestPath = ''__api_request_path''"
definition KeyRequestForm :: string where "KeyRequestForm = ''__api_request_form''"

definition GetRequestPath :: "'o api_ctx \<Rightarrow> string outcome" where
  "GetRequestPath c = ctx_GetString c KeyRequestPath []"

definition SetRequestDesc :: "string \<Rightarrow> 'o api_ctx \<Rightarrow> 'o api_ctx" where
  "SetRequestDesc desc c = ctx_Set KeyRequestDesc (CString desc) c"

definition GetRequestDesc :: "'o api_ctx \<Rightarrow> string outcome" where
  "GetRequestDesc c = ctx_GetString c KeyRequestDesc []"

definition GetRequestForm :: "'o api_ctx \<Rightarrow> string option outcome" where
  "GetRequestForm c =
     (case ctx_Get c KeyRequestForm of None \<Rightarrow> Returns None | Some (CForm d) \<Rightarrow> Returns (Some d) | Some v \<Rightarrow> Panics)"

text \<open>A function that cancels is known by a number.\<close>

definition SetCancelFunc :: "nat \<Rightarrow> 'o api_ctx \<Rightarrow> 'o api_ctx" where
  "SetCancelFunc f c = ctx_Set KeyCancelFunc (CCancel f) c"

definition GetCancelFunc :: "'o api_ctx \<Rightarrow> nat option outcome" where
  "GetCancelFunc c =
     (case ctx_Get c KeyCancelFunc of None \<Rightarrow> Returns None | Some (CCancel f) \<Rightarrow> Returns (Some f) | Some v \<Rightarrow> Panics)"

definition NewAPIContextCancelable :: "nat \<Rightarrow> nat \<Rightarrow> 'o api_ctx \<times> nat" where
  "NewAPIContextCancelable ref cancel = (SetCancelFunc cancel (NewAPIContext ref), cancel)"

text \<open>From a request: its form values by key, its path, and the JSON text of the form.\<close>

definition NewAPIContextCancelableWith :: "nat \<Rightarrow> nat \<Rightarrow> (string \<Rightarrow> string) \<Rightarrow> string \<Rightarrow> string \<Rightarrow> 'o api_ctx \<times> nat" where
  "NewAPIContextCancelableWith ref cancelFn form path formJson =
     (case NewAPIContextCancelable ref cancelFn of
        (c, cancel) \<Rightarrow>
          (let requestID = form KeyRequestID;
               c = (if length requestID > 0 then SetRequestID requestID c else c);
               c = (if length (form KeyDebug) > 0 then EnableAPIDebug c else c);
               c = ctx_Set KeyRequestPath (CString path) c;
               c = ctx_Set KeyRequestForm (CForm formJson) c
           in (c, cancel)))"

text \<open>\<open>NewRequestClient\<close>: a client has a timeout and, with a proxy whose URL can be parsed, a transport.\<close>

record request_client =
  cl_Timeout :: i64
  cl_Proxy :: "string option"

definition NewRequestClient :: "(string \<Rightarrow> string option) \<Rightarrow> i64 \<Rightarrow> string \<Rightarrow> string + request_client" where
  "NewRequestClient url_error timeout proxy =
     (if length proxy > 0 then
        (case url_error proxy of
           Some e \<Rightarrow> Inl e
         | None \<Rightarrow> Inr \<lparr>cl_Timeout = timeout, cl_Proxy = Some proxy\<rparr>)
      else Inr \<lparr>cl_Timeout = timeout, cl_Proxy = None\<rparr>)"

definition DefaultClient :: "string + request_client" where
  "DefaultClient = NewRequestClient (\<lambda>p. None) 10000000000 []"

lemma request_context_values:
  "GetRequestPath (fst (NewAPIContextCancelableWith ref k form path js)) = Returns path
   \<and> GetRequestForm (fst (NewAPIContextCancelableWith ref k form path js)) = Returns (Some js)
   \<and> GetRequestID (fst (NewAPIContextCancelableWith ref k form path js)) = Returns (form KeyRequestID)
   \<and> GetCancelFunc (fst (NewAPIContextCancelableWith ref k form path js)) = Returns (Some k)
   \<and> IsAPIDebug (fst (NewAPIContextCancelableWith ref k form path js)) = (form KeyDebug \<noteq> [])"
  by (simp add: NewAPIContextCancelableWith_def NewAPIContextCancelable_def Let_def GetRequestPath_def GetRequestForm_def
      GetRequestID_def GetCancelFunc_def IsAPIDebug_def ctx_GetString_def ctx_Get_def ctx_Set_def SetRequestID_def
      EnableAPIDebug_def SetCancelFunc_def NewAPIContext_def ctx_keys KeyCancelFunc_def KeyRequestPath_def KeyRequestForm_def)

section \<open>Registered APIs\<close>

datatype api_error =
    BadResponseType "rtype option" | BadRequestType rtype | AlreadyRegistered string | NotRegistered string
  | InvalidRequest vst_error | RequestFailed string | ClientFailed string | UnmarshalFailed rtype string | CheckFailed string

datatype cb_result = CbAbort | CbRetry | CbContinue

text \<open>
  What a user and the world outside provide: making the request, sending it, decoding the body, checking
  the response, the callbacks, the identifier a request without one gets, and the time spent. Decoding takes
  the whole body when debugging, and its first value otherwise.
\<close>

record ('o, 'q, 'w) api =
  api_RequestObjectType :: "rtype option"
  api_ResponseObjectType :: rtype
  api_ReqF :: "'o api_ctx \<Rightarrow> 'w \<Rightarrow> (string + 'q) \<times> 'o api_ctx \<times> 'w"
  api_ResCheckF :: "('o api_ctx \<Rightarrow> 'o \<Rightarrow> 'w \<Rightarrow> string option \<times> 'o api_ctx \<times> 'w) option"
  api_Name :: string

record ('o, 'q, 'w) api_env =
  ae_client :: "nat option \<Rightarrow> 'q \<Rightarrow> 'o api_ctx \<Rightarrow> 'w \<Rightarrow> (string + string) \<times> 'w"
  ae_decode :: "bool \<Rightarrow> rtype \<Rightarrow> string \<Rightarrow> string + 'o"
  ae_callback :: "nat \<Rightarrow> 'o api_ctx \<Rightarrow> api_error \<Rightarrow> 'w \<Rightarrow> cb_result \<times> 'o api_ctx \<times> 'w"
  ae_new_id :: "string \<Rightarrow> nat \<Rightarrow> 'w \<Rightarrow> string"
  ae_spent :: "'w \<Rightarrow> i64"

text \<open>
  The types are passed to \<open>ValidStructType\<close> as \<open>reflect.Type\<close> values, whose dynamic type is a pointer to a
  struct of package \<open>reflect\<close>.
\<close>

definition type_value :: "rtype \<Rightarrow> (rtype, rtype) iface" where
  "type_value t = Some (RPtr (RStruct ''reflect.rtype''), t)"

definition RegisterAPI ::
    "string \<Rightarrow> ('o api_ctx \<Rightarrow> 'w \<Rightarrow> (string + 'q) \<times> 'o api_ctx \<times> 'w) \<Rightarrow>
     ('o api_ctx \<Rightarrow> 'o \<Rightarrow> 'w \<Rightarrow> string option \<times> 'o api_ctx \<times> 'w) option \<Rightarrow> rtype option \<Rightarrow> rtype option \<Rightarrow>
     (string \<rightharpoonup> ('o, 'q, 'w) api) \<Rightarrow> (api_error + ('o, 'q, 'w) api) \<times> (string \<rightharpoonup> ('o, 'q, 'w) api)" where
  "RegisterAPI name f resCheckF reqType responseType apis =
     (case responseType of
        None \<Rightarrow> (Inl (BadResponseType None), apis)
      | Some rt \<Rightarrow>
          if ValidStructType (type_value rt) None 1 \<noteq> None then (Inl (BadResponseType (Some rt)), apis)
          else if (case reqType of None \<Rightarrow> False | Some qt \<Rightarrow> ValidStructType (type_value qt) None 1 \<noteq> None)
          then (Inl (BadRequestType (the reqType)), apis)
          else
            (case apis name of
               Some a \<Rightarrow> (Inl (AlreadyRegistered name), apis)
             | None \<Rightarrow>
                 let a = \<lparr>api_RequestObjectType = reqType, api_ResponseObjectType = rt, api_ReqF = f,
                   api_ResCheckF = resCheckF, api_Name = name\<rparr>
                 in (Inr a, apis(name \<mapsto> a))))"

definition GetAPI :: "(string \<rightharpoonup> ('o, 'q, 'w) api) \<Rightarrow> string \<Rightarrow> ('o, 'q, 'w) api option" where
  "GetAPI apis name = apis name"

section \<open>One attempt\<close>

text \<open>The state of a call: its context, the ongoing requests by identifier, and the world outside.\<close>

type_synonym ('o, 'w) api_state = "'o api_ctx \<times> (string \<rightharpoonup> nat) \<times> 'w"

definition preDo :: "('o, 'q, 'w) api_env \<Rightarrow> ('o, 'q, 'w) api \<Rightarrow> ('o, 'w) api_state \<Rightarrow> ('o, 'w) api_state outcome" where
  "preDo en api st =
     (case st of (c, ongoing, w) \<Rightarrow>
        bind_outcome (GetRequestID c) (\<lambda>i.
          let reqID = (if i = [] then ae_new_id en (api_Name api) (ctx_ref c) w else i)
          in Returns (SetRequestID reqID c, ongoing(reqID \<mapsto> ctx_ref c), w)))"

definition postDo :: "('o, 'w) api_state \<Rightarrow> ('o, 'w) api_state outcome" where
  "postDo st =
     (case st of (c, ongoing, w) \<Rightarrow>
        bind_outcome (GetRequestID c) (\<lambda>i. Returns (c, ongoing(i := None), w)))"

fun strip_ptr :: "rtype \<Rightarrow> rtype" where
  "strip_ptr (RPtr t) = t"
| "strip_ptr t = t"

text \<open>What follows the reply: the debug data, decoding, and the check of the response.\<close>

definition on_reply ::
    "('o, 'q, 'w) api_env \<Rightarrow> ('o, 'q, 'w) api \<Rightarrow> string \<Rightarrow> 'o api_ctx \<Rightarrow> 'w \<Rightarrow> (api_error + 'o) \<times> 'o api_ctx \<times> 'w" where
  "on_reply en api body c w =
     (let c = ctx_Set KeySpent (CInt64 (ae_spent en w)) c;
          t = strip_ptr (api_ResponseObjectType api);
          c = (if IsAPIDebug c
               then ctx_Set KeyDebugResData (CBytes body) (ctx_Set KeyDebugAPI (CString (api_Name api)) c) else c)
      in case ae_decode en (IsAPIDebug c) t body of
           Inl err \<Rightarrow> (Inl (UnmarshalFailed t err), c, w)
         | Inr v \<Rightarrow>
             (case api_ResCheckF api of
                None \<Rightarrow> (Inr v, c, w)
              | Some check \<Rightarrow>
                  (case check c v w of
                     (Some err, c', w') \<Rightarrow> (Inl (CheckFailed err), c', w')
                   | (None, c', w') \<Rightarrow> (Inr v, c', w'))))"

definition api_do ::
    "('o, 'q, 'w) api_env \<Rightarrow> ('o, 'q, 'w) api \<Rightarrow> ('o, 'w) api_state \<Rightarrow>
     ((api_error + 'o) \<times> ('o, 'w) api_state) outcome" where
  "api_do en api st =
     (case st of (c, ongoing, w) \<Rightarrow>
        let client = GetRequestClient c in
        (case api_ReqF api c w of
           (Inl err, c, w) \<Rightarrow> Returns (Inl (RequestFailed err), c, ongoing, w)
         | (Inr req, c, w) \<Rightarrow>
             bind_outcome (preDo en api (c, ongoing, w)) (\<lambda>(c, ongoing, w).
               case (case ae_client en client req c w of
                       (Inl err, w) \<Rightarrow> (Inl (ClientFailed err), c, w)
                     | (Inr body, w) \<Rightarrow> on_reply en api body c w) of
                 (res, c, w) \<Rightarrow>
                   bind_outcome (postDo (c, ongoing, w)) (\<lambda>st'. Returns (res, st')))))"

section \<open>Error callbacks and retries\<close>

text \<open>The callbacks in order, until one aborts or asks to retry; without either the call fails.\<close>

fun run_callbacks :: "('o, 'q, 'w) api_env \<Rightarrow> api_error \<Rightarrow> nat list \<Rightarrow> 'o api_ctx \<Rightarrow> 'w \<Rightarrow> cb_result \<times> 'o api_ctx \<times> 'w" where
  "run_callbacks en err [] c w = (CbContinue, c, w)"
| "run_callbacks en err (cb # cbs) c w =
     (case ae_callback en cb c err w of
        (CbContinue, c', w') \<Rightarrow> run_callbacks en err cbs c' w'
      | (r, c', w') \<Rightarrow> (r, c', w'))"

text \<open>The loop of \<open>Do\<close>; \<open>tried\<close> is what the counter was before the attempt. It may go on for ever.\<close>

partial_function (option) do_loop ::
    "('o, 'q, 'w) api_env \<Rightarrow> ('o, 'q, 'w) api \<Rightarrow> (rtype, 'o) iface \<Rightarrow> i64 \<Rightarrow> i64 \<Rightarrow> ('o, 'w) api_state \<Rightarrow>
     ((api_error + 'o) \<times> ('o, 'w) api_state) outcome option" where
  "do_loop en api reqObj maxRetry tried st =
     (case api_do en api st of
        Panics \<Rightarrow> Some Panics
      | Returns (Inr v, st') \<Rightarrow> Some (Returns (Inr v, st'))
      | Returns (Inl err, (c, ongoing, w)) \<Rightarrow>
          (case GetErrorCallback c of
             Panics \<Rightarrow> Some Panics
           | Returns cbs \<Rightarrow>
               (case run_callbacks en err cbs c w of
                  (r, c', w') \<Rightarrow>
                    if r \<noteq> CbRetry \<or> maxRetry <s tried + 1 then Some (Returns (Inl err, c', ongoing, w'))
                    else do_loop en api reqObj maxRetry (tried + 1) (SetRequestObject reqObj c', ongoing, w'))))"

definition api_Do ::
    "('o, 'q, 'w) api_env \<Rightarrow> ('o, 'q, 'w) api \<Rightarrow> ('o, 'w) api_state \<Rightarrow>
     ((api_error + 'o) \<times> ('o, 'w) api_state) outcome option" where
  "api_Do en api st =
     (let reqObj = GetRequestObject (fst st) in
      case (case api_RequestObjectType api of None \<Rightarrow> None | Some t \<Rightarrow> ValidStructType reqObj (Some t) 1) of
        Some e \<Rightarrow> Some (Returns (Inl (InvalidRequest e), st))
      | None \<Rightarrow> do_loop en api reqObj (GetRetryCount (fst st)) 0 st)"

text \<open>\<open>fresh\<close> is the reference of the context that is made when none is given.\<close>

definition DoAPI ::
    "('o, 'q, 'w) api_env \<Rightarrow> (string \<rightharpoonup> ('o, 'q, 'w) api) \<Rightarrow> nat \<Rightarrow> 'o api_ctx option \<Rightarrow> string \<Rightarrow> (rtype, 'o) iface \<Rightarrow>
     (string \<rightharpoonup> nat) \<Rightarrow> 'w \<Rightarrow> ((api_error + 'o) \<times> ('o, 'w) api_state) outcome option" where
  "DoAPI en apis fresh ctx name reqObj ongoing w =
     (let c = (case ctx of None \<Rightarrow> NewAPIContext fresh | Some c \<Rightarrow> c) in
      case GetAPI apis name of
        None \<Rightarrow> Some (Returns (Inl (NotRegistered name), c, ongoing, w))
      | Some api \<Rightarrow> api_Do en api (SetRequestObject reqObj c, ongoing, w))"

definition ErrCallbackDisableRetry :: cb_result where "ErrCallbackDisableRetry = CbAbort"

section \<open>Form values\<close>

text \<open>\<open>form\<close> is \<open>req.FormValue\<close>, the empty string for a missing key; letters are ASCII.\<close>

definition lower_char :: "char \<Rightarrow> char" where
  "lower_char c = (let n = of_char c :: nat in if 65 \<le> n \<and> n \<le> 90 then char_of (n + 32) else c)"

definition GetBooleanFormValue :: "(string \<Rightarrow> string) \<Rightarrow> string \<Rightarrow> bool \<Rightarrow> bool" where
  "GetBooleanFormValue form key dflt =
     (let str = form key in
      if str = [] \<or> length str > 5 then dflt
      else
        let low = map lower_char str in
        if low = ''false'' then False else if low = ''true'' then True else dflt)"

definition GetStringFormValue :: "(string \<Rightarrow> string) \<Rightarrow> string \<Rightarrow> string \<Rightarrow> string" where
  "GetStringFormValue form key dflt = (if form key = [] then dflt else form key)"

definition GetInt64FormValue :: "(string \<Rightarrow> string) \<Rightarrow> string \<Rightarrow> i64 \<Rightarrow> i64" where
  "GetInt64FormValue form key dflt =
     (if form key = [] then dflt
      else case ParseInt (form key) of Inl e \<Rightarrow> dflt | Inr v \<Rightarrow> word_of_int v)"

definition SplitRequestPath :: "string \<Rightarrow> string list" where
  "SplitRequestPath path = str_split (str_trim {CHR ''/''} path) ''/''"

section \<open>Properties\<close>

text \<open>The retries as a recursion on their number, as a reference for the loop.\<close>

fun do_tries ::
    "('o, 'q, 'w) api_env \<Rightarrow> ('o, 'q, 'w) api \<Rightarrow> (rtype, 'o) iface \<Rightarrow> nat \<Rightarrow> ('o, 'w) api_state \<Rightarrow>
     ((api_error + 'o) \<times> ('o, 'w) api_state) outcome" where
  "do_tries en api reqObj n st =
     (case api_do en api st of
        Returns (Inl err, (c, ongoing, w)) \<Rightarrow>
          bind_outcome (GetErrorCallback c) (\<lambda>cbs.
            case run_callbacks en err cbs c w of
              (r, c', w') \<Rightarrow>
                (case (r, n) of
                   (CbRetry, Suc m) \<Rightarrow> do_tries en api reqObj m (SetRequestObject reqObj c', ongoing, w')
                 | _ \<Rightarrow> Returns (Inl err, c', ongoing, w')))
      | r \<Rightarrow> r)"

declare do_tries.simps [simp del]

lemma sint_Suc: "sint (t :: i64) < 2 ^ 63 - 1 \<Longrightarrow> sint (t + 1) = sint t + 1"
  using signed_take_bit_int_eq_self [of 63 "sint t + 1"] sint_greater_eq [of t]
  by (simp add: sint_word_ariths)

lemma do_loop_tries:
  assumes "sint maxRetry < 2 ^ 63 - 1" "sint tried \<le> sint maxRetry \<or> sint tried < 1" "0 \<le> sint tried"
  shows "do_loop en api reqObj maxRetry tried st = Some (do_tries en api reqObj (nat (sint maxRetry - sint tried)) st)"
  using assms(2,3)
proof (induction "nat (sint maxRetry - sint tried)" arbitrary: tried st)
  case 0
  have "sint tried < 2 ^ 63 - 1" using 0 assms(1) by auto
  with 0 have "maxRetry <s tried + 1" "nat (sint maxRetry - sint tried) = 0"
    by (simp_all add: word_sless_alt sint_Suc)
  then show ?case
    by (subst do_loop.simps, subst do_tries.simps)
      (auto split: outcome.splits sum.splits prod.splits cb_result.splits)
next
  case (Suc n)
  then have next_try: "\<not> maxRetry <s tried + 1" "sint (tried + 1) = sint tried + 1" "nat (sint maxRetry - sint tried) = Suc n"
    "n = nat (sint maxRetry - sint (tried + 1))" "sint (tried + 1) \<le> sint maxRetry"
    using assms(1) by (simp_all add: word_sless_alt sint_Suc)
  then have IH: "do_loop en api reqObj maxRetry (tried + 1) st' = Some (do_tries en api reqObj n st')" for st'
    using Suc.hyps(1) [of "tried + 1" st'] Suc.prems by simp
  show ?case
    by (subst do_loop.simps, subst do_tries.simps)
      (auto simp: IH next_try(1,3) split: outcome.splits sum.splits prod.splits cb_result.splits)
qed

text \<open>
  C8. \<open>Do\<close> of a valid request returns when the retry count is below the largest \<open>int64\<close>: it makes an
  attempt and, while an error callback asks for it, at most as many retries as the count says, each with
  the request object the call was made with; a count that is not positive allows none.
\<close>

theorem api_Do_refines:
  assumes "sint (GetRetryCount c) < 2 ^ 63 - 1"
    and "case api_RequestObjectType api of None \<Rightarrow> True | Some t \<Rightarrow> ValidStructType (GetRequestObject c) (Some t) 1 = None"
  shows "api_Do en api (c, ongoing, w) =
    Some (do_tries en api (GetRequestObject c) (nat (sint (GetRetryCount c))) (c, ongoing, w))"
  using assms do_loop_tries [of "GetRetryCount c" 0 en api "GetRequestObject c"]
  by (simp add: api_Do_def split: option.splits)

text \<open>A call that asks to retry, in an environment that fails once and then answers: its state counts the attempts.\<close>

definition demo_api :: "(string, unit, nat) api" where
  "demo_api = \<lparr>api_RequestObjectType = None, api_ResponseObjectType = RPtr (RStruct ''T''),
     api_ReqF = (\<lambda>c w. (Inr (), c, w + 1)), api_ResCheckF = None, api_Name = ''demo''\<rparr>"

definition demo_api_env :: "(string, unit, nat) api_env" where
  "demo_api_env = \<lparr>ae_client = (\<lambda>k q c w. (if w \<le> 1 then Inl ''refused'' else Inr ''{}'', w)), ae_decode = (\<lambda>d t b. Inr b),
     ae_callback = (\<lambda>k c e w. (CbRetry, c, w)), ae_new_id = (\<lambda>n r w. ''id''), ae_spent = (\<lambda>w. 0)\<rparr>"

definition demo_ctx :: "string api_ctx" where
  "demo_ctx = SetErrorCallback [0] (SetRetryCount 3 (SetRequestID ''r'' (NewAPIContext 7)))"

lemma demo_GetRetryCount: "GetRetryCount demo_ctx = 3"
  by (simp add: demo_ctx_def GetRetryCount_def SetErrorCallback_def SetRetryCount_def ctx_Set_def ctx_Get_def ctx_keys)

lemma demo_tries:
  "\<exists>c. do_tries demo_api_env demo_api (GetRequestObject demo_ctx) (nat (sint (GetRetryCount demo_ctx))) (demo_ctx, Map.empty, 0) =
      Returns (Inr ''{}'', c, Map.empty, 2)"
proof -
  have n: "nat (sint (GetRetryCount demo_ctx)) = Suc (Suc (Suc 0))" by (simp add: demo_GetRetryCount)
  show ?thesis unfolding n
    by (simp add: do_tries.simps api_do_def demo_api_def demo_api_env_def preDo_def postDo_def on_reply_def
        GetRequestID_def ctx_GetString_def demo_ctx_def SetErrorCallback_def SetRetryCount_def SetRequestID_def NewAPIContext_def
        GetErrorCallback_def SetRequestObject_def ctx_Set_def ctx_Get_def ctx_keys Let_def GetRequestObject_def IsAPIDebug_def)
qed

lemma demo_run: "\<exists>c. api_Do demo_api_env demo_api (demo_ctx, Map.empty, 0) = Some (Returns (Inr ''{}'', c, Map.empty, 2))"
  using demo_tries do_loop_tries [of "GetRetryCount demo_ctx" 0 demo_api_env demo_api "GetRequestObject demo_ctx"]
  by (simp add: api_Do_def demo_api_def demo_GetRetryCount)

theorem api_Do_refines_witness:
  "\<exists>c. api_Do demo_api_env demo_api (demo_ctx, Map.empty, 0) = Some (Returns (Inr ''{}'', c, Map.empty, 2))"
  using demo_tries api_Do_refines [of demo_ctx demo_api demo_api_env Map.empty 0]
  by (simp add: demo_GetRetryCount demo_api_def)

text \<open>What an attempt establishes and callbacks keep holds at the end, for one of the possible numbers of attempts.\<close>

lemma run_callbacks_inv:
  assumes "\<And>k c w e r c' w'. P c w \<Longrightarrow> ae_callback en k c e w = (r, c', w') \<Longrightarrow> P c' w'"
    and "P c w" "run_callbacks en err cbs c w = (r, c', w')"
  shows "P c' w'"
  using assms(2,3)
proof (induction cbs arbitrary: c w)
  case (Cons cb cbs)
  obtain q d v where q: "ae_callback en cb c err w = (q, d, v)" by (rule prod_cases3)
  from assms(1) [OF Cons.prems(1) q] Cons.IH [of d v] Cons.prems(2) q show ?case by (cases q) auto
qed simp

lemma do_tries_inv:
  assumes attempt: "\<And>k c on w res c' on' w'. P k c on w \<Longrightarrow> api_do en api (c, on, w) = Returns (res, c', on', w') \<Longrightarrow> P (Suc k) c' on' w'"
    and callback: "\<And>k cb c on w e r c' w'. P k c on w \<Longrightarrow> ae_callback en cb c e w = (r, c', w') \<Longrightarrow> P k c' on w'"
    and again: "\<And>k c on w. P k c on w \<Longrightarrow> P k (SetRequestObject reqObj c) on w"
    and "P k c on w" "do_tries en api reqObj n (c, on, w) = Returns (res, c', on', w')"
  shows "\<exists>j \<le> k + n + 1. P j c' on' w'"
  using assms(4,5)
proof (induction n arbitrary: k c on w)
  case 0
  obtain r0 d0 on0 w0 where a: "api_do en api (c, on, w) = Returns (r0, d0, on0, w0)"
    using "0.prems"(2) by (subst (asm) do_tries.simps) (auto split: outcome.splits)
  note P0 = attempt [OF "0.prems"(1) a]
  show ?case
  proof (cases r0)
    case (Inr v)
    with a "0.prems"(2) P0 show ?thesis by (subst (asm) do_tries.simps) auto
  next
    case (Inl err)
    with a "0.prems"(2) obtain cbs r d v where "GetErrorCallback d0 = Returns cbs"
      and cb: "run_callbacks en err cbs d0 w0 = (r, d, v)" and "(c', on', w') = (d, on0, v)"
      by (subst (asm) do_tries.simps)
        (cases "GetErrorCallback d0", auto split: prod.splits cb_result.splits)
    with run_callbacks_inv [of "\<lambda>c w. P (Suc k) c on0 w", OF callback P0 cb] show ?thesis by auto
  qed
next
  case (Suc n)
  obtain r0 d0 on0 w0 where a: "api_do en api (c, on, w) = Returns (r0, d0, on0, w0)"
    using Suc.prems(2) by (subst (asm) do_tries.simps) (auto split: outcome.splits)
  note P0 = attempt [OF Suc.prems(1) a]
  show ?case
  proof (cases r0)
    case (Inr v)
    with a Suc.prems(2) P0 show ?thesis by (subst (asm) do_tries.simps) (auto intro!: exI [of _ "Suc k"])
  next
    case (Inl err)
    with a Suc.prems(2) obtain cbs r d v where g: "GetErrorCallback d0 = Returns cbs"
      and cb: "run_callbacks en err cbs d0 w0 = (r, d, v)"
      by (subst (asm) do_tries.simps) (cases "GetErrorCallback d0", auto split: prod.splits)
    note P1 = run_callbacks_inv [of "\<lambda>c w. P (Suc k) c on0 w", OF callback P0 cb]
    show ?thesis
    proof (cases "r = CbRetry")
      case True
      with a Inl g cb Suc.prems(2) have "do_tries en api reqObj n (SetRequestObject reqObj d, on0, v) = Returns (res, c', on', w')"
        by (subst (asm) do_tries.simps) simp
      from Suc.IH [OF again [OF P1] this] show ?thesis by simp
    next
      case False
      with a Inl g cb Suc.prems(2) have "(c', on', w') = (d, on0, v)"
        by (subst (asm) do_tries.simps) (auto split: cb_result.splits)
      with P1 show ?thesis by (auto intro!: exI [of _ "Suc k"])
    qed
  qed
qed

lemma api_Do_inv:
  assumes "sint (GetRetryCount c) < 2 ^ 63 - 1" "api_Do en api (c, on, w) = Some (Returns (res, c', on', w'))"
    and "\<And>k c on w res c' on' w'. P k c on w \<Longrightarrow> api_do en api (c, on, w) = Returns (res, c', on', w') \<Longrightarrow> P (Suc k) c' on' w'"
    and "\<And>k cb c on w e r c' w'. P k c on w \<Longrightarrow> ae_callback en cb c e w = (r, c', w') \<Longrightarrow> P k c' on w'"
    and "\<And>k c on w. P k c on w \<Longrightarrow> P k (SetRequestObject (GetRequestObject c0) c) on w"
    and "P 0 c on w" "c0 = c"
  shows "\<exists>j \<le> nat (sint (GetRetryCount c)) + 1. P j c' on' w'"
proof (cases "case api_RequestObjectType api of None \<Rightarrow> None | Some t \<Rightarrow> ValidStructType (GetRequestObject c) (Some t) 1")
  case None
  then have "do_tries en api (GetRequestObject c) (nat (sint (GetRetryCount c))) (c, on, w) = Returns (res, c', on', w')"
    using assms(1,2) do_loop_tries [of "GetRetryCount c" 0 en api "GetRequestObject c"] by (simp add: api_Do_def)
  from do_tries_inv [of P, OF assms(3,4) _ assms(6) this] assms(5,7) show ?thesis by auto
next
  case (Some e)
  with assms(2,6) show ?thesis by (auto simp: api_Do_def)
qed

text \<open>What one attempt does to the world outside, and to the identifier and the table.\<close>

lemma api_do_cases:
  assumes "api_do en api (c, ongoing, w) = Returns (res, c', ongoing', w')"
  obtains (no_request) err where "api_ReqF api c w = (Inl err, c', w')" "ongoing' = ongoing"
  | (sent) req c1 w1 i w2 reply c2 i' where "api_ReqF api c w = (Inr req, c1, w1)" "GetRequestID c1 = Returns i"
      "ae_client en (GetRequestClient c) req c2 w1 = (reply, w2)"
      "c2 = SetRequestID (if i = [] then ae_new_id en (api_Name api) (ctx_ref c1) w1 else i) c1"
      "(case reply of Inl err \<Rightarrow> (Inl (ClientFailed err), c2, w2) | Inr body \<Rightarrow> on_reply en api body c2 w2) = (res, c', w')"
      "GetRequestID c' = Returns i'"
      "ongoing' = ongoing((if i = [] then ae_new_id en (api_Name api) (ctx_ref c1) w1 else i) \<mapsto> ctx_ref c1, i' := None)"
proof -
  obtain r c1 w1 where f: "api_ReqF api c w = (r, c1, w1)" by (rule prod_cases3)
  show thesis
  proof (cases r)
    case (Inl err)
    with f assms no_request [of err] show ?thesis by (simp add: api_do_def Let_def)
  next
    case (Inr req)
    from f Inr assms obtain i where i: "GetRequestID c1 = Returns i"
      by (cases "GetRequestID c1") (auto simp: api_do_def preDo_def Let_def)
    define j where "j = (if i = [] then ae_new_id en (api_Name api) (ctx_ref c1) w1 else i)"
    define c2 where "c2 = SetRequestID j c1"
    obtain reply w2 where cl: "ae_client en (GetRequestClient c) req c2 w1 = (reply, w2)" by fastforce
    obtain q d v where q: "(case reply of Inl err \<Rightarrow> (Inl (ClientFailed err), c2, w2) | Inr body \<Rightarrow> on_reply en api body c2 w2) = (q, d, v)"
      by (rule prod_cases3)
    have "bind_outcome (postDo (d, ongoing(j \<mapsto> ctx_ref c1), v)) (\<lambda>st'. Returns (q, st')) = Returns (res, c', ongoing', w')"
      using assms q cl unfolding api_do_def c2_def j_def
      by (cases reply) (simp_all add: f Inr preDo_def i Let_def)
    then obtain i' where "GetRequestID d = Returns i'" "q = res" "c' = d" "w' = v" "ongoing' = ongoing(j \<mapsto> ctx_ref c1, i' := None)"
      by (cases "GetRequestID d") (auto simp: postDo_def)
    with sent [OF f [unfolded Inr] i cl] q show ?thesis by (simp add: j_def c2_def)
  qed
qed

lemma api_do_count:
  assumes "api_do en api (c, ongoing, w) = Returns (res, c', ongoing', w')"
    and "\<And>c w. cnt (snd (snd (api_ReqF api c w))) \<le> cnt w + 1"
    and "\<And>k q c w. cnt (snd (ae_client en k q c w)) \<le> cnt w"
    and "\<And>f c v w. api_ResCheckF api = Some f \<Longrightarrow> cnt (snd (snd (f c v w))) \<le> cnt w"
  shows "cnt w' \<le> cnt w + (1 :: nat)"
  using assms(1)
proof (cases rule: api_do_cases)
  case (no_request err)
  with assms(2) [of c w] show ?thesis by simp
next
  case (sent req c1 w1 i w2 reply c2 i')
  have "cnt w1 \<le> cnt w + 1" using assms(2) [of c w] sent(1) by simp
  moreover have "cnt w2 \<le> cnt w1" using assms(3) [of "GetRequestClient c" req c2 w1] sent(3) by simp
  moreover have "cnt w' \<le> cnt w2"
    using sent(5) by (auto simp: on_reply_def Let_def split: sum.splits option.splits prod.splits) (metis assms(4) snd_conv)+
  ultimately show ?thesis by simp
qed

lemma GetRequestID_elem: "ctx_elems c KeyRequestID = Some (CString i) \<Longrightarrow> GetRequestID c = Returns i"
  by (simp add: GetRequestID_def ctx_GetString_def ctx_Get_def)

lemma ctx_Set_elems: "ctx_elems (ctx_Set k v c) = (ctx_elems c)(k \<mapsto> v)"
  by (simp add: ctx_Set_def)

lemma on_reply_identifier:
  assumes "\<forall>f c v w. api_ResCheckF api = Some f \<longrightarrow> ctx_elems (fst (snd (f c v w))) KeyRequestID = ctx_elems c KeyRequestID"
    and "on_reply en api body c w = (res, c', w')"
  shows "ctx_elems c' KeyRequestID = ctx_elems c KeyRequestID"
proof -
  define d where "d = (let c = ctx_Set KeySpent (CInt64 (ae_spent en w)) c
    in if IsAPIDebug c then ctx_Set KeyDebugResData (CBytes body) (ctx_Set KeyDebugAPI (CString (api_Name api)) c) else c)"
  have "ctx_elems d KeyRequestID = ctx_elems c KeyRequestID" by (simp add: d_def Let_def ctx_Set_elems ctx_keys)
  moreover have "ctx_elems c' KeyRequestID = ctx_elems d KeyRequestID"
  proof (cases "api_ResCheckF api")
    case None
    with assms(2) show ?thesis unfolding on_reply_def d_def Let_def by (auto split: sum.splits)
  next
    case (Some f)
    show ?thesis
    proof (cases "ae_decode en (IsAPIDebug d) (strip_ptr (api_ResponseObjectType api)) body")
      case (Inl e)
      with assms(2) show ?thesis by (simp add: on_reply_def flip: d_def [unfolded Let_def])
    next
      case (Inr v)
      obtain r c'' w'' where "f d v w = (r, c'', w'')" by (rule prod_cases3)
      moreover have "ctx_elems (fst (snd (f d v w))) KeyRequestID = ctx_elems d KeyRequestID" using assms(1) Some by blast
      ultimately show ?thesis
        using assms(2) Some Inr unfolding on_reply_def d_def Let_def by (auto split: option.splits)
    qed
  qed
  ultimately show ?thesis by simp
qed

lemma api_do_identifier:
  assumes "api_do en api (c, ongoing, w) = Returns (res, c', ongoing', w')"
    and "ctx_elems c KeyRequestID = Some (CString i)" "i \<noteq> []"
    and "\<And>c w. ctx_elems (fst (snd (api_ReqF api c w))) KeyRequestID = ctx_elems c KeyRequestID"
    and "\<And>f c v w. api_ResCheckF api = Some f \<Longrightarrow> ctx_elems (fst (snd (f c v w))) KeyRequestID = ctx_elems c KeyRequestID"
  shows "ctx_elems c' KeyRequestID = Some (CString i) \<and> (ongoing' = ongoing \<or> ongoing' = ongoing(i := None))"
  using assms(1)
proof (cases rule: api_do_cases)
  case (no_request err)
  with assms(2) assms(4) [of c w] show ?thesis by simp
next
  case (sent req c1 w1 j w2 reply c2 j')
  have c1: "ctx_elems c1 KeyRequestID = Some (CString i)" using assms(2) assms(4) [of c w] sent(1) by simp
  then have "j = i" using sent(2) by (simp add: GetRequestID_elem)
  with assms(3) sent(4) have c2: "ctx_elems c2 KeyRequestID = Some (CString i)" by (simp add: SetRequestID_def ctx_Set_def)
  have "ctx_elems c' KeyRequestID = Some (CString i)"
    using sent(5) c2 on_reply_identifier [of api en _ c2 w2 res c' w'] assms(5) by (cases reply) auto
  with sent(6,7) \<open>j = i\<close> assms(3) show ?thesis by (simp add: GetRequestID_elem)
qed

text \<open>
  \<open>Do\<close> makes at most one request more than the retry count, or one where it is not positive:
  a quantity of the world that making a request raises by at most one, and that nothing else raises, is
  raised by no more than that, however the callbacks decide.
\<close>

theorem api_Do_attempts:
  assumes "sint (GetRetryCount c) < 2 ^ 63 - 1"
    and "\<And>c w. cnt (snd (snd (api_ReqF api c w))) \<le> cnt w + 1"
    and "\<And>k q c w. cnt (snd (ae_client en k q c w)) \<le> cnt w"
    and "\<And>f c v w. api_ResCheckF api = Some f \<Longrightarrow> cnt (snd (snd (f c v w))) \<le> cnt w"
    and "\<And>k c e w. cnt (snd (snd (ae_callback en k c e w))) \<le> cnt w"
    and "api_Do en api (c, ongoing, w) = Some (Returns (res, c', ongoing', w'))"
  shows "cnt w' \<le> cnt w + (nat (sint (GetRetryCount c)) + 1)"
proof -
  let ?P = "\<lambda>k c (on :: string \<rightharpoonup> nat) v. cnt v \<le> cnt w + k"
  have "\<exists>j \<le> nat (sint (GetRetryCount c)) + 1. ?P j c' ongoing' w'"
  proof (rule api_Do_inv [where P = ?P, OF assms(1,6)])
    fix k d on v res d' on' v'
    assume v: "cnt v \<le> cnt w + k" and do_it: "api_do en api (d, on, v) = Returns (res, d', on', v')"
    have "cnt v' \<le> cnt v + 1" by (rule api_do_count [where cnt = cnt, OF do_it]) (fact assms(2), fact assms(3), fact assms(4))
    with v show "cnt v' \<le> cnt w + Suc k" by simp
  next
    fix k cb d on v e r d' v'
    assume "cnt v \<le> cnt w + k" "ae_callback en cb d e v = (r, d', v')"
    with assms(5) [of cb d e v] show "cnt v' \<le> cnt w + k" by simp
  qed simp_all
  then show ?thesis by auto
qed

theorem api_Do_attempts_witness:
  "\<exists>c. api_Do demo_api_env demo_api (demo_ctx, Map.empty, 0) = Some (Returns (Inr ''{}'', c, Map.empty, 2))
     \<and> (2 :: nat) \<le> 0 + (nat (sint (GetRetryCount demo_ctx)) + 1)"
proof -
  from demo_run obtain c where run: "api_Do demo_api_env demo_api (demo_ctx, Map.empty, 0) = Some (Returns (Inr ''{}'', c, Map.empty, 2))"
    by blast
  have "(\<lambda>w. w) 2 \<le> (\<lambda>w. w) 0 + (nat (sint (GetRetryCount demo_ctx)) + 1)"
    by (rule api_Do_attempts [OF _ _ _ _ _ run]) (simp_all add: demo_GetRetryCount demo_api_def demo_api_env_def)
  with run show ?thesis by blast
qed

text \<open>
  C36. A call whose context has a request identifier that the registered functions and callbacks
  leave alone changes the table of ongoing requests in no other way than that the entry of its
  identifier is gone: with an identifier of its own, the table is what it was.
\<close>

theorem api_Do_ongoing:
  assumes "sint (GetRetryCount c) < 2 ^ 63 - 1" "ctx_elems c KeyRequestID = Some (CString i)" "i \<noteq> []"
    and "\<And>c w. ctx_elems (fst (snd (api_ReqF api c w))) KeyRequestID = ctx_elems c KeyRequestID"
    and "\<And>f c v w. api_ResCheckF api = Some f \<Longrightarrow> ctx_elems (fst (snd (f c v w))) KeyRequestID = ctx_elems c KeyRequestID"
    and "\<And>k c e w. ctx_elems (fst (snd (ae_callback en k c e w))) KeyRequestID = ctx_elems c KeyRequestID"
    and "api_Do en api (c, ongoing, w) = Some (Returns (res, c', ongoing', w'))"
  shows "ongoing' = ongoing \<or> ongoing' = ongoing(i := None)"
proof -
  let ?P = "\<lambda>k c on w. ctx_elems c KeyRequestID = Some (CString i) \<and> (on = ongoing \<or> on = ongoing(i := None))"
  have "\<exists>j \<le> nat (sint (GetRetryCount c)) + 1. ?P j c' ongoing' w'"
  proof (rule api_Do_inv [where P = ?P, OF assms(1,7)])
    fix k d on v res d' on' v'
    assume P: "ctx_elems d KeyRequestID = Some (CString i) \<and> (on = ongoing \<or> on = ongoing(i := None))"
      and do_it: "api_do en api (d, on, v) = Returns (res, d', on', v')"
    show "ctx_elems d' KeyRequestID = Some (CString i) \<and> (on' = ongoing \<or> on' = ongoing(i := None))"
    proof -
      have "ctx_elems d' KeyRequestID = Some (CString i) \<and> (on' = on \<or> on' = on(i := None))"
        by (rule api_do_identifier [OF do_it]) (use P in simp, fact assms(3), fact assms(4), fact assms(5))
      with P show ?thesis by auto
    qed
  next
    fix k cb d on v e r d' v'
    assume "ctx_elems d KeyRequestID = Some (CString i) \<and> (on = ongoing \<or> on = ongoing(i := None))"
      "ae_callback en cb d e v = (r, d', v')"
    with assms(6) [of cb d e v] show "ctx_elems d' KeyRequestID = Some (CString i) \<and> (on = ongoing \<or> on = ongoing(i := None))"
      by simp
  qed (use assms(2) in \<open>simp_all add: SetRequestObject_def ctx_Set_def ctx_keys\<close>)
  then show ?thesis by blast
qed

theorem api_Do_ongoing_witness:
  "\<exists>c on. api_Do demo_api_env demo_api (demo_ctx, Map.empty, 0) = Some (Returns (Inr ''{}'', c, on, 2)) \<and> on = Map.empty"
proof -
  from demo_run obtain c where run: "api_Do demo_api_env demo_api (demo_ctx, Map.empty, 0) = Some (Returns (Inr ''{}'', c, Map.empty, 2))"
    by blast
  have "Map.empty = (Map.empty :: string \<rightharpoonup> nat) \<or> Map.empty = (Map.empty :: string \<rightharpoonup> nat)(''r'' := None)"
    by (rule api_Do_ongoing [OF _ _ _ _ _ _ run], simp add: demo_GetRetryCount)
      (simp_all add: demo_api_def demo_api_env_def demo_ctx_def SetErrorCallback_def SetRetryCount_def
        SetRequestID_def ctx_Set_elems ctx_keys)
  with run show ?thesis by blast
qed

text \<open>
  \<open>RegisterAPI\<close> depends on no more than that there is a response type and that the name is
  new: whatever types it is given, its checks pass, for they look at the type of the \<open>reflect.Type\<close>
  value. An API whose request type is a pointer, which it accepts, answers every call with an error, without
  sending a request.
\<close>

theorem register_accepts_any_type:
  "RegisterAPI name f check reqType responseType apis =
     (case responseType of
        None \<Rightarrow> (Inl (BadResponseType None), apis)
      | Some rt \<Rightarrow>
          if name \<in> dom apis then (Inl (AlreadyRegistered name), apis)
          else
            let a = \<lparr>api_RequestObjectType = reqType, api_ResponseObjectType = rt, api_ReqF = f, api_ResCheckF = check, api_Name = name\<rparr>
            in (Inr a, apis(name \<mapsto> a)))
   \<and> (\<exists>e. api_Do en (api\<lparr>api_RequestObjectType := Some (RPtr t)\<rparr>) st = Some (Returns (Inl (InvalidRequest e), st)))"
  by (cases st) (auto simp: RegisterAPI_def ValidStructType_def type_value_def api_Do_def is_struct_def Let_def
      split: option.split)

end
