(* ===== verification/SqlImpl.thy ===== *)
theory SqlImpl
  imports FastJson
begin

text \<open>
  \<open>sqlimpl\<close>: the statements for a table, transactions that create tables, rows as JSON objects and rows
  scanned into a struct. The database of \<open>database/sql\<close> and its driver is an argument: what preparing,
  executing and querying give, over a state \<open>'d\<close>; executing and committing return the new state. An
  argument of a statement is of type \<open>'v\<close>; where the code passes the values of a JSON object, \<open>'v\<close> is \<open>jval\<close>.
\<close>

section \<open>The database\<close>

datatype sql_error =
    EngineErr string | LengthMismatch nat nat | JoinConditionRequired | NoResult | EmptyColumn | EmptyKeys
  | EmptyCondition | ArgsRequired | NotAStruct | NoFields | DistinctTwice | NoRows | CtxErr | ScanFailed string

text \<open>
  The rows a query gives: the columns, for each row an error or the values, as strings that may be NULL,
  and the error \<open>rows.Err\<close> reports at the end.
\<close>

record sql_rows =
  rw_Columns :: "string list"
  rw_Rows :: "(string + string option list) list"
  rw_Err :: "string option"

record ('d, 'v) sql_db =
  db_prepare :: "'d \<Rightarrow> string \<Rightarrow> string option"
  db_exec :: "'d \<Rightarrow> string \<Rightarrow> 'v list \<Rightarrow> (string + nat) \<times> 'd"
  db_query :: "'d \<Rightarrow> string \<Rightarrow> 'v list \<Rightarrow> string + sql_rows"
  db_begin :: "'d \<Rightarrow> string option"
  db_commit :: "'d \<Rightarrow> string option \<times> 'd"
  db_rollback :: "'d \<Rightarrow> 'd"

record data_table =
  dt_Name :: string
  dt_CreateStatement :: string

text \<open>\<open>QueryRow(...).Scan\<close>: the first row, into as many values as there are columns.\<close>

definition query_row :: "('d, 'v) sql_db \<Rightarrow> 'd \<Rightarrow> string \<Rightarrow> sql_error + string option list" where
  "query_row db d q =
     (case db_query db d q [] of
        Inl e \<Rightarrow> Inl (EngineErr e)
      | Inr rows \<Rightarrow>
          (case rw_Rows rows of
             [] \<Rightarrow> Inl (case rw_Err rows of None \<Rightarrow> NoRows | Some e \<Rightarrow> EngineErr e)
           | Inl e # _ \<Rightarrow> Inl (ScanFailed e)
           | Inr vals # _ \<Rightarrow> Inr vals))"

definition prepared :: "('d, 'v) sql_db \<Rightarrow> 'd \<Rightarrow> string \<Rightarrow> (sql_error + 'a) \<Rightarrow> sql_error + 'a" where
  "prepared db d q r = (case db_prepare db d q of Some e \<Rightarrow> Inl (EngineErr e) | None \<Rightarrow> r)"

definition exec_stmt :: "('d, 'v) sql_db \<Rightarrow> 'd \<Rightarrow> string \<Rightarrow> 'v list \<Rightarrow> (sql_error + nat) \<times> 'd" where
  "exec_stmt db d q args =
     (case db_exec db d q args of (Inl e, d') \<Rightarrow> (Inl (EngineErr e), d') | (Inr n, d') \<Rightarrow> (Inr n, d'))"

definition prepare_exec :: "('d, 'v) sql_db \<Rightarrow> 'd \<Rightarrow> string \<Rightarrow> 'v list \<Rightarrow> (sql_error + nat) \<times> 'd" where
  "prepare_exec db d q args =
     (case db_prepare db d q of Some e \<Rightarrow> (Inl (EngineErr e), d) | None \<Rightarrow> exec_stmt db d q args)"

text \<open>\<open>ConnectDB\<close>: opening and a ping may fail.\<close>

record sql_impl =
  si_Driver :: string
  si_DSN :: string

definition ConnectDB :: "(string \<Rightarrow> string \<Rightarrow> string option) \<Rightarrow> (string \<Rightarrow> string \<Rightarrow> string option) \<Rightarrow> string \<Rightarrow> string \<Rightarrow> string + sql_impl" where
  "ConnectDB open_err ping_err driver dsn =
     (case open_err driver dsn of
        Some e \<Rightarrow> Inl e
      | None \<Rightarrow>
          (case ping_err driver dsn of
             Some e \<Rightarrow> Inl e
           | None \<Rightarrow> Inr \<lparr>si_Driver = driver, si_DSN = dsn\<rparr>))"

text \<open>
  \<open>NullString\<close> as JSON. \<open>quote\<close> is the text of a string; \<open>decode\<close> reads a string or \<open>null\<close>, or fails. The string of
  an invalid value stays what it was.
\<close>

record null_string =
  nu_String :: string
  nu_Valid :: bool

definition null_MarshalJSON :: "(string \<Rightarrow> string) \<Rightarrow> null_string \<Rightarrow> string" where
  "null_MarshalJSON quote v = (if nu_Valid v then quote (nu_String v) else ''null'')"

definition null_UnmarshalJSON :: "(string \<Rightarrow> string + string option) \<Rightarrow> string \<Rightarrow> null_string \<Rightarrow> string option \<times> null_string" where
  "null_UnmarshalJSON decode data v =
     (case decode data of
        Inl e \<Rightarrow> (Some e, v)
      | Inr None \<Rightarrow> (None, v\<lparr>nu_Valid := False\<rparr>)
      | Inr (Some s) \<Rightarrow> (None, v\<lparr>nu_String := s, nu_Valid := True\<rparr>))"

lemma null_string_round_trip:
  assumes "\<And>s. decode (quote s) = Inr (Some s)" "decode ''null'' = Inr None"
  shows "\<exists>v'. null_UnmarshalJSON decode (null_MarshalJSON quote v) v0 = (None, v')
    \<and> nu_Valid v' = nu_Valid v \<and> (nu_Valid v \<longrightarrow> nu_String v' = nu_String v)"
  by (simp add: null_UnmarshalJSON_def null_MarshalJSON_def assms)

section \<open>Statements for a table\<close>

definition place_holders :: "nat \<Rightarrow> string" where
  "place_holders n = concat (replicate (n - 1) ''?,'') @ ''?''"

definition insert_string :: "string \<Rightarrow> string \<Rightarrow> string list \<Rightarrow> string" where
  "insert_string act table keys =
     act @ '' into '' @ table @ '' ('' @ str_join '','' keys @ '') values ('' @ place_holders (length keys) @ '');''"

definition set_string :: "string list \<Rightarrow> string" where
  "set_string keys = str_join '','' (map (\<lambda>k. k @ ''=?'') keys)"

definition GetTable :: "('d, 'v) sql_db \<Rightarrow> 'd \<Rightarrow> string \<Rightarrow> sql_error + data_table" where
  "GetTable db d name =
     (let q = ''SHOW CREATE TABLE '' @ name in
      prepared db d q
        (case query_row db d q of
           Inl e \<Rightarrow> Inl e
         | Inr vals \<Rightarrow>
             (case vals of
                [Some tmp, Some create] \<Rightarrow> Inr \<lparr>dt_Name = name, dt_CreateStatement = create\<rparr>
              | _ \<Rightarrow> Inl (ScanFailed ''columns''))))"

definition InnerJoin ::
    "('d, 'v) sql_db \<Rightarrow> 'd \<Rightarrow> data_table \<Rightarrow> data_table \<Rightarrow> string \<Rightarrow> string \<Rightarrow> string list \<Rightarrow> nat \<Rightarrow> sql_error + string option list" where
  "InnerJoin db d t other joinCond whereCond columns nvals =
     (if length columns \<noteq> nvals then Inl (LengthMismatch (length columns) nvals)
      else if joinCond = [] then Inl JoinConditionRequired
      else
        let q = ''select '' @ str_join '','' columns @ '' from '' @ dt_Name t @ '' inner join '' @ dt_Name other @ '' on ''
              @ joinCond @ '' '' @ whereCond @ '';''
        in prepared db d q
             (case query_row db d q of Inl NoRows \<Rightarrow> Inl NoResult | r \<Rightarrow> r))"

definition dt_Find :: "('d, 'v) sql_db \<Rightarrow> 'd \<Rightarrow> data_table \<Rightarrow> string \<Rightarrow> string \<Rightarrow> sql_error + string option list" where
  "dt_Find db d t column cond =
     (if column = [] then Inl EmptyColumn
      else
        let q = ''select '' @ column @ '' from '' @ dt_Name t @ '' '' @ cond @ '';''
        in prepared db d q (query_row db d q))"

definition dt_Delete :: "('d, 'v) sql_db \<Rightarrow> 'd \<Rightarrow> data_table \<Rightarrow> string \<Rightarrow> (sql_error + nat) \<times> 'd" where
  "dt_Delete db d t cond = prepare_exec db d (''delete from '' @ dt_Name t @ '' '' @ cond @ '';'') []"

definition dt_Insert :: "('d, 'v) sql_db \<Rightarrow> 'd \<Rightarrow> data_table \<Rightarrow> string list \<Rightarrow> 'v list \<Rightarrow> (sql_error + nat) \<times> 'd" where
  "dt_Insert db d t keys args =
     (if length keys \<noteq> length args then (Inl (LengthMismatch (length keys) (length args)), d)
      else if keys = [] then (Inl EmptyKeys, d)
      else prepare_exec db d (insert_string ''insert'' (dt_Name t) keys) args)"

definition dt_Update :: "('d, 'v) sql_db \<Rightarrow> 'd \<Rightarrow> data_table \<Rightarrow> string \<Rightarrow> string list \<Rightarrow> 'v list \<Rightarrow> (sql_error + nat) \<times> 'd" where
  "dt_Update db d t cond keys args =
     (if cond = [] then (Inl EmptyCondition, d)
      else if length keys \<noteq> length args then (Inl (LengthMismatch (length keys) (length args)), d)
      else if keys = [] then (Inl EmptyKeys, d)
      else exec_stmt db d (''update '' @ dt_Name t @ '' set '' @ set_string keys @ '' '' @ cond @ '';'') args)"

section \<open>Creating tables\<close>

text \<open>
  The statements in order until one fails. With the driver \<open>mysql\<close> a failure is answered with a statement
  that drops all the tables, and the transaction stays open.
\<close>

fun create_tables :: "('d, 'v) sql_db \<Rightarrow> 'd \<Rightarrow> data_table list \<Rightarrow> sql_error option \<times> 'd" where
  "create_tables db d [] = (None, d)"
| "create_tables db d (t # ts) =
     (case exec_stmt db d (dt_CreateStatement t) [] of
        (Inl e, d') \<Rightarrow> (Some e, d')
      | (Inr n, d') \<Rightarrow> create_tables db d' ts)"

definition drop_string :: "data_table list \<Rightarrow> string" where
  "drop_string tables = ''DROP TABLE IF EXISTS '' @ str_join '','' (map dt_Name tables)"

definition InitTables :: "('d, 'v) sql_db \<Rightarrow> string \<Rightarrow> 'd \<Rightarrow> data_table list \<Rightarrow> sql_error option \<times> 'd" where
  "InitTables db driver d tables =
     (case db_begin db d of
        Some e \<Rightarrow> (Some (EngineErr e), d)
      | None \<Rightarrow>
          (case create_tables db d tables of
             (Some e, d') \<Rightarrow>
               (Some e, if driver = ''mysql'' then snd (db_exec db d' (drop_string tables) []) else db_rollback db d')
           | (None, d') \<Rightarrow> (case db_commit db d' of (e, d'') \<Rightarrow> (map_option EngineErr e, d''))))"

section \<open>Rows as JSON objects\<close>

definition scanToJSONObject :: "string list \<Rightarrow> string + string option list \<Rightarrow> sql_error + 'f json_object" where
  "scanToJSONObject columns row =
     (case row of
        Inl e \<Rightarrow> Inl (ScanFailed e)
      | Inr vals \<Rightarrow>
          Inr (fold (\<lambda>(col, v) obj. json_Put col (case v of Some s \<Rightarrow> JStr s | None \<Rightarrow> JNull) obj) (zip columns vals) NewObject))"

fun scan_all :: "string list \<Rightarrow> (string + string option list) list \<Rightarrow> sql_error + 'f json_object list" where
  "scan_all columns [] = Inr []"
| "scan_all columns (r # rs) =
     (case scanToJSONObject columns r of
        Inl e \<Rightarrow> Inl e
      | Inr obj \<Rightarrow> (case scan_all columns rs of Inl e \<Rightarrow> Inl e | Inr objs \<Rightarrow> Inr (obj # objs)))"

text \<open>The error of the query is overwritten; with it the rows are nil, and asking for their columns panics.\<close>

definition FetchAll :: "('d, 'v) sql_db \<Rightarrow> 'd \<Rightarrow> string \<Rightarrow> 'v list \<Rightarrow> (sql_error + 'f json_object list) outcome" where
  "FetchAll db d query args =
     (case db_prepare db d query of
        Some e \<Rightarrow> Returns (Inl (EngineErr e))
      | None \<Rightarrow>
          (case db_query db d query args of
             Inl e \<Rightarrow> Panics
           | Inr rows \<Rightarrow>
               Returns
                 (case scan_all (rw_Columns rows) (rw_Rows rows) of
                    Inl e \<Rightarrow> Inl e
                  | Inr objs \<Rightarrow> (case rw_Err rows of Some e \<Rightarrow> Inl (EngineErr e) | None \<Rightarrow> Inr objs))))"

definition FetchOne :: "('d, 'v) sql_db \<Rightarrow> 'd \<Rightarrow> string \<Rightarrow> 'v list \<Rightarrow> (sql_error + 'f json_object option) outcome" where
  "FetchOne db d query args =
     map_outcome (\<lambda>r. case r of Inl e \<Rightarrow> Inl e | Inr [] \<Rightarrow> Inr None | Inr (obj # _) \<Rightarrow> Inr (Some obj)) (FetchAll db d query args)"

text \<open>\<open>Insert\<close> and \<open>Update\<close> of a JSON object; nil is \<open>None\<close>.\<close>

definition impl_Insert :: "('d, 'f jval) sql_db \<Rightarrow> 'd \<Rightarrow> string \<Rightarrow> bool \<Rightarrow> 'f json_object option \<Rightarrow> (sql_error + nat) \<times> 'd" where
  "impl_Insert db d table replace args =
     (case args of
        None \<Rightarrow> (Inl ArgsRequired, d)
      | Some obj \<Rightarrow>
          if json_Keys obj = [] then (Inl ArgsRequired, d)
          else (case json_Entries obj of (keys, values) \<Rightarrow>
            prepare_exec db d (insert_string (if replace then ''replace'' else ''insert'') table keys) values))"

definition impl_Update ::
    "('d, 'f jval) sql_db \<Rightarrow> 'd \<Rightarrow> string \<Rightarrow> 'f json_object option \<Rightarrow> string \<Rightarrow> 'f jval list \<Rightarrow> (sql_error + nat) \<times> 'd" where
  "impl_Update db d table args whr whereArgs =
     (case args of
        None \<Rightarrow> (Inl ArgsRequired, d)
      | Some obj \<Rightarrow>
          if json_Keys obj = [] then (Inl ArgsRequired, d)
          else (case json_Entries obj of (keys, values) \<Rightarrow>
            prepare_exec db d (''update '' @ table @ '' set '' @ set_string keys @ '' where '' @ whr) (values @ whereArgs)))"

section \<open>Rows scanned into a struct\<close>

text \<open>A field: its name, whether it has a tag at all, and the value of the tag for \<open>sql\<close>.\<close>

record struct_field =
  sf_Name :: string
  sf_Tagged :: bool
  sf_Sql :: string

text \<open>\<open>strings.SplitN(s, ",", 2)\<close>\<close>

definition split_tag :: "string \<Rightarrow> string \<times> string option" where
  "split_tag s =
     (takeWhile (\<lambda>c. c \<noteq> CHR '','') s, case dropWhile (\<lambda>c. c \<noteq> CHR '','') s of [] \<Rightarrow> None | c # rest \<Rightarrow> Some rest)"

text \<open>The column of a field: skipped, an error, or its name; with whether a distinct column has been seen.\<close>

fun scan_columns :: "bool \<Rightarrow> nat \<Rightarrow> struct_field list \<Rightarrow> sql_error + (nat \<times> string) list" where
  "scan_columns seen i [] = Inr []"
| "scan_columns seen i (f # fs) =
     (let (fn, opt) = split_tag (sf_Sql f);
          more = (\<lambda>seen' name. case scan_columns seen' (Suc i) fs of Inl e \<Rightarrow> Inl e | Inr cs \<Rightarrow> Inr ((i, name) # cs))
      in if \<not> sf_Tagged f \<or> fn = [] then more seen (sf_Name f)
         else if fn = ''-'' then scan_columns seen (Suc i) fs
         else if opt = Some ''distinct'' then
           (if seen then Inl DistinctTwice else more True (''distinct('' @ fn @ '')''))
         else more seen fn)"

text \<open>
  The loop over the rows. There is one struct, \<open>cur\<close>, that every row is scanned into; the callback gets its
  address, so what it sees is the contents at the time. The result is what each call saw, the contents in
  the end, and the error.
\<close>

definition store_row :: "nat list \<Rightarrow> 'a list \<Rightarrow> 'a list \<Rightarrow> 'a list" where
  "store_row idxs vals cur = fold (\<lambda>(i, v) c. c[i := v]) (zip idxs vals) cur"

fun scan_loop ::
    "(nat \<Rightarrow> bool) \<Rightarrow> nat list \<Rightarrow> nat \<Rightarrow> string option list \<Rightarrow> (string + string option list) list \<Rightarrow>
     string option list list \<times> string option list \<times> sql_error option" where
  "scan_loop ctx idxs n cur [] = ([], cur, None)"
| "scan_loop ctx idxs n cur (r # rs) =
     (if ctx n then ([], cur, Some CtxErr)
      else
        case r of
          Inl e \<Rightarrow> ([], cur, Some (ScanFailed e))
        | Inr vals \<Rightarrow>
            (let cur' = store_row idxs vals cur;
                 res = scan_loop ctx idxs (Suc n) cur' rs
             in (cur' # fst res, snd res)))"

definition StructScan ::
    "('d, 'v) sql_db \<Rightarrow> 'd \<Rightarrow> (nat \<Rightarrow> bool) \<Rightarrow> string \<Rightarrow> string \<Rightarrow> struct_field list option \<Rightarrow> 'v list \<Rightarrow>
     string option list list \<times> string option list \<times> sql_error option" where
  "StructScan db d ctx table condOrderLimit destType args =
     (case destType of
        None \<Rightarrow> ([], [], Some NotAStruct)
      | Some [] \<Rightarrow> ([], [], Some NoFields)
      | Some fs \<Rightarrow>
          let zero = replicate (length fs) (Some []) in
          (case scan_columns False 0 fs of
             Inl e \<Rightarrow> ([], zero, Some e)
           | Inr cols \<Rightarrow>
               (let query = ''select '' @ str_join '','' (map snd cols) @ '' from '' @ table @ '' '' @ condOrderLimit in
                case db_prepare db d query of
                  Some e \<Rightarrow> ([], zero, Some (EngineErr e))
                | None \<Rightarrow>
                    (case db_query db d query args of
                       Inl e \<Rightarrow> ([], zero, Some (EngineErr e))
                     | Inr rows \<Rightarrow>
                         if rw_Rows rows = [] then ([], zero, Some NoRows)
                         else scan_loop ctx (map fst cols) 0 zero (rw_Rows rows)))))"

text \<open>
  \<open>StructScanOne\<close> keeps the address the first call of its callback gets and returns it; the contents are
  those of the struct when the caller reads it.
\<close>

definition StructScanOne ::
    "('d, 'v) sql_db \<Rightarrow> 'd \<Rightarrow> (nat \<Rightarrow> bool) \<Rightarrow> string \<Rightarrow> string \<Rightarrow> struct_field list option \<Rightarrow> 'v list \<Rightarrow>
     sql_error + string option list" where
  "StructScanOne db d ctx table condOrderLimit destType args =
     (case StructScan db d ctx table (if condOrderLimit = [] then ''limit 1'' else condOrderLimit) destType args of
        (calls, contents, Some e) \<Rightarrow> Inl e
      | (calls, contents, None) \<Rightarrow> Inr contents)"

section \<open>Properties\<close>

lemma count_str_join:
  "c \<notin> set sep \<Longrightarrow> count_list (str_join sep xs) c = sum_list (map (\<lambda>x. count_list x c) xs)"
  by (induction sep xs rule: str_join.induct) (auto simp: count_list_append)

lemma count_place_holders: "0 < n \<Longrightarrow> count_list (place_holders n) (CHR ''?'') = n"
proof -
  have "count_list (concat (replicate m ''?,'')) (CHR ''?'') = m" for m
    by (induction m) (auto simp: count_list_append)
  then show "0 < n \<Longrightarrow> ?thesis" by (simp add: place_holders_def count_list_append)
qed

lemma count_insert_string:
  "keys \<noteq> [] \<Longrightarrow> CHR ''?'' \<notin> set act \<union> set table \<Longrightarrow> (\<And>k. k \<in> set keys \<Longrightarrow> CHR ''?'' \<notin> set k) \<Longrightarrow>
   count_list (insert_string act table keys) (CHR ''?'') = length keys"
  by (simp add: insert_string_def count_list_append count_place_holders count_str_join count_list_0_iff sum_list_0)

lemma count_set_string:
  "(\<And>k. k \<in> set keys \<Longrightarrow> CHR ''?'' \<notin> set k) \<Longrightarrow> count_list (set_string keys) (CHR ''?'') = length keys"
proof (induction keys)
  case (Cons k keys)
  then show ?case by (simp add: set_string_def count_str_join count_list_append count_list_0_iff)
qed (simp add: set_string_def)

text \<open>
  The statements \<open>Insert\<close> and \<open>Update\<close> of a table send have a place holder for each of their
  arguments, in tables and columns whose names have no question mark; but \<open>Update\<close> requires as many
  arguments as columns, so that a place holder in its condition is one too many.
\<close>

theorem statements_bind_their_arguments:
  assumes "keys \<noteq> []" "length keys = length args" "cond \<noteq> []"
    and "CHR ''?'' \<notin> set (dt_Name t)" "\<And>k. k \<in> set keys \<Longrightarrow> CHR ''?'' \<notin> set k"
  shows "\<exists>ins upd. dt_Insert db d t keys args = prepare_exec db d ins args
    \<and> count_list ins (CHR ''?'') = length args
    \<and> dt_Update db d t cond keys args = exec_stmt db d upd args
    \<and> count_list upd (CHR ''?'') = length args + count_list cond (CHR ''?'')"
proof (intro exI conjI)
  show "dt_Insert db d t keys args = prepare_exec db d (insert_string ''insert'' (dt_Name t) keys) args"
    using assms(1,2) by (simp add: dt_Insert_def)
  show "count_list (insert_string ''insert'' (dt_Name t) keys) (CHR ''?'') = length args"
    using assms by (subst count_insert_string) auto
  show "dt_Update db d t cond keys args =
      exec_stmt db d (''update '' @ dt_Name t @ '' set '' @ set_string keys @ '' '' @ cond @ '';'') args"
    using assms(1-3) by (simp add: dt_Update_def)
  show "count_list (''update '' @ dt_Name t @ '' set '' @ set_string keys @ '' '' @ cond @ '';'') (CHR ''?'') =
      length args + count_list cond (CHR ''?'')"
    using assms(2,4,5) by (simp add: count_list_append count_set_string count_list_0_iff)
qed

definition demo_db :: "(string list, string) sql_db" where
  "demo_db = \<lparr>db_prepare = (\<lambda>d q. None), db_exec = (\<lambda>d q args. (Inr 1, d @ [q])),
     db_query = (\<lambda>d q args. Inr \<lparr>rw_Columns = [''a''], rw_Rows = [Inr [Some ''1''], Inr [Some ''2'']], rw_Err = None\<rparr>),
     db_begin = (\<lambda>d. None), db_commit = (\<lambda>d. (None, d)), db_rollback = (\<lambda>d. d)\<rparr>"

theorem statements_bind_their_arguments_witness:
  "\<exists>ins. dt_Insert demo_db [] \<lparr>dt_Name = ''t'', dt_CreateStatement = []\<rparr> [''a'', ''b''] [''1'', ''2''] = prepare_exec demo_db [] ins [''1'', ''2'']
     \<and> count_list ins (CHR ''?'') = 2"
proof -
  have "CHR ''?'' \<notin> set k" if "k \<in> set [''a'', ''b'']" for k using that by auto
  from statements_bind_their_arguments [where keys = "[''a'', ''b'']" and args = "[''1'', ''2'']" and cond = "''x''"
      and t = "\<lparr>dt_Name = ''t'', dt_CreateStatement = []\<rparr>" and db = demo_db and d = "[]", OF _ _ _ _ this]
  show ?thesis by (auto simp: numeral_eq_Suc)
qed

text \<open>
  \<open>FetchAll\<close> panics exactly when the statement can be prepared and the query fails: the error of
  the query is overwritten before it is looked at.
\<close>

theorem FetchAll_panics_iff:
  "FetchAll db d query args = Panics \<longleftrightarrow> db_prepare db d query = None \<and> (\<exists>e. db_query db d query args = Inl e)"
  by (auto simp: FetchAll_def split: option.split sum.split)

lemma scan_loop_last:
  "scan_loop ctx idxs n cur rows = (calls, contents, None) \<Longrightarrow>
   length calls = length rows \<and> contents = (if rows = [] then cur else last calls)"
proof (induction rows arbitrary: n cur calls)
  case (Cons r rs)
  then obtain vals where r: "r = Inr vals" "\<not> ctx n" by (auto split: sum.splits if_splits)
  with Cons.prems obtain calls' where c: "scan_loop ctx idxs (Suc n) (store_row idxs vals cur) rs = (calls', contents, None)"
    "calls = store_row idxs vals cur # calls'" by (auto simp: Let_def prod_eq_iff)
  from Cons.IH [OF c(1)] c(2) show ?case by auto
qed simp

text \<open>
  When \<open>StructScan\<close> succeeds there has been a row, and \<open>StructScanOne\<close> for the same
  condition returns what the last row left in the struct: with more than one row not the first one, which its
  callback means to keep.
\<close>

theorem StructScanOne_returns_last:
  assumes "StructScan db d ctx table cond destType args = (calls, contents, None)" "cond \<noteq> []"
  shows "calls \<noteq> [] \<and> StructScanOne db d ctx table cond destType args = Inr (last calls)"
proof -
  from assms(1) obtain zero idxs rows where rows: "rows \<noteq> []" "scan_loop ctx idxs 0 zero rows = (calls, contents, None)"
    by (auto simp: StructScan_def Let_def simp del: scan_columns.simps scan_loop.simps split: option.splits list.splits sum.splits if_splits)
  from scan_loop_last [OF rows(2)] rows(1) have "calls \<noteq> []" "contents = last calls" by auto
  with assms show ?thesis by (simp add: StructScanOne_def)
qed

theorem StructScanOne_returns_last_witness:
  "StructScan demo_db [] (\<lambda>n. False) ''t'' ''order by a'' (Some [\<lparr>sf_Name = ''a'', sf_Tagged = False, sf_Sql = []\<rparr>]) [] =
      ([[Some ''1''], [Some ''2'']], [Some ''2''], None)
   \<and> StructScanOne demo_db [] (\<lambda>n. False) ''t'' ''order by a'' (Some [\<lparr>sf_Name = ''a'', sf_Tagged = False, sf_Sql = []\<rparr>]) [] =
      Inr [Some ''2'']"
proof -
  have scan: "StructScan demo_db [] (\<lambda>n. False) ''t'' ''order by a'' (Some [\<lparr>sf_Name = ''a'', sf_Tagged = False, sf_Sql = []\<rparr>]) [] =
      ([[Some ''1''], [Some ''2'']], [Some ''2''], None)" by code_simp
  from StructScanOne_returns_last [OF scan] scan show ?thesis by simp
qed

lemma create_tables_existing:
  assumes "\<And>t d. t \<in> set tables \<Longrightarrow> dt_Name t \<in> ex d \<Longrightarrow> \<exists>e d'. db_exec db d (dt_CreateStatement t) [] = (Inl e, d')"
    and "\<And>t d. t \<in> set tables \<Longrightarrow> ex d \<subseteq> ex (snd (db_exec db d (dt_CreateStatement t) []))"
    and "t \<in> set tables" "dt_Name t \<in> ex d"
  shows "\<exists>e d'. create_tables db d tables = (Some e, d')"
  using assms
proof (induction tables arbitrary: d)
  case (Cons u us)
  obtain r d' where r: "db_exec db d (dt_CreateStatement u) [] = (r, d')" by fastforce
  show ?case
  proof (cases r)
    case (Inl e)
    with r show ?thesis by (simp add: exec_stmt_def)
  next
    case (Inr n)
    with r Cons.prems(1) [of u d] Cons.prems(4) have "t \<noteq> u" by auto
    moreover have "dt_Name t \<in> ex d'" using Cons.prems(2) [of u d] Cons.prems(4) r by auto
    ultimately have "\<exists>e d''. create_tables db d' us = (Some e, d'')"
      using Cons.prems(1-3) by (intro Cons.IH) auto
    with r Inr show ?thesis by (auto simp: exec_stmt_def)
  qed
qed simp

text \<open>
  C37. On a MySQL database, where creating a table that exists fails and a drop statement removes the
  tables it names: \<open>InitTables\<close> with a table that exists fails and removes that table, with all it held.
\<close>

theorem InitTables_drops_existing:
  assumes "\<And>t d. t \<in> set tables \<Longrightarrow> dt_Name t \<in> ex d \<Longrightarrow> \<exists>e d'. db_exec db d (dt_CreateStatement t) [] = (Inl e, d')"
    and "\<And>t d. t \<in> set tables \<Longrightarrow> ex d \<subseteq> ex (snd (db_exec db d (dt_CreateStatement t) []))"
    and "\<And>d. ex (snd (db_exec db d (drop_string tables) [])) = ex d - dt_Name ` set tables"
    and "db_begin db d = None" "t \<in> set tables" "dt_Name t \<in> ex d"
  shows "fst (InitTables db ''mysql'' d tables) \<noteq> None \<and> dt_Name t \<notin> ex (snd (InitTables db ''mysql'' d tables))"
proof -
  obtain e d' where "create_tables db d tables = (Some e, d')"
    using create_tables_existing [where db = db and d = d and ex = ex] assms(1,2,5,6) by metis
  then show ?thesis using assms(3) [of d'] assms(4,5) by (simp add: InitTables_def)
qed

text \<open>Table names as a state; a statement is recognised by its text.\<close>

definition names_db :: "(string set, string) sql_db" where
  "names_db = \<lparr>db_prepare = (\<lambda>d q. None),
     db_exec = (\<lambda>d q args. if q = ''create table users'' then if ''users'' \<in> d then (Inl ''exists'', d) else (Inr 0, insert ''users'' d)
        else (Inr 0, d - {''users''})),
     db_query = (\<lambda>d q args. Inl []), db_begin = (\<lambda>d. None), db_commit = (\<lambda>d. (None, d)), db_rollback = (\<lambda>d. d)\<rparr>"

theorem InitTables_drops_existing_witness:
  "''users'' \<in> {''users'', ''logs''} \<and>
   ''users'' \<notin> snd (InitTables names_db ''mysql'' {''users'', ''logs''} [\<lparr>dt_Name = ''users'', dt_CreateStatement = ''create table users''\<rparr>])"
proof -
  let ?t = "\<lparr>dt_Name = ''users'', dt_CreateStatement = ''create table users''\<rparr>"
  have keeps: "d \<subseteq> snd (db_exec names_db d (dt_CreateStatement ?t) [])" for d by (auto simp: names_db_def)
  have "''users'' \<notin> (\<lambda>d. d) (snd (InitTables names_db ''mysql'' {''users'', ''logs''} [?t]))"
    using InitTables_drops_existing [of "[?t]" "\<lambda>d. d" names_db "{''users'', ''logs''}" ?t] keeps
    by (simp add: names_db_def drop_string_def)
  then show ?thesis by simp
qed

end
