(* ===== verification/Redisw.thy ===== *)
theory Redisw
  imports HelperSys
begin

text \<open>
  \<open>redisw\<close>: clients with default options, an integer under a key, and the score range of a period. The
  server and the driver \<open>go-redis\<close> are an argument, the function that answers a command: a reply or an error,
  and the state of the server after it.
\<close>

section \<open>Commands\<close>

text \<open>The commands the sources send; \<open>'s\<close> is the type of scores, \<open>float64\<close>.\<close>

datatype 's rcmd =
    ZAdd string 's string
  | ZRem string string
  | HSet string string string
  | SetKey string string
  | GetKey string

type_synonym ('r, 's) rserver = "'r \<Rightarrow> 's rcmd \<Rightarrow> (string + string) \<times> 'r"

text \<open>Commands in order, \<open>if err = ...; err != nil { return err }\<close> after each.\<close>

fun run_cmds :: "('r, 's) rserver \<Rightarrow> 's rcmd list \<Rightarrow> 'r \<Rightarrow> string option \<times> 'r" where
  "run_cmds ex [] r = (None, r)"
| "run_cmds ex (c # cs) r =
     (case ex r c of
        (Inl e, r') \<Rightarrow> (Some e, r')
      | (Inr v, r') \<Rightarrow> run_cmds ex cs r')"

lemma run_cmds_append:
  "run_cmds ex (cs @ ds) r =
     (case run_cmds ex cs r of (None, r') \<Rightarrow> run_cmds ex ds r' | (Some e, r') \<Rightarrow> (Some e, r'))"
  by (induction cs arbitrary: r) (auto split: prod.split sum.split)

lemma run_cmds_no_error:
  "(\<And>r c. isl (fst (ex r c)) = False) \<Longrightarrow> run_cmds ex cs r = (None, fold (\<lambda>c r. snd (ex r c)) cs r)"
proof (induction cs arbitrary: r)
  case (Cons c cs)
  obtain v r' where "ex r c = (Inr v, r')" using Cons.prems [of r c] by (metis isl_def prod.collapse sum.exhaust_disc sum.collapse(2))
  with Cons show ?case by simp
qed simp

section \<open>Clients\<close>

text \<open>Durations are in nanoseconds.\<close>

record redis_options =
  ro_Addr :: string
  ro_DialTimeout :: int
  ro_ReadTimeout :: int
  ro_WriteTimeout :: int
  ro_MaxRetries :: int

record failover_options =
  fo_MasterName :: string
  fo_SentinelAddrs :: "string list"
  fo_DialTimeout :: int
  fo_ReadTimeout :: int
  fo_WriteTimeout :: int
  fo_MaxRetries :: int

record redis_client =
  rc_Opt :: "redis_options option"
  rc_FOpt :: "failover_options option"

definition DefaultOption :: redis_options where
  "DefaultOption = \<lparr>ro_Addr = ''127.0.0.1:6379'', ro_DialTimeout = 2 * 10 ^ 9, ro_ReadTimeout = 3 * 10 ^ 9,
     ro_WriteTimeout = 3 * 10 ^ 9, ro_MaxRetries = 3\<rparr>"

definition DefaultFailoverOption :: failover_options where
  "DefaultFailoverOption = \<lparr>fo_MasterName = ''mymaster'', fo_SentinelAddrs = ['':26379''], fo_DialTimeout = 2 * 10 ^ 9,
     fo_ReadTimeout = 3 * 10 ^ 9, fo_WriteTimeout = 3 * 10 ^ 9, fo_MaxRetries = 3\<rparr>"

text \<open>\<open>ping\<close> is the error of a ping with the given options.\<close>

definition NewClient :: "(redis_options \<Rightarrow> string option) \<Rightarrow> redis_options option \<Rightarrow> string + redis_client" where
  "NewClient ping opt =
     (let o' = (case opt of None \<Rightarrow> DefaultOption | Some o' \<Rightarrow> o') in
      case ping o' of Some e \<Rightarrow> Inl e | None \<Rightarrow> Inr \<lparr>rc_Opt = Some o', rc_FOpt = None\<rparr>)"

definition NewFailoverClient :: "(failover_options \<Rightarrow> string option) \<Rightarrow> failover_options option \<Rightarrow> string + redis_client" where
  "NewFailoverClient ping opt =
     (let o' = (case opt of None \<Rightarrow> DefaultFailoverOption | Some o' \<Rightarrow> o') in
      case ping o' of Some e \<Rightarrow> Inl e | None \<Rightarrow> Inr \<lparr>rc_Opt = None, rc_FOpt = Some o'\<rparr>)"

section \<open>An integer under a key\<close>

datatype redis_error = RedisErr string | RedisNum num_error

text \<open>\<open>errStr\<close> is nil (\<open>None\<close>) or points to what the last error was; it is written only on an error.\<close>

definition redis_GetInt64 ::
    "('r, 's) rserver \<Rightarrow> string \<Rightarrow> i64 \<Rightarrow> redis_error option option \<Rightarrow> 'r \<Rightarrow> i64 \<times> redis_error option option \<times> 'r" where
  "redis_GetInt64 ex key dfl errStr r =
     (case ex r (GetKey key) of
        (Inl e, r') \<Rightarrow> (dfl, map_option (\<lambda>_. Some (RedisErr e)) errStr, r')
      | (Inr s, r') \<Rightarrow>
          (case ParseInt s of
             Inl e \<Rightarrow> (dfl, map_option (\<lambda>_. Some (RedisNum e)) errStr, r')
           | Inr v \<Rightarrow> (word_of_int v, errStr, r')))"

section \<open>Score ranges\<close>

record time_range =
  tr_Start :: int
  tr_End :: int

record zrange_by =
  zr_Min :: string
  zr_Max :: string

definition AllZRange :: zrange_by where
  "AllZRange = \<lparr>zr_Min = ''-inf'', zr_Max = ''+inf''\<rparr>"

text \<open>A range that starts with a positive number is in seconds, with a negative one in days before today.\<close>

definition ToZRangeScoreOpt :: "int \<Rightarrow> time_range \<Rightarrow> (int \<times> int) + zrange_by" where
  "ToZRangeScoreOpt now p =
     (if tr_Start p > 0 then
        (if tr_End p \<ge> tr_Start p then Inr \<lparr>zr_Min = FormatInt (tr_Start p), zr_Max = FormatInt (tr_End p)\<rparr>
         else Inl (tr_End p, tr_Start p))
      else if tr_Start p < 0 then
        (if tr_End p \<ge> tr_Start p then Inr \<lparr>zr_Min = FormatInt (UnixDate now (tr_Start p)), zr_Max = FormatInt (UnixDate now (tr_End p))\<rparr>
         else Inl (tr_End p, tr_Start p))
      else Inr \<lparr>zr_Min = FormatInt (UnixDate now 0), zr_Max = ''+inf''\<rparr>)"

section \<open>Properties\<close>

text \<open>What the server reads in a bound: a number, or infinity as \<open>None\<close>.\<close>

definition bound_value :: "string \<Rightarrow> int option" where
  "bound_value s = (case ParseInt s of Inr v \<Rightarrow> Some v | Inl e \<Rightarrow> None)"

lemma bound_value_FormatInt: "in_i64 v \<Longrightarrow> bound_value (FormatInt v) = Some v"
  by (simp add: bound_value_def ParseInt_FormatInt)

text \<open>
  A range is rejected exactly when it ends before it starts, unless the start is 0, when the end is not looked
  at; an accepted range with an end is never empty: its lower bound is at most its upper bound.
\<close>

theorem ToZRangeScoreOpt_ordered:
  assumes "in_i64 (tr_Start p)" "in_i64 (tr_End p)"
    and "in_i64 (UnixDate now (tr_Start p))" "in_i64 (UnixDate now (tr_End p))"
  shows "case ToZRangeScoreOpt now p of
      Inl e \<Rightarrow> tr_Start p \<noteq> 0 \<and> tr_End p < tr_Start p
    | Inr z \<Rightarrow>
        if tr_Start p = 0 then zr_Max z = ''+inf''
        else \<exists>lo hi. bound_value (zr_Min z) = Some lo \<and> bound_value (zr_Max z) = Some hi \<and> lo \<le> hi"
proof -
  have "UnixDate now i \<le> UnixDate now j" if "i \<le> j" for i j
    using that by (simp add: UnixDate_def UnixDateLocation_def)
  with assms show ?thesis
    by (auto simp: ToZRangeScoreOpt_def bound_value_FormatInt)
qed

theorem ToZRangeScoreOpt_ordered_witness:
  "ToZRangeScoreOpt 0 \<lparr>tr_Start = 5, tr_End = 7\<rparr> = Inr \<lparr>zr_Min = ''5'', zr_Max = ''7''\<rparr>
   \<and> (\<exists>lo hi. bound_value ''5'' = Some lo \<and> bound_value ''7'' = Some hi \<and> lo \<le> hi)"
proof -
  have z: "ToZRangeScoreOpt 0 \<lparr>tr_Start = 5, tr_End = 7\<rparr> = Inr \<lparr>zr_Min = ''5'', zr_Max = ''7''\<rparr>" by code_simp
  have "in_i64 (tr_Start \<lparr>tr_Start = 5, tr_End = 7\<rparr>)" "in_i64 (tr_End \<lparr>tr_Start = 5, tr_End = 7\<rparr>)"
    "in_i64 (UnixDate 0 (tr_Start \<lparr>tr_Start = 5, tr_End = 7\<rparr>))" "in_i64 (UnixDate 0 (tr_End \<lparr>tr_Start = 5, tr_End = 7\<rparr>))"
    by code_simp+
  from ToZRangeScoreOpt_ordered [OF this] z show ?thesis by simp
qed

text \<open>
  What was written under a key as a decimal number is read back; the default is returned, with the error
  recorded where a place for it is given, when the server fails or the value is not a number of 64 bits.
\<close>

lemma GetInt64_of_FormatInt:
  "ex r (GetKey key) = (Inr (FormatInt (sint v)), r') \<Longrightarrow> redis_GetInt64 ex key dfl errStr r = (v, errStr, r')"
proof -
  have "in_i64 (sint v)" for v :: i64
    using sint_range_size [of v] by (simp add: in_i64_def word_size)
  then show "ex r (GetKey key) = (Inr (FormatInt (sint v)), r') \<Longrightarrow> ?thesis"
    by (simp add: redis_GetInt64_def ParseInt_FormatInt)
qed

end
