(* ===== verification/RedisMigrate.thy ===== *)
theory RedisMigrate
  imports Redisw SqlImpl
begin

text \<open>
  \<open>redisw/cmd\<close>: the program that copies the records of a MySQL table to Redis, in batches, and what it
  writes for a follower, an unfollow and a measurement. The database and the Redis server are arguments;
  so are the text \<open>JsonMarshal\<close> gives for a struct, the conversion of an integer to a score, the local
  date of a time, and the number in a column of type \<open>float32\<close>.
\<close>

section \<open>The data and the surroundings\<close>

text \<open>A struct for \<open>JsonMarshal\<close>: the names of its tags with its values.\<close>

datatype 'g jfield = FStr string | FInt i64 | FFloat 'g

type_synonym 'g jstruct = "(string \<times> 'g jfield) list"

record ('d, 'r, 's, 'g) mg_env =
  mg_db :: "('d, string) sql_db"
  mg_data :: 'd
  mg_exec :: "('r, 's) rserver"
  mg_json :: "'g jstruct \<Rightarrow> string"
  mg_score :: "i64 \<Rightarrow> 's"
  mg_date :: "i64 \<Rightarrow> string"
  mg_float :: "string \<Rightarrow> 'g"

record 'g measure_result =
  mr_Weight :: 'g
  mr_Height :: 'g
  mr_Bmi :: 'g
  mr_Scale :: string
  mr_ScaleTime :: i64
  mr_AddTime :: i64

record 'g ch_record =
  ch_ID :: i64
  ch_AcMac :: string
  ch_WID :: i64
  ch_AppID :: string
  ch_OpenID :: string
  ch_UnionID :: string
  ch_Height :: 'g
  ch_Weight :: 'g
  ch_Bmi :: 'g
  ch_Subscribe :: "8 word"
  ch_SubscribeTime :: i64
  ch_ScaleTime :: i64
  ch_AddTime :: i64
  ch_UpdateTime :: i64

text \<open>The fields of \<open>ch_record\<close> with their tags, in order.\<close>

definition sql_field :: "string \<Rightarrow> string \<Rightarrow> struct_field" where
  "sql_field name tag = \<lparr>sf_Name = name, sf_Tagged = True, sf_Sql = tag\<rparr>"

definition ch_record_fields :: "struct_field list" where
  "ch_record_fields =
     [sql_field ''ID'' ''id'', sql_field ''AcMac'' ''acmac'', sql_field ''WID'' ''wid'', sql_field ''AppID'' ''appid'',
      sql_field ''OpenID'' ''OpenID'', sql_field ''UnionID'' ''unionid'', sql_field ''Height'' ''height'',
      sql_field ''Weight'' ''weight'', sql_field ''Bmi'' ''bmi'', sql_field ''Subscribe'' ''subscribe'',
      sql_field ''SubscribeTime'' ''sub_time'', sql_field ''ScaleTime'' ''scale_time'', sql_field ''AddTime'' ''add_time'',
      sql_field ''UpdateTime'' ''update_time'']"

text \<open>
  The record that holds the values of a row. A row in which a value is NULL or not of the type of its field
  is one that cannot be scanned; the values here are those of rows that can.
\<close>

definition column_text :: "string option list \<Rightarrow> nat \<Rightarrow> string" where
  "column_text vals i = (case vals ! i of Some t \<Rightarrow> t | None \<Rightarrow> [])"

definition column_int :: "string option list \<Rightarrow> nat \<Rightarrow> 'w::len word" where
  "column_int vals i = (case ParseInt (column_text vals i) of Inr v \<Rightarrow> word_of_int v | Inl e \<Rightarrow> 0)"

definition ch_of_row :: "('d, 'r, 's, 'g) mg_env \<Rightarrow> string option list \<Rightarrow> 'g ch_record" where
  "ch_of_row en vals =
     \<lparr>ch_ID = column_int vals 0, ch_AcMac = column_text vals 1, ch_WID = column_int vals 2, ch_AppID = column_text vals 3,
      ch_OpenID = column_text vals 4, ch_UnionID = column_text vals 5, ch_Height = mg_float en (column_text vals 6),
      ch_Weight = mg_float en (column_text vals 7), ch_Bmi = mg_float en (column_text vals 8),
      ch_Subscribe = column_int vals 9, ch_SubscribeTime = column_int vals 10, ch_ScaleTime = column_int vals 11,
      ch_AddTime = column_int vals 12, ch_UpdateTime = column_int vals 13\<rparr>"

section \<open>What is written\<close>

definition unfollow_cmds :: "('d, 'r, 's, 'g) mg_env \<Rightarrow> string \<Rightarrow> string \<Rightarrow> i64 \<Rightarrow> 's rcmd list" where
  "unfollow_cmds en unionid appid ts =
     [ZAdd ''unfollow:all'' (mg_score en ts)
        (mg_json en [(''unionid'', FStr unionid), (''appid'', FStr appid), (''ts'', FInt ts)]),
      ZAdd (''unfollow:user:'' @ unionid) (mg_score en ts) (mg_json en [(''appid'', FStr appid), (''ts'', FInt ts)]),
      ZRem (''followset:user:'' @ unionid) appid]"

definition addUnfollow :: "('d, 'r, 's, 'g) mg_env \<Rightarrow> string \<Rightarrow> string \<Rightarrow> i64 \<Rightarrow> 'r \<Rightarrow> string option \<times> 'r" where
  "addUnfollow en unionid appid ts = run_cmds (mg_exec en) (unfollow_cmds en unionid appid ts)"

definition follow_cmds ::
    "('d, 'r, 's, 'g) mg_env \<Rightarrow> string \<Rightarrow> string \<Rightarrow> string \<Rightarrow> string \<Rightarrow> i64 \<Rightarrow> 's rcmd list" where
  "follow_cmds en scale unionid appid openid ts =
     [ZAdd ''follow:all'' (mg_score en ts)
        (mg_json en [(''scale'', FStr scale), (''unionid'', FStr unionid), (''appid'', FStr appid), (''ts'', FInt ts)]),
      ZAdd ''followset:all'' (mg_score en ts) (mg_json en [(''unionid'', FStr unionid), (''appid'', FStr appid)]),
      ZAdd (''follow:user:'' @ unionid) (mg_score en ts)
        (mg_json en [(''scale'', FStr scale), (''appid'', FStr appid), (''ts'', FInt ts)]),
      HSet (''openid:user:'' @ unionid) appid openid,
      ZAdd (''followset:user:'' @ unionid) (mg_score en ts) appid,
      ZAdd (''followset:appid:'' @ appid) (mg_score en ts) unionid,
      ZAdd (''followset:scale:'' @ scale) (mg_score en ts)
        (mg_json en [(''unionid'', FStr unionid), (''appid'', FStr appid), (''sub_date'', FStr (mg_date en ts))])]"

definition addFollow ::
    "('d, 'r, 's, 'g) mg_env \<Rightarrow> string \<Rightarrow> string \<Rightarrow> string \<Rightarrow> string \<Rightarrow> i64 \<Rightarrow> 'r \<Rightarrow> string option \<times> 'r" where
  "addFollow en scale unionid appid openid ts = run_cmds (mg_exec en) (follow_cmds en scale unionid appid openid ts)"

definition measure_cmds :: "('d, 'r, 's, 'g) mg_env \<Rightarrow> string \<Rightarrow> 'g measure_result \<Rightarrow> 's rcmd list" where
  "measure_cmds en unionid m =
     [ZAdd (''measure:user:'' @ unionid) (mg_score en (mr_AddTime m))
        (mg_json en [(''weight'', FFloat (mr_Weight m)), (''height'', FFloat (mr_Height m)), (''bmi'', FFloat (mr_Bmi m)),
           (''scale'', FStr (mr_Scale m)), (''scale_ts'', FInt (mr_ScaleTime m)), (''add_ts'', FInt (mr_AddTime m))]),
      ZAdd (''measure:scale:'' @ mr_Scale m) (mg_score en (mr_AddTime m))
        (mg_json en [(''unionid'', FStr unionid), (''ts'', FInt (mr_AddTime m))]),
      ZAdd ''measure:all'' (mg_score en (mr_AddTime m))
        (mg_json en [(''scale'', FStr (mr_Scale m)), (''ts'', FInt (mr_AddTime m))])]"

definition addUserMeasureResult :: "('d, 'r, 's, 'g) mg_env \<Rightarrow> string \<Rightarrow> 'g measure_result \<Rightarrow> 'r \<Rightarrow> string option \<times> 'r" where
  "addUserMeasureResult en unionid m = run_cmds (mg_exec en) (measure_cmds en unionid m)"

definition IsPublicAccount :: "string \<Rightarrow> bool" where
  "IsPublicAccount id' = (length id' = 18 \<and> take 2 id' = ''wx'')"

section \<open>One record\<close>

text \<open>The variables of the package a record changes, with the server.\<close>

record 'r mg_state =
  ms_redis :: 'r
  ms_idProcessed :: i64
  ms_processed :: i64

definition ProcessedID :: string where "ProcessedID = ''ch_records_processed''"

definition setProcessedID :: "('d, 'r, 's, 'g) mg_env \<Rightarrow> i64 \<Rightarrow> 'r \<Rightarrow> 'r" where
  "setProcessedID en i r = snd (mg_exec en r (SetKey ProcessedID (FormatInt (sint i))))"

definition getProcessedID :: "('d, 'r, 's, 'g) mg_env \<Rightarrow> 'r \<Rightarrow> i64 \<times> 'r" where
  "getProcessedID en r = (case redis_GetInt64 (mg_exec en) ProcessedID 0 None r of (i, _, r') \<Rightarrow> (i, r'))"

datatype mg_error = AcMacNull i64 | ServerErr string

definition sanityCheck :: "'g ch_record \<Rightarrow> mg_error option" where
  "sanityCheck rec = (if ch_AcMac rec = [] then Some (AcMacNull (ch_ID rec)) else None)"

text \<open>The follower of a record, written after its measurement.\<close>

definition migrate_follow :: "('d, 'r, 's, 'g) mg_env \<Rightarrow> 'g ch_record \<Rightarrow> 'r \<Rightarrow> string option \<times> 'r" where
  "migrate_follow en rec r =
     (if ch_OpenID rec \<noteq> [] \<and> 0 <s ch_SubscribeTime rec then
        (case addFollow en (ch_AcMac rec) (ch_UnionID rec) (ch_AppID rec) (ch_OpenID rec) (ch_SubscribeTime rec) r of
           (Some e, r') \<Rightarrow> (Some e, r')
         | (None, r') \<Rightarrow>
             if ch_Subscribe rec = 0 then
               (if ch_UpdateTime rec \<le>s ch_SubscribeTime rec then (None, r')
                else addUnfollow en (ch_UnionID rec) (ch_AppID rec) (ch_UpdateTime rec) r')
             else (None, r'))
      else (None, r))"

text \<open>\<open>migrateToRedis\<close>: its error and the state.\<close>

definition with_union_id :: "'g ch_record \<Rightarrow> 'g ch_record" where
  "with_union_id rec = (if ch_UnionID rec = [] then rec\<lparr>ch_UnionID := FormatInt (sint (ch_WID rec))\<rparr> else rec)"

definition record_measure :: "'g ch_record \<Rightarrow> 'g measure_result" where
  "record_measure rec =
     \<lparr>mr_Weight = ch_Weight rec, mr_Height = ch_Height rec, mr_Bmi = ch_Bmi rec, mr_Scale = ch_AcMac rec,
      mr_ScaleTime = ch_ScaleTime rec, mr_AddTime = ch_AddTime rec\<rparr>"

definition migrateToRedis :: "('d, 'r, 's, 'g) mg_env \<Rightarrow> 'g ch_record \<Rightarrow> 'r mg_state \<Rightarrow> mg_error option \<times> 'r mg_state" where
  "migrateToRedis en rec0 st =
     (let rec = with_union_id rec0 in
      case sanityCheck rec of
        Some e \<Rightarrow> (Some e, st)
      | None \<Rightarrow>
          (case addUserMeasureResult en (ch_UnionID rec) (record_measure rec) (ms_redis st) of
             (Some e, r) \<Rightarrow> (Some (ServerErr e), st\<lparr>ms_redis := r\<rparr>)
           | (None, r) \<Rightarrow>
               (case migrate_follow en rec r of
                  (Some e, r) \<Rightarrow> (Some (ServerErr e), st\<lparr>ms_redis := r\<rparr>)
                | (None, r) \<Rightarrow>
                    let n = ms_processed st + 1 in
                    (None,
                     \<lparr>ms_redis = (if sint n smod 1000 = 0 then setProcessedID en (ch_ID rec) r else r),
                      ms_idProcessed = ch_ID rec, ms_processed = n\<rparr>))))"

definition onRow :: "('d, 'r, 's, 'g) mg_env \<Rightarrow> string option list \<Rightarrow> 'r mg_state \<Rightarrow> 'r mg_state" where
  "onRow en row st = snd (migrateToRedis en (ch_of_row en row) st)"

section \<open>The batches\<close>

definition batch_cond :: "i64 \<Rightarrow> string" where
  "batch_cond i = ''where id > '' @ FormatInt (sint i) @ '' order by id asc limit 1000''"

text \<open>
  The loop of \<open>main\<close>; \<open>ctx k n\<close> tells whether the context is cancelled when row \<open>n\<close> of batch \<open>k\<close> is
  about to be scanned. The loop ends with an error of \<open>StructScan\<close> only, and may go on for ever.
\<close>

partial_function (option) migrate_loop ::
    "('d, 'r, 's, 'g) mg_env \<Rightarrow> data_table \<Rightarrow> (nat \<Rightarrow> nat \<Rightarrow> bool) \<Rightarrow> nat \<Rightarrow> 'r mg_state \<Rightarrow> 'r mg_state option" where
  "migrate_loop en t ctx k st =
     (case StructScan (mg_db en) (mg_data en) (ctx k) (dt_Name t) (batch_cond (ms_idProcessed st)) (Some ch_record_fields) [] of
        (calls, contents, err) \<Rightarrow>
          let st' = fold (onRow en) calls st in
          (case err of Some e \<Rightarrow> Some st' | None \<Rightarrow> migrate_loop en t ctx (Suc k) st'))"

text \<open>
  \<open>main\<close>, with the error of connecting to the database and that of a ping of the Redis server. A failure
  at the start panics.
\<close>

definition migrate_main ::
    "('d, 'r, 's, 'g) mg_env \<Rightarrow> string option \<Rightarrow> (redis_options \<Rightarrow> string option) \<Rightarrow> string \<Rightarrow> (nat \<Rightarrow> nat \<Rightarrow> bool) \<Rightarrow>
     'r \<Rightarrow> 'r mg_state outcome option" where
  "migrate_main en connectErr ping redisAddr ctx r =
     (case connectErr of
        Some e \<Rightarrow> Some Panics
      | None \<Rightarrow>
          (case GetTable (mg_db en) (mg_data en) ''wifi_ch_records'' of
             Inl e \<Rightarrow> Some Panics
           | Inr t \<Rightarrow>
               (case NewClient ping (Some (DefaultOption\<lparr>ro_Addr := redisAddr\<rparr>)) of
                  Inl e \<Rightarrow> Some Panics
                | Inr c \<Rightarrow>
                    (case getProcessedID en r of
                       (i, r') \<Rightarrow>
                         map_option (\<lambda>st. Returns (st\<lparr>ms_redis := setProcessedID en (ms_idProcessed st) (ms_redis st)\<rparr>))
                           (migrate_loop en t ctx 0 \<lparr>ms_redis = r', ms_idProcessed = i, ms_processed = 0\<rparr>)))))"

section \<open>What the database and the server answer\<close>

text \<open>
  The columns of a \<open>ch_record\<close> are all selected, so that a row fills every field: the struct that is
  reused for the rows keeps nothing of the row before.
\<close>

lemma ch_record_columns:
  "\<exists>cols. scan_columns False 0 ch_record_fields = Inr cols \<and> map fst cols = [0..<14]"
proof -
  have "case scan_columns False 0 ch_record_fields of Inl e \<Rightarrow> False | Inr cols \<Rightarrow> map fst cols = [0..<14]"
    by code_simp
  then show ?thesis by (auto split: sum.splits)
qed

lemma store_row_all: "length vals = n \<Longrightarrow> length cur = n \<Longrightarrow> store_row [0..<n] vals cur = vals"
proof -
  assume n: "length vals = n" "length cur = n"
  have "store_row [0..<k] (take k vals) cur = take k vals @ drop k cur" if "k \<le> n" for k
    using that
  proof (induction k)
    case (Suc k)
    then have "zip [0..<Suc k] (take (Suc k) vals) = zip [0..<k] (take k vals) @ [(k, vals ! k)]"
      using n by (simp add: take_Suc_conv_app_nth)
    with Suc n show ?case
      by (simp add: store_row_def list_update_append take_Suc_conv_app_nth Cons_nth_drop_Suc [symmetric, of k cur])
  qed (simp add: store_row_def)
  from this [of n] n show ?thesis by simp
qed

lemma scan_loop_rows:
  "(\<And>k. \<not> ctx k) \<Longrightarrow> (\<And>r. r \<in> set rows \<Longrightarrow> length r = m) \<Longrightarrow> length cur = m \<Longrightarrow>
   \<exists>contents. scan_loop ctx [0..<m] n cur (map Inr rows) = (rows, contents, None)"
proof (induction rows arbitrary: n cur)
  case (Cons r rows)
  have s: "store_row [0..<m] r cur = r" using Cons.prems by (intro store_row_all) auto
  from Cons.prems(1,2) have "\<exists>contents. scan_loop ctx [0..<m] (Suc n) r (map Inr rows) = (rows, contents, None)"
    by (intro Cons.IH) auto
  then obtain contents where "scan_loop ctx [0..<m] (Suc n) r (map Inr rows) = (rows, contents, None)" by blast
  with Cons.prems(1) [of n] s show ?case by simp
qed simp

text \<open>
  The documented answer of MySQL to the query of a batch, for a table \<open>tbl\<close> in the order of its
  identifiers: its first 1000 rows with a larger identifier.
\<close>

definition row_id :: "string option list \<Rightarrow> i64" where
  "row_id vals = column_int vals 0"

definition rows_after :: "string option list list \<Rightarrow> i64 \<Rightarrow> string option list list" where
  "rows_after tbl i = filter (\<lambda>r. i <s row_id r) tbl"

definition select_batch :: "string \<Rightarrow> i64 \<Rightarrow> string" where
  "select_batch name i =
     ''select '' @ str_join '','' (case scan_columns False 0 ch_record_fields of Inr cols \<Rightarrow> map snd cols | Inl e \<Rightarrow> [])
     @ '' from '' @ name @ '' '' @ batch_cond i"

definition answers_batches :: "('d, 'r, 's, 'g) mg_env \<Rightarrow> string \<Rightarrow> string option list list \<Rightarrow> bool" where
  "answers_batches en name tbl \<longleftrightarrow>
     (\<forall>i. db_prepare (mg_db en) (mg_data en) (select_batch name i) = None
        \<and> (\<exists>rows. db_query (mg_db en) (mg_data en) (select_batch name i) [] = Inr rows
             \<and> rw_Rows rows = map Inr (take 1000 (rows_after tbl i))))"

definition by_id :: "string option list list \<Rightarrow> bool" where
  "by_id tbl \<longleftrightarrow> sorted_wrt (\<lambda>a b. row_id a <s row_id b) tbl \<and> (\<forall>r \<in> set tbl. length r = 14)"

lemma StructScan_batch:
  assumes "answers_batches en name tbl" "by_id tbl" "\<And>k. \<not> ctx k"
  shows "\<exists>contents err. StructScan (mg_db en) (mg_data en) ctx name (batch_cond i) (Some ch_record_fields) [] =
      (take 1000 (rows_after tbl i), contents, err) \<and> (err = None \<longleftrightarrow> rows_after tbl i \<noteq> [])"
proof -
  let ?b = "take 1000 (rows_after tbl i)"
  obtain cols where cols: "scan_columns False 0 ch_record_fields = Inr cols" "map fst cols = [0..<14]"
    using ch_record_columns by blast
  then have q: "''select '' @ str_join '','' (map snd cols) @ '' from '' @ name @ '' '' @ batch_cond i = select_batch name i"
    by (simp add: select_batch_def)
  from assms(1) obtain rows where rows: "db_prepare (mg_db en) (mg_data en) (select_batch name i) = None"
    "db_query (mg_db en) (mg_data en) (select_batch name i) [] = Inr rows" "rw_Rows rows = map Inr ?b"
    by (auto simp: answers_batches_def)
  have len: "length ch_record_fields = 14" by (simp add: ch_record_fields_def)
  then obtain f fs where cons: "ch_record_fields = f # fs" by (cases ch_record_fields) auto
  have "\<exists>contents. scan_loop ctx [0..<14] 0 (replicate 14 (Some [])) (map Inr ?b) = (?b, contents, None)"
    using assms(2,3) by (intro scan_loop_rows) (auto simp: by_id_def rows_after_def dest: in_set_takeD)
  then obtain contents where loop: "scan_loop ctx [0..<14] 0 (replicate 14 (Some [])) (map Inr ?b) = (?b, contents, None)" by blast
  have "StructScan (mg_db en) (mg_data en) ctx name (batch_cond i) (Some ch_record_fields) [] =
      (if map Inr ?b = ([] :: (string + string option list) list) then ([], replicate 14 (Some []), Some NoRows)
       else scan_loop ctx [0..<14] 0 (replicate 14 (Some [])) (map Inr ?b))"
    unfolding StructScan_def cons
    by (simp del: scan_loop.simps scan_columns.simps append.simps length_Cons replicate.simps list.size
        add: cols [unfolded cons] len [unfolded cons] Let_def q rows)
  with loop show ?thesis by auto
qed

section \<open>When the migration ends\<close>

definition has_acmac :: "string option list \<Rightarrow> bool" where
  "has_acmac row \<longleftrightarrow> column_text row 1 \<noteq> []"

definition never_fails :: "('r, 's) rserver \<Rightarrow> bool" where
  "never_fails ex \<longleftrightarrow> (\<forall>r c. \<not> isl (fst (ex r c)))"

lemma onRow_rejected: "\<not> has_acmac row \<Longrightarrow> onRow en row st = st"
  by (simp add: onRow_def migrateToRedis_def Let_def sanityCheck_def has_acmac_def ch_of_row_def with_union_id_def)

lemma migrate_follow_ok:
  assumes "never_fails (mg_exec en)"
  shows "fst (migrate_follow en rec r) = None"
  using assms
  by (auto simp: never_fails_def migrate_follow_def addFollow_def addUnfollow_def run_cmds_no_error split: prod.split)

lemma onRow_accepted:
  assumes "never_fails (mg_exec en)" "has_acmac row"
  shows "ms_idProcessed (onRow en row st) = row_id row \<and> ms_processed (onRow en row st) = ms_processed st + 1"
proof -
  let ?rec = "with_union_id (ch_of_row en row)"
  have id: "ch_ID ?rec = row_id row" "ch_AcMac ?rec \<noteq> []"
    using assms(2) by (simp_all add: with_union_id_def ch_of_row_def row_id_def has_acmac_def)
  have m: "fst (addUserMeasureResult en (ch_UnionID ?rec) (record_measure ?rec) r) = None" for r
    using assms(1) by (simp add: addUserMeasureResult_def run_cmds_no_error never_fails_def)
  from m [of "ms_redis st"] obtain r where r: "addUserMeasureResult en (ch_UnionID ?rec) (record_measure ?rec) (ms_redis st) = (None, r)"
    by (metis prod.collapse)
  from migrate_follow_ok [OF assms(1)] obtain r' where "migrate_follow en ?rec r = (None, r')"
    by (metis prod.collapse)
  with r id show ?thesis by (simp add: onRow_def migrateToRedis_def Let_def sanityCheck_def)
qed

lemma fold_rejected: "(\<And>r. r \<in> set rows \<Longrightarrow> \<not> has_acmac r) \<Longrightarrow> fold (onRow en) rows st = st"
  by (induction rows arbitrary: st) (auto simp: onRow_rejected)

text \<open>Among any 1000 rows in sequence, and among the last ones, there is one that can be migrated.\<close>

definition progresses :: "string option list list \<Rightarrow> bool" where
  "progresses rows \<longleftrightarrow> (\<forall>i < length rows. \<exists>r \<in> set (take 1000 (drop i rows)). has_acmac r)"

lemma progresses_drop:
  assumes "n \<le> 1000" "n \<le> length rows" "0 < n" "has_acmac (rows ! (n - 1))"
  shows "progresses rows \<longleftrightarrow> progresses (drop n rows)"
proof
  assume p: "progresses rows"
  show "progresses (drop n rows)"
    unfolding progresses_def
  proof (intro allI impI)
    fix i assume "i < length (drop n rows)"
    then have "n + i < length rows" by simp
    with p show "\<exists>r \<in> set (take 1000 (drop i (drop n rows))). has_acmac r"
      by (simp add: progresses_def add.commute)
  qed
next
  assume p: "progresses (drop n rows)"
  show "progresses rows"
    unfolding progresses_def
  proof (intro allI impI)
    fix i assume i: "i < length rows"
    show "\<exists>r \<in> set (take 1000 (drop i rows)). has_acmac r"
    proof (cases "i < n")
      case True
      then have "rows ! (n - 1) = take 1000 (drop i rows) ! (n - 1 - i)" "n - 1 - i < length (take 1000 (drop i rows))"
        using assms(1-3) i by auto
      with assms(4) show ?thesis by (metis nth_mem)
    next
      case False
      then have "drop i rows = drop (i - n) (drop n rows)" "i - n < length (drop n rows)" using i by auto
      with p show ?thesis by (auto simp: progresses_def)
    qed
  qed
qed

lemma rows_after_row:
  assumes "by_id tbl" "rows_after tbl i = xs @ g # ys"
  shows "rows_after tbl (row_id g) = ys"
proof -
  have g: "i <s row_id g" using arg_cong [OF assms(2), of set] by (auto simp: rows_after_def)
  have "sorted_wrt (\<lambda>a b. row_id a <s row_id b) (xs @ g # ys)"
    using assms(1) sorted_wrt_filter by (auto simp: by_id_def rows_after_def assms(2) [symmetric])
  then have "filter (\<lambda>r. row_id g <s row_id r) (xs @ g # ys) = ys"
    by (auto simp: sorted_wrt_append filter_empty_conv filter_id_conv i64_order)
  moreover have "rows_after tbl (row_id g) = filter (\<lambda>r. row_id g <s row_id r) (rows_after tbl i)"
    using g by (auto simp: rows_after_def i64_order intro!: filter_cong)
  ultimately show ?thesis using assms(2) by simp
qed

lemma migrate_loop_stuck:
  assumes "answers_batches en (dt_Name t) tbl" "by_id tbl" "\<And>k n. \<not> ctx k n"
    and "rows_after tbl (ms_idProcessed st) \<noteq> []" "\<And>r. r \<in> set (take 1000 (rows_after tbl (ms_idProcessed st))) \<Longrightarrow> \<not> has_acmac r"
  shows "migrate_loop en t ctx k st = None"
proof (rule ccontr)
  assume "migrate_loop en t ctx k st \<noteq> None"
  then obtain x where "migrate_loop en t ctx k st = Some x" by blast
  moreover have "st' \<noteq> st" if "migrate_loop en t ctx k st' = Some x" for st'
  proof (rule migrate_loop.raw_induct [of "\<lambda>en' t' ctx' k st' x. en' = en \<and> t' = t \<and> ctx' = ctx \<longrightarrow> st' \<noteq> st", OF _ that, simplified])
    fix loop en' t' ctx' k st' y
    assume IH: "\<And>en' t' ctx' k st' y. loop en' t' ctx' k st' = Some y \<Longrightarrow> en' = en \<and> t' = t \<and> ctx' = ctx \<longrightarrow> st' \<noteq> st"
      and run: "(case StructScan (mg_db en') (mg_data en') (ctx' k) (dt_Name t') (batch_cond (ms_idProcessed st')) (Some ch_record_fields) [] of
        (calls, contents, err) \<Rightarrow>
          let st' = fold (onRow en') calls st' in (case err of None \<Rightarrow> loop en' t' ctx' (Suc k) st' | Some e \<Rightarrow> Some st')) = Some y"
    show "en' = en \<and> t' = t \<and> ctx' = ctx \<longrightarrow> st' \<noteq> st"
    proof (intro impI notI, elim conjE)
      assume eq: "en' = en" "t' = t" "ctx' = ctx" "st' = st"
      from StructScan_batch [OF assms(1,2), of "ctx k" "ms_idProcessed st"] assms(3,4)
      obtain contents where "StructScan (mg_db en) (mg_data en) (ctx k) (dt_Name t) (batch_cond (ms_idProcessed st)) (Some ch_record_fields) [] =
          (take 1000 (rows_after tbl (ms_idProcessed st)), contents, None)" by blast
      moreover have "fold (onRow en) (take 1000 (rows_after tbl (ms_idProcessed st))) st = st"
        by (rule fold_rejected [OF assms(5)])
      ultimately have "loop en t ctx (Suc k) st = Some y" using run eq by simp
      with IH show False by blast
    qed
  qed
  ultimately show False by blast
qed

text \<open>
  C7. The batches of the migration against one pass over the table. With a server that answers every
  command, a table in the order of its identifiers that MySQL answers the queries from, and no signal: if among
  any 1000 rows in sequence that are left, and among the last ones, there is one with a MAC address, the
  loop returns with what migrating all the rows left in one pass gives, each exactly once; if not, the loop
  never returns, and asks for the same batch for ever.
\<close>

theorem migration_result:
  assumes "answers_batches en (dt_Name t) tbl" "by_id tbl" "\<And>k n. \<not> ctx k n" "never_fails (mg_exec en)"
  shows "migrate_loop en t ctx k st =
    (if progresses (rows_after tbl (ms_idProcessed st)) then Some (fold (onRow en) (rows_after tbl (ms_idProcessed st)) st) else None)"
proof (induction "length (rows_after tbl (ms_idProcessed st))" arbitrary: k st rule: less_induct)
  case less
  let ?rows = "rows_after tbl (ms_idProcessed st)"
  from StructScan_batch [OF assms(1,2), of "ctx k" "ms_idProcessed st"] assms(3)
  obtain contents err where scan: "StructScan (mg_db en) (mg_data en) (ctx k) (dt_Name t) (batch_cond (ms_idProcessed st)) (Some ch_record_fields) [] =
      (take 1000 ?rows, contents, err)" "err = None \<longleftrightarrow> ?rows \<noteq> []" by blast
  consider "?rows = []" | "?rows \<noteq> []" "\<And>r. r \<in> set (take 1000 ?rows) \<Longrightarrow> \<not> has_acmac r"
    | ys g zs where "take 1000 ?rows = ys @ g # zs" "has_acmac g" "\<And>z. z \<in> set zs \<Longrightarrow> \<not> has_acmac z"
    using split_list_last_prop [of "take 1000 ?rows" has_acmac] by blast
  then show ?case
  proof cases
    case 1
    with scan show ?thesis by (subst migrate_loop.simps) (auto simp: progresses_def)
  next
    case 2
    then have "\<not> progresses ?rows" by (auto simp: progresses_def intro!: exI [of _ 0])
    with migrate_loop_stuck [OF assms(1-3) 2] show ?thesis by simp
  next
    case 3
    let ?st = "fold (onRow en) (ys @ [g]) st"
    define rest where "rest = drop 1000 ?rows"
    have rows: "?rows = ys @ g # zs @ rest" using 3(1) append_take_drop_id [of 1000 ?rows] by (simp add: rest_def)
    have idp: "ms_idProcessed ?st = row_id g" using onRow_accepted [OF assms(4) 3(2)] by simp
    then have left: "rows_after tbl (ms_idProcessed ?st) = zs @ rest" using rows_after_row [OF assms(2) rows] by simp
    have after: "fold (onRow en) (take 1000 ?rows) st = ?st" using 3(1) fold_rejected [OF 3(3)] by simp
    have "length ys < 1000" using arg_cong [OF 3(1), of length] by simp
    then have "progresses ?rows \<longleftrightarrow> progresses (zs @ rest)"
      using progresses_drop [of "Suc (length ys)" ?rows] 3(2) by (simp add: rows nth_append)
    moreover have "fold (onRow en) ?rows st = fold (onRow en) (zs @ rest) ?st" by (simp add: rows)
    moreover have "migrate_loop en t ctx k st = migrate_loop en t ctx (Suc k) ?st"
      using scan rows after by (subst migrate_loop.simps) simp
    ultimately show ?thesis using less [of ?st "Suc k"] left rows by simp
  qed
qed

text \<open>A database that holds a table and reads the identifier in the query, and a server that logs the commands.\<close>

definition query_prefix :: "string \<Rightarrow> string" where
  "query_prefix name =
     ''select '' @ str_join '','' (case scan_columns False 0 ch_record_fields of Inr cols \<Rightarrow> map snd cols | Inl e \<Rightarrow> [])
     @ '' from '' @ name @ '' where id > ''"

definition query_id :: "string \<Rightarrow> string \<Rightarrow> i64" where
  "query_id name q =
     (case ParseInt (takeWhile (\<lambda>c. c \<noteq> CHR '' '') (drop (length (query_prefix name)) q)) of Inr v \<Rightarrow> word_of_int v | Inl e \<Rightarrow> 0)"

definition table_env :: "string \<Rightarrow> string option list list \<Rightarrow> (string option list list, i64 rcmd list, i64, nat) mg_env" where
  "table_env name tbl =
     \<lparr>mg_db = \<lparr>db_prepare = (\<lambda>d q. None), db_exec = (\<lambda>d q args. (Inr 0, d)),
        db_query = (\<lambda>d q args. Inr \<lparr>rw_Columns = [], rw_Rows = map Inr (take 1000 (rows_after d (query_id name q))), rw_Err = None\<rparr>),
        db_begin = (\<lambda>d. None), db_commit = (\<lambda>d. (None, d)), db_rollback = (\<lambda>d. d)\<rparr>,
      mg_data = tbl, mg_exec = (\<lambda>r c. (Inr ''OK'', r @ [c])), mg_json = (\<lambda>s. concat (map fst s)), mg_score = (\<lambda>t. t),
      mg_date = (\<lambda>t. ''2018-01-01''), mg_float = length\<rparr>"

lemma space_not_in_FormatInt: "CHR '' '' \<notin> set (FormatInt v)"
proof -
  have "CHR '' '' \<noteq> digit_char d" if "d < 10" for d
    using that by (auto simp: digit_char_def dest!: arg_cong [of _ _ "of_char :: char \<Rightarrow> nat"])
  then have "CHR '' '' \<notin> digit_char ` {..<10}" by blast
  then have "CHR '' '' \<notin> set (nat_digits n)" for n using set_nat_digits by blast
  then show ?thesis by (simp add: FormatInt_def)
qed

lemma query_id_select_batch: "query_id name (select_batch name i) = i"
proof -
  have "select_batch name i = query_prefix name @ FormatInt (sint i) @ '' order by id asc limit 1000''"
    by (simp add: select_batch_def query_prefix_def batch_cond_def)
  moreover have "takeWhile (\<lambda>c. c \<noteq> CHR '' '') (FormatInt (sint i) @ CHR '' '' # rest) = FormatInt (sint i)" for rest
    using space_not_in_FormatInt [of "sint i"] by (subst takeWhile_append2) auto
  moreover have "in_i64 (sint i)" using sint_range_size [of i] by (simp add: in_i64_def word_size)
  ultimately show ?thesis by (simp add: query_id_def ParseInt_FormatInt)
qed

lemma table_env_answers: "answers_batches (table_env name tbl) name tbl"
  by (simp add: answers_batches_def table_env_def query_id_select_batch)

lemma table_env_never_fails: "never_fails (mg_exec (table_env name tbl))"
  by (simp add: never_fails_def table_env_def)

definition demo_row :: "string \<Rightarrow> string \<Rightarrow> string option list" where
  "demo_row i mac = map Some [i, mac, ''7'', ''wx1'', ''o1'', ''u1'', ''170'', ''60'', ''20'', ''1'', ''5'', ''4'', ''4'', ''6'']"

theorem migration_result_witness:
  "migrate_loop (table_env ''t'' [demo_row ''1'' [], demo_row ''2'' ''mac'']) \<lparr>dt_Name = ''t'', dt_CreateStatement = []\<rparr> (\<lambda>k n. False) 0
     \<lparr>ms_redis = [], ms_idProcessed = 0, ms_processed = 0\<rparr> \<noteq> None
   \<and> migrate_loop (table_env ''t'' [demo_row ''1'' ''mac'', demo_row ''2'' []]) \<lparr>dt_Name = ''t'', dt_CreateStatement = []\<rparr> (\<lambda>k n. False) 0
     \<lparr>ms_redis = [], ms_idProcessed = 0, ms_processed = 0\<rparr> = None"
proof -
  let ?t = "\<lparr>dt_Name = ''t'', dt_CreateStatement = []\<rparr>"
  let ?A = "[demo_row ''1'' [], demo_row ''2'' ''mac'']" and ?B = "[demo_row ''1'' ''mac'', demo_row ''2'' []]"
  have ids: "row_id (demo_row ''1'' m) = 1" "row_id (demo_row ''2'' m) = 2" "column_text (demo_row i m) 1 = m" "length (demo_row i m) = 14" for i m
    by (simp_all add: row_id_def demo_row_def column_int_def column_text_def ParseInt_def char_digit_def word_sless_alt)
  have rows: "by_id ?A" "by_id ?B" "progresses (rows_after ?A 0)" "\<not> progresses (rows_after ?B 0)"
    by (auto simp: by_id_def rows_after_def progresses_def ids ids(3) [simplified] has_acmac_def less_Suc_eq word_sless_alt intro!: exI [of _ 1])
  have ans: "answers_batches (table_env ''t'' tbl) (dt_Name ?t) tbl" for tbl by (simp add: table_env_answers)
  from migration_result [OF ans rows(1) _ table_env_never_fails, of "\<lambda>k n. False" 0 "\<lparr>ms_redis = [], ms_idProcessed = 0, ms_processed = 0\<rparr>"]
    migration_result [OF ans rows(2) _ table_env_never_fails, of "\<lambda>k n. False" 0 "\<lparr>ms_redis = [], ms_idProcessed = 0, ms_processed = 0\<rparr>"] rows(3,4)
  show ?thesis by simp
qed

end
