(* ===== verification/DLManager.thy ===== *)
theory DLManager
  imports IOHelper GoPaths "HOL-Library.Sublist" "HOL-Library.Multiset"
begin

text \<open>
  \<open>dlmgr\<close>: a queue of downloads and the worker that fetches them. The functional parts are what a worker
  does with a file that exists and with the body of a reply; around them the queue, the worker, its requests and
  contexts are a step relation. The hash, the file system, parsing of an URL and building of a request are
  arguments.
\<close>

section \<open>Downloads\<close>

datatype dl_callback = DefaultDLCallBack | UserCallBack nat

record content_dl =
  dl_Hashsum :: "byte list"
  dl_URL :: string
  dl_Name :: string
  dl_Timeout :: i64
  dl_cb :: dl_callback
  dl_basename :: string

datatype dl_error =
    Existed content_dl | BadURL | NotCancellable string | NotFound string
  | FileErr file_error | RequestErr | ClientErr string | CtxDone

record dl_env =
  de_md5 :: "byte list \<Rightarrow> byte list"
  de_can_open :: "string \<Rightarrow> bool"
  de_can_create :: "string \<Rightarrow> bool"
  de_url_path :: "string \<Rightarrow> string option"
  de_request :: "string \<Rightarrow> bool"
  de_Dir :: string

text \<open>\<open>NewDownloader\<close>: the directory of the downloads.\<close>

definition DefaultDownloadPath :: string where "DefaultDownloadPath = ''/var/downloads/''"

definition download_dir :: "(string \<Rightarrow> bool) \<Rightarrow> (string \<Rightarrow> bool) \<Rightarrow> string \<Rightarrow> string \<Rightarrow> string" where
  "download_dir is_dir mkdir_ok temp dlPath =
     (if is_dir dlPath then dlPath else if mkdir_ok DefaultDownloadPath then DefaultDownloadPath else temp)"

section \<open>A worker's file\<close>

text \<open>
  The start of \<open>get\<close>: an existing file is read into a buffer through a source without filters; the hash
  that is made is not put into the chain, and the hex form of the contents is compared. The result says whether
  \<open>get\<close> returns, and with what.
\<close>

definition get_local :: "dl_env \<Rightarrow> file_system \<Rightarrow> string \<Rightarrow> content_dl \<Rightarrow> dl_error option option outcome option" where
  "get_local en fs fp dl =
     (case fs fp of
        None \<Rightarrow> Some (Returns None)
      | Some data \<Rightarrow>
          if \<not> de_can_open en fp then Some (Returns (Some (Some (FileErr OpenFailed))))
          else
            on_return (pump_file (de_md5 en) [] (bytes_NewReader data))
              (\<lambda>((n, err), src, snk). case err of
                 Some e \<Rightarrow> Some (Some (FileErr (PumpFailed e)))
               | None \<Rightarrow> if hex_encode (snk_writer snk) = dl_Hashsum dl then Some None else None))"

text \<open>The end of \<open>get\<close>: the body is written to the file, with a hash in the chain when a sum is expected.\<close>

definition get_store ::
    "dl_env \<Rightarrow> file_system \<Rightarrow> string \<Rightarrow> content_dl \<Rightarrow> chunk_reader \<Rightarrow> (dl_error option \<times> file_system) outcome option" where
  "get_store en fs fp dl body =
     (if \<not> de_can_create en fp then Some (Returns (Some (FileErr CreateFailed), fs))
      else
        let hashed = (dl_Hashsum dl \<noteq> []) in
        on_return (pump_file (de_md5 en) (if hashed then [NewHash True] else []) body)
          (\<lambda>((n, err), src, snk).
             let fs' = fs(fp \<mapsto> snk_writer snk) in
             case err of
               Some e \<Rightarrow> (Some (FileErr (PumpFailed e)), fs')
             | None \<Rightarrow>
                 if hashed then
                   (let got = hex_encode (de_md5 en (written (hd (src_filters src)))) in
                    (if got \<noteq> dl_Hashsum dl then Some (FileErr (BadSum got)) else None, fs'))
                 else (None, fs')))"

section \<open>The queue and the worker\<close>

text \<open>
  Where the worker is: waiting for the queue, at the start of \<open>get\<close>, waiting for its context, writing the
  body of the reply, or about to call the callback. \<open>w.Job\<close> is set in all but the first.
\<close>

datatype dl_phase =
    WIdle
  | WStart content_dl
  | WWait content_dl nat
  | WStore content_dl chunk_reader
  | WEnd content_dl "dl_error option"

fun phase_job :: "dl_phase \<Rightarrow> content_dl option" where
  "phase_job WIdle = None"
| "phase_job (WStart dl) = Some dl"
| "phase_job (WWait dl n) = Some dl"
| "phase_job (WStore dl body) = Some dl"
| "phase_job (WEnd dl r) = Some dl"

text \<open>
  A context is known by its number; \<open>w_Cancel\<close> is the context that \<open>w.Cancel\<close> cancels. \<open>dm_reqs\<close> are the
  requests that \<open>http.DefaultClient.Do\<close> works on, \<open>dm_cancels\<close> counts the goroutines that have its result and
  are about to call \<open>w.Cancel\<close>. \<open>dm_senders\<close> are the callers of \<open>Download\<close> about to send to the channel \<open>c\<close>. The last
  three fields record what has been sent, called back and removed.

  Receiving from the channel and \<open>EnQueue\<close> are one step, and so are the two parts of \<open>CancelDownload\<close>.
\<close>

record dl_state =
  dm_Q :: "content_dl list"
  dm_c :: "content_dl list"
  dm_senders :: "content_dl list"
  dm_fs :: file_system
  dm_phase :: dl_phase
  dm_reply :: "(string + chunk_reader) option"
  w_Cancel :: "nat option"
  dm_done :: "nat set"
  dm_next :: nat
  dm_reqs :: "nat list"
  dm_cancels :: nat
  dm_crashed :: bool
  dm_accepted :: "content_dl list"
  dm_called :: "(content_dl \<times> dl_error option) list"
  dm_removed :: "content_dl list"

definition NewDownloader :: "file_system \<Rightarrow> dl_state" where
  "NewDownloader fs =
     \<lparr>dm_Q = [], dm_c = [], dm_senders = [], dm_fs = fs, dm_phase = WIdle, dm_reply = None, w_Cancel = None, dm_done = {}, dm_next = 0,
      dm_reqs = [], dm_cancels = 0, dm_crashed = False, dm_accepted = [], dm_called = [], dm_removed = []\<rparr>"

definition queue_cap :: nat where "queue_cap = 8"

text \<open>Calling \<open>w.Cancel\<close>, a nil function when it is not set.\<close>

definition call_Cancel :: "dl_state \<Rightarrow> dl_state" where
  "call_Cancel s =
     (case w_Cancel s of
        None \<Rightarrow> s\<lparr>dm_crashed := True\<rparr>
      | Some n \<Rightarrow> s\<lparr>dm_done := insert n (dm_done s)\<rparr>)"

definition ClearQueue :: "dl_state \<Rightarrow> dl_state" where
  "ClearQueue s = s\<lparr>dm_Q := [], dm_removed := dm_removed s @ dm_Q s\<rparr>"

definition StopAllWorker :: "dl_state \<Rightarrow> dl_state" where
  "StopAllWorker s = (if phase_job (dm_phase s) \<noteq> None \<and> w_Cancel s \<noteq> None then call_Cancel s else s)"

fun find_name :: "string \<Rightarrow> content_dl list \<Rightarrow> (content_dl \<times> content_dl list) option" where
  "find_name name [] = None"
| "find_name name (e # es) =
     (if dl_Name e = name then Some (e, es)
      else case find_name name es of None \<Rightarrow> None | Some (x, rest) \<Rightarrow> Some (x, e # rest))"

definition CancelDownload :: "string \<Rightarrow> dl_state \<Rightarrow> dl_error option \<times> dl_state" where
  "CancelDownload name s =
     (case find_name name (dm_Q s) of
        Some (e, rest) \<Rightarrow> (None, s\<lparr>dm_Q := rest, dm_removed := dm_removed s @ [e]\<rparr>)
      | None \<Rightarrow>
          (case phase_job (dm_phase s) of
             Some job \<Rightarrow>
               if dl_Name job = name then
                 (if w_Cancel s \<noteq> None then (None, call_Cancel s) else (Some (NotCancellable name), s))
               else (Some (NotFound name), s)
           | None \<Rightarrow> (Some (NotFound name), s)))"

text \<open>
  \<open>Download\<close>: an error, or what is sent to the channel. The lock is not held during the send, which waits while
  the channel is full.
\<close>

definition Download_check :: "dl_env \<Rightarrow> content_dl \<Rightarrow> nat option \<Rightarrow> dl_state \<Rightarrow> dl_error + content_dl" where
  "Download_check en v cb s =
     (case find_name (dl_Name v) (dm_Q s) of
        Some (e, rest) \<Rightarrow> Inl (Existed e)
      | None \<Rightarrow>
          (case de_url_path en (dl_URL v) of
             None \<Rightarrow> Inl BadURL
           | Some p \<Rightarrow>
               let b = path_Base p in
               Inr (v\<lparr>dl_cb := (case cb of None \<Rightarrow> DefaultDLCallBack | Some k \<Rightarrow> UserCallBack k),
                      dl_basename := (if b = ''.'' \<or> b = ''/'' then dl_Name v else b)\<rparr>)))"

definition Download :: "dl_env \<Rightarrow> content_dl \<Rightarrow> nat option \<Rightarrow> dl_state \<Rightarrow> dl_error option \<times> dl_state" where
  "Download en v cb s =
     (case Download_check en v cb s of
        Inl e \<Rightarrow> (Some e, s)
      | Inr v' \<Rightarrow> (None, s\<lparr>dm_senders := dm_senders s @ [v']\<rparr>))"

definition Download_send :: "nat \<Rightarrow> dl_state \<Rightarrow> dl_state option" where
  "Download_send k s =
     (if k < length (dm_senders s) \<and> length (dm_c s) < queue_cap then
        (let v = dm_senders s ! k in
         Some (s\<lparr>dm_senders := take k (dm_senders s) @ drop (Suc k) (dm_senders s),
                 dm_c := dm_c s @ [v], dm_accepted := dm_accepted s @ [v]\<rparr>))
      else None)"

text \<open>One turn of \<open>queueLoop\<close>, with \<open>EnQueue\<close>.\<close>

definition EnQueue :: "content_dl \<Rightarrow> dl_state \<Rightarrow> dl_state" where
  "EnQueue dl s = s\<lparr>dm_Q := dm_Q s @ [dl]\<rparr>"

definition queueLoop_turn :: "dl_state \<Rightarrow> dl_state option" where
  "queueLoop_turn s = (case dm_c s of [] \<Rightarrow> None | dl # c' \<Rightarrow> Some (EnQueue dl (s\<lparr>dm_c := c'\<rparr>)))"

text \<open>\<open>Work\<close>: the next job.\<close>

definition take_job :: "dl_state \<Rightarrow> dl_state option" where
  "take_job s =
     (case (dm_phase s, dm_Q s) of
        (WIdle, dl # q) \<Rightarrow> Some (s\<lparr>dm_Q := q, dm_phase := WStart dl\<rparr>)
      | _ \<Rightarrow> None)"

text \<open>\<open>get\<close> up to the wait for the context; the request is started without the context.\<close>

definition job_path :: "dl_env \<Rightarrow> content_dl \<Rightarrow> string" where
  "job_path en dl = path_Join [de_Dir en, dl_basename dl]"

definition start_job :: "dl_env \<Rightarrow> dl_state \<Rightarrow> dl_state option" where
  "start_job en s =
     (case dm_phase s of
        WStart dl \<Rightarrow>
          (case get_local en (dm_fs s) (job_path en dl) dl of
             None \<Rightarrow> None
           | Some Panics \<Rightarrow> Some (s\<lparr>dm_crashed := True\<rparr>)
           | Some (Returns (Some r)) \<Rightarrow> Some (s\<lparr>dm_phase := WEnd dl r\<rparr>)
           | Some (Returns None) \<Rightarrow>
               if \<not> de_request en (dl_URL dl) then Some (s\<lparr>dm_phase := WEnd dl (Some RequestErr)\<rparr>)
               else
                 Some (s\<lparr>dm_phase := WWait dl (dm_next s), w_Cancel := Some (dm_next s), dm_reply := None,
                         dm_reqs := dm_next s # dm_reqs s, dm_next := Suc (dm_next s)\<rparr>))
      | _ \<Rightarrow> None)"

text \<open>A request returns: its goroutine stores the result in the variables of its call of \<open>get\<close>.\<close>

definition request_returns :: "nat \<Rightarrow> string + chunk_reader \<Rightarrow> dl_state \<Rightarrow> dl_state option" where
  "request_returns n r s =
     (if n \<in> set (dm_reqs s) then
        Some (s\<lparr>dm_reqs := remove1 n (dm_reqs s), dm_cancels := Suc (dm_cancels s),
                dm_reply := (case dm_phase s of WWait dl m \<Rightarrow> if m = n then Some r else dm_reply s | _ \<Rightarrow> dm_reply s)\<rparr>)
      else None)"

definition request_cancels :: "dl_state \<Rightarrow> dl_state option" where
  "request_cancels s =
     (case dm_cancels s of 0 \<Rightarrow> None | Suc k \<Rightarrow> Some (call_Cancel (s\<lparr>dm_cancels := k\<rparr>)))"

text \<open>The timer of a context with a timeout.\<close>

definition context_expires :: "dl_state \<Rightarrow> dl_state option" where
  "context_expires s =
     (case dm_phase s of
        WWait dl n \<Rightarrow> if dl_Timeout dl \<noteq> 0 then Some (s\<lparr>dm_done := insert n (dm_done s)\<rparr>) else None
      | _ \<Rightarrow> None)"

text \<open>\<open>get\<close> after \<open>ctx.Done()\<close>: the error of the request, the error of the context, or the body.\<close>

definition context_done :: "dl_state \<Rightarrow> dl_state option" where
  "context_done s =
     (case dm_phase s of
        WWait dl n \<Rightarrow>
          if n \<notin> dm_done s then None
          else
            (case dm_reply s of
               Some (Inl e) \<Rightarrow> Some (s\<lparr>dm_phase := WEnd dl (Some (ClientErr e))\<rparr>)
             | Some (Inr body) \<Rightarrow> Some (s\<lparr>dm_phase := WStore dl body\<rparr>)
             | None \<Rightarrow> Some (s\<lparr>dm_phase := WEnd dl (Some CtxDone)\<rparr>))
      | _ \<Rightarrow> None)"

definition store_body :: "dl_env \<Rightarrow> dl_state \<Rightarrow> dl_state option" where
  "store_body en s =
     (case dm_phase s of
        WStore dl body \<Rightarrow>
          (case get_store en (dm_fs s) (job_path en dl) dl body of
             None \<Rightarrow> None
           | Some Panics \<Rightarrow> Some (s\<lparr>dm_crashed := True\<rparr>)
           | Some (Returns (r, fs')) \<Rightarrow> Some (s\<lparr>dm_phase := WEnd dl r, dm_fs := fs'\<rparr>))
      | _ \<Rightarrow> None)"

text \<open>The end of \<open>do\<close>: the callback, and \<open>w.Job\<close> and \<open>w.Cancel\<close> are reset.\<close>

definition finish_job :: "dl_state \<Rightarrow> dl_state option" where
  "finish_job s =
     (case dm_phase s of
        WEnd dl r \<Rightarrow> Some (s\<lparr>dm_called := dm_called s @ [(dl, r)], dm_phase := WIdle, w_Cancel := None\<rparr>)
      | _ \<Rightarrow> None)"

datatype dl_event =
    EvDownload content_dl "nat option" | EvSend nat | EvCancel string | EvClear | EvStop | EvEnQueue | EvTake | EvStart
  | EvReturn nat "string + chunk_reader" | EvCallCancel | EvExpire | EvDone | EvStore | EvFinish

fun dl_run :: "dl_env \<Rightarrow> dl_event \<Rightarrow> dl_state \<Rightarrow> dl_state option" where
  "dl_run en (EvDownload v cb) s = Some (snd (Download en v cb s))"
| "dl_run en (EvSend k) s = Download_send k s"
| "dl_run en (EvCancel name) s = Some (snd (CancelDownload name s))"
| "dl_run en EvClear s = Some (ClearQueue s)"
| "dl_run en EvStop s = Some (StopAllWorker s)"
| "dl_run en EvEnQueue s = queueLoop_turn s"
| "dl_run en EvTake s = take_job s"
| "dl_run en EvStart s = start_job en s"
| "dl_run en (EvReturn n r) s = request_returns n r s"
| "dl_run en EvCallCancel s = request_cancels s"
| "dl_run en EvExpire s = context_expires s"
| "dl_run en EvDone s = context_done s"
| "dl_run en EvStore s = store_body en s"
| "dl_run en EvFinish s = finish_job s"

text \<open>A crash ends the program.\<close>

inductive dl_step :: "dl_env \<Rightarrow> dl_state \<Rightarrow> dl_state \<Rightarrow> bool" for en where
  "\<not> dm_crashed s \<Longrightarrow> dl_run en ev s = Some s' \<Longrightarrow> dl_step en s s'"

inductive_cases dl_stepE: "dl_step en s s'"

abbreviation dl_steps :: "dl_env \<Rightarrow> dl_state \<Rightarrow> dl_state \<Rightarrow> bool" where
  "dl_steps en \<equiv> (dl_step en)\<^sup>*\<^sup>*"

fun dl_trace :: "dl_env \<Rightarrow> dl_event list \<Rightarrow> dl_state \<Rightarrow> dl_state option" where
  "dl_trace en [] s = Some s"
| "dl_trace en (ev # evs) s =
     (if dm_crashed s then None else case dl_run en ev s of None \<Rightarrow> None | Some s' \<Rightarrow> dl_trace en evs s')"

lemma dl_trace_steps: "dl_trace en evs s = Some s' \<Longrightarrow> dl_steps en s s'"
proof (induction evs arbitrary: s)
  case (Cons ev evs)
  then obtain s1 where "\<not> dm_crashed s" "dl_run en ev s = Some s1" "dl_trace en evs s1 = Some s'"
    by (auto split: if_splits option.splits)
  with Cons.IH show ?case by (meson converse_rtranclp_into_rtranclp dl_step.intros)
qed simp

section \<open>Properties of a worker's file\<close>

lemma get_local_eq:
  "get_local en fs fp dl =
     Some (Returns
       (case fs fp of
          None \<Rightarrow> None
        | Some data \<Rightarrow>
            if \<not> de_can_open en fp then Some (Some (FileErr OpenFailed))
            else if hex_encode data = dl_Hashsum dl then Some None else None))"
proof (cases "fs fp")
  case (Some data)
  have "cr_end (bytes_NewReader data) = EOF" "concat (cr_chunks (bytes_NewReader data)) = data"
    by (simp_all add: bytes_NewReader_def)
  with pump_file_plain [of "bytes_NewReader data" "de_md5 en"] Some show ?thesis by (auto simp: get_local_def)
qed (simp add: get_local_def)

text \<open>
  A file is taken as already downloaded exactly when the hex form of its \<^emph>\<open>contents\<close> is the expected sum.
  With an MD5 sum that is the hex form of 16 octets a file of any other length is fetched again, also when its
  digest is right.
\<close>

theorem get_refetches_valid_files:
  assumes "length (dl_Hashsum dl) = 32" "fs fp = Some data" "length data \<noteq> 16" "de_can_open en fp"
  shows "get_local en fs fp dl = Some (Returns None)"
proof -
  have "length (hex_encode data) \<noteq> 32" using assms(3) by simp
  with assms(1) have "hex_encode data \<noteq> dl_Hashsum dl" by metis
  with assms show ?thesis by (simp add: get_local_eq)
qed

lemma get_store_eq:
  assumes "cr_end body = EOF"
  shows "get_store en fs fp dl body =
     Some (Returns
       (if \<not> de_can_create en fp then (Some (FileErr CreateFailed), fs)
        else
          let data = concat (cr_chunks body); got = hex_encode (de_md5 en data) in
          (if dl_Hashsum dl \<noteq> [] \<and> got \<noteq> dl_Hashsum dl then Some (FileErr (BadSum got)) else None, fs(fp \<mapsto> data))))"
  using pump_file_plain [OF assms, of "de_md5 en"] pump_file_fly [OF assms, of "de_md5 en"]
  by (auto simp: get_store_def Let_def)

lemma get_store_hangs:
  assumes "cr_end body \<noteq> EOF" "dl_Hashsum dl \<noteq> []" "de_can_create en fp"
  shows "get_store en fs fp dl body = None"
proof -
  have "pump_file (de_md5 en) [NewHash True] body = None"
    unfolding pump_file_def pump_All_def
    by (rule gopump.pump_loop_diverges) (simp_all add: source_Chain_def source_New_def buffer_size_def assms(1))
  with assms(2,3) show ?thesis by (simp add: get_store_def Let_def)
qed

lemma chunk_read_le: "0 < k \<Longrightarrow> chunk_read r k = (bs, e, r') \<Longrightarrow> length bs \<le> k"
  by (auto simp: chunk_read.simps split: list.splits if_splits)

lemma pump_Step_unfiltered:
  assumes "0 < k" "src_filters (fst st) = []"
  shows "\<exists>r st'. pump_Step proc chunk_read sproc wr k st = Returns (r, st') \<and> src_filters (fst st') = []"
proof -
  obtain src snk where st: "st = (src, snk)" by fastforce
  obtain bs e r' where rd: "chunk_read (src_reader src) k = (bs, e, r')" by (metis prod_cases3)
  with assms chunk_read_le [OF assms(1) rd] st show ?thesis
    by (auto simp: pump_Step_def source_Read_def Let_def split: prod.splits)
qed

lemma pump_loop_unfiltered_no_panic:
  fixes proc :: "'f process" and sproc :: "'g process" and wr :: "'w writer"
  assumes "0 < k" "src_filters src = []"
  shows "pump_loop proc chunk_read sproc wr k acc (src, snk) \<noteq> Some Panics"
proof
  let ?P = "\<lambda>(pr :: 'f process) rd (spr :: 'g process) (wr :: 'w writer) k (acc :: nat)
      (st :: (chunk_reader, 'f) source \<times> ('w, 'g) sink) (y :: ((nat \<times> ioerr option) \<times> (chunk_reader, 'f) source \<times> ('w, 'g) sink) outcome).
    rd = chunk_read \<longrightarrow> 0 < k \<longrightarrow> src_filters (fst st) = [] \<longrightarrow> y \<noteq> Panics"
  assume run: "pump_loop proc chunk_read sproc wr k acc (src, snk) = Some Panics"
  have "?P proc chunk_read sproc wr k acc (src, snk) Panics"
  proof (rule pump_loop.raw_induct [of ?P, OF _ run])
    fix loop :: "'f process \<Rightarrow> chunk_reader reader \<Rightarrow> 'g process \<Rightarrow> 'w writer \<Rightarrow> nat \<Rightarrow> nat \<Rightarrow>
      (chunk_reader, 'f) source \<times> ('w, 'g) sink \<Rightarrow>
      ((nat \<times> ioerr option) \<times> (chunk_reader, 'f) source \<times> ('w, 'g) sink) outcome option"
    fix pr rd spr wr k acc st y
    assume IH: "\<And>pr rd spr wr k acc st y. loop pr rd spr wr k acc st = Some y \<Longrightarrow> ?P pr rd spr wr k acc st y"
      and body: "(case pump_Step pr rd spr wr k st of
        Panics \<Rightarrow> Some Panics
      | Returns ((n, err), st') \<Rightarrow>
          if err \<noteq> None then Some (Returns ((acc + n, if err = Some EOF then None else err), st'))
          else loop pr rd spr wr k (acc + n) st') = Some y"
    show "?P pr rd spr wr k acc st y"
    proof (intro impI)
      assume h: "rd = chunk_read" "0 < k" "src_filters (fst st) = []"
      from pump_Step_unfiltered [OF h(2,3)] obtain n err st' where
        "pump_Step pr rd spr wr k st = Returns ((n, err), st')" "src_filters (fst st') = []" using h(1) by fastforce
      with body h IH show "y \<noteq> Panics" by (auto split: if_splits)
    qed
  qed
  with assms show False by simp
qed

lemma get_store_no_panic: "get_store en fs fp dl body \<noteq> Some Panics"
proof (cases "de_can_create en fp \<and> \<not> (cr_end body = EOF)")
  case True
  then consider "dl_Hashsum dl \<noteq> []" | "dl_Hashsum dl = []" by blast
  then show ?thesis
  proof cases
    case 1
    with True get_store_hangs [of body dl en fp fs] show ?thesis by simp
  next
    case 2
    have "pump_file (de_md5 en) [] body \<noteq> Some Panics"
      unfolding pump_file_def pump_All_def
      by (rule pump_loop_unfiltered_no_panic) (simp_all add: source_Chain_def source_New_def buffer_size_def)
    moreover have "x \<noteq> Some Panics \<Longrightarrow> on_return x f \<noteq> Some Panics"
      for x :: "((nat \<times> ioerr option) \<times> (chunk_reader, go_filter) source \<times> (byte list, go_filter) sink) outcome option"
        and f :: "(nat \<times> ioerr option) \<times> (chunk_reader, go_filter) source \<times> (byte list, go_filter) sink \<Rightarrow> dl_error option \<times> file_system"
      by (cases "(x, f)" rule: on_return.cases) auto
    ultimately show ?thesis using 2 True by (simp add: get_store_def)
  qed
next
  case False
  then show ?thesis
    by (cases "cr_end body = EOF") (auto simp: get_store_eq, simp add: get_store_def)
qed

section \<open>Properties of the queue and the worker\<close>

text \<open>What has been accepted and not removed, in order: called back, at work, queued, and in the channel.\<close>

definition dl_line :: "dl_state \<Rightarrow> content_dl list" where
  "dl_line s = map fst (dm_called s) @ (case phase_job (dm_phase s) of None \<Rightarrow> [] | Some dl \<Rightarrow> [dl]) @ dm_Q s @ dm_c s"

lemma find_name_split:
  "find_name name es = Some (e, rest) \<Longrightarrow> \<exists>xs ys. es = xs @ e # ys \<and> rest = xs @ ys \<and> dl_Name e = name"
proof (induction es arbitrary: rest)
  case (Cons x es)
  then show ?case
    by (auto split: if_splits option.splits; metis append_Nil append_Cons)
qed simp

definition dl_conserved :: "dl_state \<Rightarrow> bool" where
  "dl_conserved s \<longleftrightarrow>
     subseq (dl_line s) (dm_accepted s) \<and> mset (dm_accepted s) = mset (dl_line s) + mset (dm_removed s)"

lemma call_Cancel_line [simp]:
  "dl_line (call_Cancel s) = dl_line s" "dm_accepted (call_Cancel s) = dm_accepted s" "dm_removed (call_Cancel s) = dm_removed s"
  by (simp_all add: call_Cancel_def dl_line_def split: option.split)

lemma dl_line_cong:
  "dm_called s' = dm_called s \<Longrightarrow> phase_job (dm_phase s') = phase_job (dm_phase s) \<Longrightarrow> dm_Q s' = dm_Q s \<Longrightarrow> dm_c s' = dm_c s \<Longrightarrow>
   dl_line s' = dl_line s"
  by (simp add: dl_line_def)

lemma dl_conserved_removed:
  assumes "dl_conserved s" "dm_Q s = xs @ rm @ ys"
  shows "dl_conserved (s\<lparr>dm_Q := xs @ ys, dm_removed := dm_removed s @ rm\<rparr>)"
proof -
  let ?s = "s\<lparr>dm_Q := xs @ ys, dm_removed := dm_removed s @ rm\<rparr>"
  let ?before = "map fst (dm_called s) @ (case phase_job (dm_phase s) of None \<Rightarrow> [] | Some dl \<Rightarrow> [dl]) @ xs"
  have l: "dl_line s = ?before @ rm @ ys @ dm_c s" "dl_line ?s = ?before @ [] @ ys @ dm_c s"
    using assms(2) by (simp_all add: dl_line_def)
  then have "subseq (dl_line ?s) (dl_line s)" by (metis list_emb_append_mono list_emb_Nil subseq_order.order_refl)
  with assms(1) l show ?thesis by (auto simp: dl_conserved_def intro: subseq_order.order_trans)
qed

lemma dl_run_conserves:
  assumes "dl_run en ev s = Some s'" "dl_conserved s"
  shows "dl_conserved s'"
proof (cases ev)
  case (EvSend k)
  with assms(1) obtain v where "s' = s\<lparr>dm_senders := take k (dm_senders s) @ drop (Suc k) (dm_senders s),
      dm_c := dm_c s @ [v], dm_accepted := dm_accepted s @ [v]\<rparr>"
    by (auto simp: Download_send_def Let_def split: if_splits)
  with assms(2) show ?thesis
    by (auto simp: dl_conserved_def dl_line_def simp flip: append_assoc intro: subseq_append_le_same_iff)
next
  case (EvCancel name)
  show ?thesis
  proof (cases "find_name name (dm_Q s)")
    case None
    with EvCancel assms show ?thesis
      by (auto simp: CancelDownload_def dl_conserved_def split: option.splits if_splits)
  next
    case (Some a)
    then obtain e rest where e: "find_name name (dm_Q s) = Some (e, rest)" by (cases a) auto
    from find_name_split [OF this] obtain xs ys where "dm_Q s = xs @ [e] @ ys" "rest = xs @ ys" by auto
    with dl_conserved_removed [OF assms(2), of xs "[e]" ys] e EvCancel assms(1) show ?thesis by (simp add: CancelDownload_def)
  qed
next
  case EvClear
  with dl_conserved_removed [OF assms(2), of "[]" "dm_Q s" "[]"] assms(1) show ?thesis by (simp add: ClearQueue_def)
qed (use assms in \<open>auto simp: dl_conserved_def dl_line_def Download_def StopAllWorker_def queueLoop_turn_def EnQueue_def
    take_job_def start_job_def request_returns_def request_cancels_def context_expires_def context_done_def store_body_def
    finish_job_def call_Cancel_def
    split: sum.splits option.splits outcome.splits list.splits dl_phase.splits if_splits nat.splits\<close>)

text \<open>
  C3. Whatever callers, worker and requests do, and in any order: the entries sent to the channel are those
  called back, the one at work, those queued and those in the channel, in the order of sending, and those that
  \<open>CancelDownload\<close> and \<open>ClearQueue\<close> removed. None is lost, duplicated or overtaken.
\<close>

theorem dl_conservation:
  assumes "dl_steps en (NewDownloader fs) s"
  shows "subseq (dl_line s) (dm_accepted s) \<and> mset (dm_accepted s) = mset (dl_line s) + mset (dm_removed s)"
proof -
  have "dl_conserved (NewDownloader fs)" by (simp add: dl_conserved_def dl_line_def NewDownloader_def)
  with assms have "dl_conserved s"
    by (induction rule: rtranclp_induct) (auto elim!: dl_stepE intro: dl_run_conserves)
  then show ?thesis by (simp add: dl_conserved_def)
qed

text \<open>Two entries and surroundings for the examples.\<close>

definition demo_dl :: "string \<Rightarrow> i64 \<Rightarrow> content_dl" where
  "demo_dl name t = \<lparr>dl_Hashsum = [], dl_URL = ''http://h/'' @ name, dl_Name = name, dl_Timeout = t, dl_cb = DefaultDLCallBack, dl_basename = name\<rparr>"

definition demo_de :: dl_env where
  "demo_de = \<lparr>de_md5 = rev, de_can_open = (\<lambda>fp. True), de_can_create = (\<lambda>fp. True), de_url_path = (\<lambda>u. Some (drop 8 u)),
     de_request = (\<lambda>u. True), de_Dir = ''/d''\<rparr>"

definition two_downloads :: "dl_event list" where
  "two_downloads =
     [EvDownload (demo_dl ''a'' 5) None, EvDownload (demo_dl ''b'' 0) None, EvSend 0, EvSend 0, EvEnQueue, EvEnQueue, EvTake, EvStart]"

lemmas dl_run_defs = NewDownloader_def Download_def Download_check_def Download_send_def queue_cap_def queueLoop_turn_def
  EnQueue_def take_job_def start_job_def get_local_eq request_returns_def request_cancels_def call_Cancel_def
  context_expires_def context_done_def finish_job_def Let_def

lemma two_downloads_state:
  "dl_trace demo_de two_downloads (NewDownloader Map.empty) =
     Some ((NewDownloader Map.empty)
       \<lparr>dm_Q := [demo_dl ''b'' 0], dm_phase := WWait (demo_dl ''a'' 5) 0, w_Cancel := Some 0, dm_next := 1, dm_reqs := [0],
        dm_accepted := [demo_dl ''a'' 5, demo_dl ''b'' 0]\<rparr>)"
  by (simp add: two_downloads_def dl_run_defs demo_dl_def demo_de_def path_Base_def)

theorem dl_conservation_witness:
  "\<exists>s. dl_steps demo_de (NewDownloader Map.empty) s \<and> dl_line s = [demo_dl ''a'' 5, demo_dl ''b'' 0]
     \<and> mset (dm_accepted s) = mset (dl_line s) + mset (dm_removed s)"
  using dl_conservation [OF dl_trace_steps [OF two_downloads_state]] dl_trace_steps [OF two_downloads_state]
  by (intro exI conjI) (assumption, simp_all add: dl_line_def NewDownloader_def)

text \<open>
  C17. A download whose context expires before its request returns: the worker reports the error of the
  context and resets \<open>w.Cancel\<close>, and when the request, which is not bound to the context, returns later while the
  worker is idle, its goroutine calls the nil function and the program crashes.
\<close>

theorem late_reply_crashes:
  assumes "\<not> dm_crashed s" "dm_phase s = WWait dl n" "dl_Timeout dl \<noteq> 0" "dm_reply s = None" "n \<in> set (dm_reqs s)"
  shows "\<exists>s'. dl_steps en s s' \<and> dm_called s' = dm_called s @ [(dl, Some CtxDone)] \<and> dm_crashed s'"
proof -
  from assms obtain s' where "dl_trace en [EvExpire, EvDone, EvFinish, EvReturn n (Inl []), EvCallCancel] s = Some s'"
    "dm_called s' = dm_called s @ [(dl, Some CtxDone)]" "dm_crashed s'"
    by (simp add: dl_run_defs)
  with dl_trace_steps show ?thesis by blast
qed

theorem late_reply_crashes_witness:
  "\<exists>s'. dl_steps demo_de (NewDownloader Map.empty) s' \<and> dm_crashed s'"
proof -
  have start: "dl_steps demo_de (NewDownloader Map.empty) ((NewDownloader Map.empty)
       \<lparr>dm_Q := [demo_dl ''b'' 0], dm_phase := WWait (demo_dl ''a'' 5) 0, w_Cancel := Some 0, dm_next := 1, dm_reqs := [0],
        dm_accepted := [demo_dl ''a'' 5, demo_dl ''b'' 0]\<rparr>)" (is "dl_steps _ _ ?s")
    by (rule dl_trace_steps [OF two_downloads_state])
  from late_reply_crashes [of ?s "demo_dl ''a'' 5" 0 demo_de] obtain s' where "dl_steps demo_de ?s s'" "dm_crashed s'"
    by (auto simp: NewDownloader_def demo_dl_def)
  with start show ?thesis by (meson rtranclp_trans)
qed

text \<open>
  The request of an earlier download that returns while the worker waits for the next one cancels that one:
  its callback gets the error of the context, although nobody cancelled it and its time is not over.
\<close>

theorem stale_reply_cancels_next:
  assumes "\<not> dm_crashed s" "dm_phase s = WWait dl n" "w_Cancel s = Some n" "dm_reply s = None" "m \<in> set (dm_reqs s)" "m \<noteq> n"
  shows "\<exists>s'. dl_steps en s s' \<and> \<not> dm_crashed s' \<and> dm_called s' = dm_called s @ [(dl, Some CtxDone)]"
proof -
  from assms obtain s' where "dl_trace en [EvReturn m (Inl []), EvCallCancel, EvDone, EvFinish] s = Some s'"
    "\<not> dm_crashed s'" "dm_called s' = dm_called s @ [(dl, Some CtxDone)]"
    by (simp add: dl_run_defs)
  with dl_trace_steps show ?thesis by blast
qed

lemma dl_trace_append:
  "dl_trace en (xs @ ys) s = (case dl_trace en xs s of None \<Rightarrow> None | Some s' \<Rightarrow> dl_trace en ys s')"
  by (induction xs arbitrary: s) (auto split: option.split)

lemma second_waits:
  "dl_trace demo_de (two_downloads @ [EvExpire, EvDone, EvFinish, EvTake, EvStart]) (NewDownloader Map.empty) =
     Some ((NewDownloader Map.empty)
       \<lparr>dm_phase := WWait (demo_dl ''b'' 0) 1, w_Cancel := Some 1, dm_done := {0}, dm_next := 2, dm_reqs := [1, 0],
        dm_accepted := [demo_dl ''a'' 5, demo_dl ''b'' 0], dm_called := [(demo_dl ''a'' 5, Some CtxDone)]\<rparr>)"
  by (simp add: dl_trace_append two_downloads_state) (simp add: dl_run_defs demo_dl_def demo_de_def)

theorem stale_reply_cancels_next_witness:
  "\<exists>s'. dl_steps demo_de (NewDownloader Map.empty) s' \<and> (demo_dl ''b'' 0, Some CtxDone) \<in> set (dm_called s')"
proof -
  let ?s = "(NewDownloader Map.empty)
       \<lparr>dm_phase := WWait (demo_dl ''b'' 0) 1, w_Cancel := Some 1, dm_done := {0}, dm_next := 2, dm_reqs := [1, 0],
        dm_accepted := [demo_dl ''a'' 5, demo_dl ''b'' 0], dm_called := [(demo_dl ''a'' 5, Some CtxDone)]\<rparr>"
  have start: "dl_steps demo_de (NewDownloader Map.empty) ?s" by (rule dl_trace_steps [OF second_waits])
  from stale_reply_cancels_next [of ?s "demo_dl ''b'' 0" 1 0 demo_de] obtain s' where
    "dl_steps demo_de ?s s'" "(demo_dl ''b'' 0, Some CtxDone) \<in> set (dm_called s')"
    by (auto simp: NewDownloader_def)
  with start show ?thesis by (meson rtranclp_trans)
qed

text \<open>Without expiry and cancellation there is one request at most, and its goroutine ends the wait of the worker.\<close>

fun uncancelled :: "dl_event \<Rightarrow> bool" where
  "uncancelled EvExpire = False"
| "uncancelled (EvCancel name) = False"
| "uncancelled EvStop = False"
| "uncancelled ev = True"

definition calm :: "dl_state \<Rightarrow> bool" where
  "calm s \<longleftrightarrow> \<not> dm_crashed s \<and> (\<forall>m \<in> dm_done s. m < dm_next s)
     \<and> (case dm_phase s of
          WWait dl n \<Rightarrow> w_Cancel s = Some n \<and> n < dm_next s
            \<and> (if n \<in> dm_done s then dm_reqs s = [] \<and> dm_cancels s = 0
               else (dm_reqs s = [n] \<and> dm_cancels s = 0) \<or> (dm_reqs s = [] \<and> dm_cancels s = 1))
        | _ \<Rightarrow> dm_reqs s = [] \<and> dm_cancels s = 0)"

lemma calm_run:
  assumes "calm s" "uncancelled ev" "dl_run en ev s = Some s'"
  shows "calm s'"
proof (cases ev)
  case (EvReturn n r)
  with assms show ?thesis
    by (auto simp: calm_def request_returns_def split: dl_phase.splits if_splits)
next
  case EvCallCancel
  with assms show ?thesis
    by (auto simp: calm_def request_cancels_def call_Cancel_def split: dl_phase.splits nat.splits if_splits)
next
  case EvStart
  with assms show ?thesis
    by (auto simp: calm_def start_job_def get_local_eq less_Suc_eq split: dl_phase.splits option.splits if_splits)
next
  case EvDone
  with assms show ?thesis
    by (auto simp: calm_def context_done_def split: dl_phase.splits option.splits if_splits sum.splits)
next
  case EvStore
  with assms show ?thesis
    using get_store_no_panic by (auto simp: calm_def store_body_def split: dl_phase.splits option.splits outcome.splits)
next
  case EvTake
  with assms show ?thesis by (auto simp: calm_def take_job_def split: dl_phase.splits list.splits)
next
  case EvFinish
  with assms show ?thesis by (auto simp: calm_def finish_job_def split: dl_phase.splits)
next
  case (EvDownload v cb)
  with assms(3) obtain senders where "s' = s\<lparr>dm_senders := senders\<rparr> \<or> s' = s"
    by (auto simp: Download_def split: sum.splits)
  moreover have "calm (s\<lparr>dm_senders := senders\<rparr>)" using assms(1) by (cases "dm_phase s") (auto simp: calm_def split: if_splits)
  ultimately show ?thesis using assms(1) by blast
next
  case (EvSend k)
  with assms(3) obtain senders c acc where "s' = s\<lparr>dm_senders := senders, dm_c := c, dm_accepted := acc\<rparr>"
    by (auto simp: Download_send_def Let_def split: if_splits)
  with assms(1) show ?thesis by (cases "dm_phase s") (auto simp: calm_def split: if_splits)
next
  case EvEnQueue
  with assms(3) obtain c q where "s' = s\<lparr>dm_c := c, dm_Q := q\<rparr>"
    by (auto simp: queueLoop_turn_def EnQueue_def split: list.splits)
  with assms(1) show ?thesis by (cases "dm_phase s") (auto simp: calm_def split: if_splits)
next
  case EvClear
  then have "s' = s\<lparr>dm_Q := [], dm_removed := dm_removed s @ dm_Q s\<rparr>" using assms(3) by (simp add: ClearQueue_def)
  with assms(1) show ?thesis by (cases "dm_phase s") (auto simp: calm_def split: if_splits)
qed (use assms(2) in simp_all)

text \<open>
  C16. The crash needs an expiry or a cancellation: in a run in which no context expires and nobody calls
  \<open>CancelDownload\<close> or \<open>StopAllWorker\<close> the program does not crash, whatever files, requests and callers do.
\<close>

theorem no_crash_without_cancellation:
  assumes "dl_trace en evs (NewDownloader fs) = Some s" "list_all uncancelled evs"
  shows "\<not> dm_crashed s"
proof -
  have "calm s'" if "dl_trace en evs s = Some s'" "calm s" "list_all uncancelled evs" for evs s s'
    using that
  proof (induction evs arbitrary: s)
    case (Cons ev evs)
    then obtain s1 where "dl_run en ev s = Some s1" "dl_trace en evs s1 = Some s'"
      by (auto split: if_splits option.splits)
    with Cons calm_run show ?case by (auto intro: Cons.IH)
  qed simp
  moreover have "calm (NewDownloader fs)" by (simp add: calm_def NewDownloader_def)
  ultimately show ?thesis using assms by (auto simp: calm_def)
qed

theorem no_crash_without_cancellation_witness:
  "\<exists>s. dl_trace demo_de two_downloads (NewDownloader Map.empty) = Some s \<and> \<not> dm_crashed s"
  using no_crash_without_cancellation [OF two_downloads_state] two_downloads_state by (simp add: two_downloads_def)

text \<open>What holds of the file when a download ends with success.\<close>

fun worker_event :: "dl_event \<Rightarrow> bool" where
  "worker_event EvTake = True"
| "worker_event EvStart = True"
| "worker_event EvDone = True"
| "worker_event EvStore = True"
| "worker_event EvFinish = True"
| "worker_event ev = False"

lemma call_Cancel_keeps [simp]:
  "dm_phase (call_Cancel s) = dm_phase s" "dm_fs (call_Cancel s) = dm_fs s" "dm_called (call_Cancel s) = dm_called s"
  by (simp_all add: call_Cancel_def split: option.split)

lemma dl_run_other:
  "dl_run en ev s = Some s' \<Longrightarrow> \<not> worker_event ev \<Longrightarrow>
   dm_phase s' = dm_phase s \<and> dm_fs s' = dm_fs s \<and> dm_called s' = dm_called s"
  by (cases ev)
    (auto simp: Download_def Download_send_def Let_def CancelDownload_def ClearQueue_def StopAllWorker_def queueLoop_turn_def
      EnQueue_def request_returns_def request_cancels_def context_expires_def
      split: sum.splits option.splits list.splits dl_phase.splits if_splits nat.splits)






text \<open>
  C19. A reply whose body breaks off with an error, for a download with an expected sum: the pump never returns,
  so that the only worker stays with this entry for ever and no callback is made again.
\<close>

theorem broken_body_blocks_worker:
  assumes "dm_phase s = WStore dl body" "cr_end body \<noteq> EOF" "dl_Hashsum dl \<noteq> []" "de_can_create en (job_path en dl)"
    and "dl_steps en s s'"
  shows "dm_phase s' = WStore dl body \<and> dm_called s' = dm_called s"
  using assms(5)
proof (induction rule: rtranclp_induct)
  case (step t t')
  from step.hyps(2) obtain ev where ev: "dl_run en ev t = Some t'" by (auto elim: dl_stepE)
  have hang: "get_store en (dm_fs t) (job_path en dl) dl body = None" using assms(2-4) by (rule get_store_hangs)
  show ?case
  proof (cases "worker_event ev")
    case True
    with ev step.IH show ?thesis
      by (cases ev) (auto simp: hang take_job_def start_job_def context_done_def finish_job_def store_body_def)
  next
    case False
    with dl_run_other [OF ev] step.IH show ?thesis by simp
  qed
qed (use assms(1) in simp)

text \<open>A download of one octet with its sum under the hash \<open>rev\<close>, and what the worker does with two replies.\<close>

definition summed_dl :: content_dl where
  "summed_dl = demo_dl ''a'' 0\<lparr>dl_Hashsum := [49, 50]\<rparr>"

definition summed_events :: "chunk_reader \<Rightarrow> dl_event list" where
  "summed_events body = [EvDownload summed_dl None, EvSend 0, EvEnQueue, EvTake, EvStart, EvReturn 0 (Inr body), EvCallCancel, EvDone]"

lemma summed_stores:
  "\<exists>s. dl_trace demo_de (summed_events body) (NewDownloader Map.empty) = Some s \<and> dm_phase s = WStore summed_dl body
     \<and> dm_fs s = Map.empty \<and> \<not> dm_crashed s"
  by (simp add: summed_events_def dl_run_defs summed_dl_def demo_dl_def demo_de_def path_Base_def)


theorem broken_body_blocks_worker_witness:
  "\<exists>s. dl_steps demo_de (NewDownloader Map.empty) s \<and> dm_phase s \<noteq> WIdle
     \<and> dm_phase (snd (CancelDownload ''a'' s)) = dm_phase s"
proof -
  let ?body = "\<lparr>cr_chunks = [[1]], cr_end = IOError ''reset'', cr_with_last = False\<rparr>"
  obtain s where s: "dl_steps demo_de (NewDownloader Map.empty) s" "dm_phase s = WStore summed_dl ?body" "\<not> dm_crashed s"
    using summed_stores [of ?body] dl_trace_steps by blast
  have "dl_steps demo_de s (snd (CancelDownload ''a'' s))"
    by (rule r_into_rtranclp) (use s(3) dl_step.intros [of s demo_de "EvCancel ''a''"] in simp)
  from broken_body_blocks_worker [OF s(2) _ _ _ this] s show ?thesis
    by (intro exI [of _ s]) (simp add: summed_dl_def demo_de_def)
qed

theorem get_refetches_valid_files_witness:
  "get_local demo_de [''f'' \<mapsto> [1, 2, 3]] ''f'' (demo_dl ''f'' 0\<lparr>dl_Hashsum := replicate 32 48\<rparr>) = Some (Returns None)"
  using get_refetches_valid_files [of "demo_dl ''f'' 0\<lparr>dl_Hashsum := replicate 32 48\<rparr>" "[''f'' \<mapsto> [1, 2, 3]]" "''f''" "[1, 2, 3]" demo_de]
  by (simp add: demo_de_def)

end
