(* ===== verification/DLProgress.thy ===== *)
theory DLProgress
  imports DLManager
begin

text \<open>
  Progress of the download manager: the work that is left is bounded and gets less with every step of the queue, the
  worker and its requests, so that every accepted download gets its callback.
\<close>

section \<open>The events that no caller makes\<close>

text \<open>\<open>rep n\<close> is what request \<open>n\<close> returns; no context expires.\<close>

fun internal :: "(nat \<Rightarrow> string + chunk_reader) \<Rightarrow> dl_event \<Rightarrow> bool" where
  "internal rep (EvSend k) = True"
| "internal rep EvEnQueue = True"
| "internal rep EvTake = True"
| "internal rep EvStart = True"
| "internal rep (EvReturn n r) = (r = rep n)"
| "internal rep EvCallCancel = True"
| "internal rep EvDone = True"
| "internal rep EvStore = True"
| "internal rep EvFinish = True"
| "internal rep ev = False"

lemma internal_uncancelled: "internal rep ev \<Longrightarrow> uncancelled ev"
  by (cases ev) simp_all

text \<open>A body that comes to its end.\<close>

definition complete :: "string + chunk_reader \<Rightarrow> bool" where
  "complete r = (case r of Inl e \<Rightarrow> True | Inr body \<Rightarrow> cr_end body = EOF)"

definition complete_bodies :: "dl_state \<Rightarrow> bool" where
  "complete_bodies s =
     ((case dm_reply s of None \<Rightarrow> True | Some r \<Rightarrow> complete r)
      \<and> (case dm_phase s of WStore dl body \<Rightarrow> cr_end body = EOF | _ \<Rightarrow> True))"

fun complete_event :: "dl_event \<Rightarrow> bool" where
  "complete_event (EvReturn n r) = complete r"
| "complete_event ev = True"

lemma complete_bodies_run:
  assumes "complete_bodies s" "complete_event ev" "dl_run en ev s = Some s'"
  shows "complete_bodies s'"
proof -
  have frame: "complete_bodies t" if "dm_reply t = dm_reply s" "dm_phase t = dm_phase s" for t
    using assms(1) that by (simp add: complete_bodies_def)
  show ?thesis
  proof (cases ev)
    case EvTake
    with assms show ?thesis by (auto simp: complete_bodies_def take_job_def split: list.splits dl_phase.splits)
  next
    case EvStart
    with assms show ?thesis
      by (auto simp: complete_bodies_def start_job_def get_local_eq split: option.splits dl_phase.splits if_splits)
  next
    case (EvReturn n r)
    with assms show ?thesis
      by (auto simp: complete_bodies_def request_returns_def split: option.splits dl_phase.splits if_splits)
  next
    case EvDone
    with assms show ?thesis
      by (auto simp: complete_bodies_def complete_def context_done_def split: sum.splits option.splits dl_phase.splits if_splits)
  next
    case EvStore
    with assms get_store_no_panic show ?thesis
      by (auto simp: complete_bodies_def store_body_def split: option.splits dl_phase.splits outcome.splits)
  next
    case EvFinish
    with assms show ?thesis by (auto simp: complete_bodies_def finish_job_def split: dl_phase.splits)
  qed (use assms(3) in \<open>auto intro!: frame simp: Download_def Download_send_def CancelDownload_def ClearQueue_def
      StopAllWorker_def call_Cancel_def queueLoop_turn_def EnQueue_def request_cancels_def context_expires_def Let_def
      split: sum.splits option.splits list.splits dl_phase.splits if_splits nat.splits\<close>)
qed

section \<open>The work that is left\<close>

fun phase_work :: "dl_state \<Rightarrow> nat" where
  "phase_work s =
     (case dm_phase s of
        WIdle \<Rightarrow> 0
      | WEnd dl r \<Rightarrow> 1
      | WStore dl body \<Rightarrow> 2
      | WWait dl n \<Rightarrow> 3 + dm_cancels s + 2 * length (dm_reqs s)
      | WStart dl \<Rightarrow> 6)"

definition dl_work :: "dl_state \<Rightarrow> nat" where
  "dl_work s = 9 * length (dm_senders s) + 8 * length (dm_c s) + 7 * length (dm_Q s) + phase_work s"

lemma internal_decreases:
  assumes "calm s" "internal rep ev" "dl_run en ev s = Some s'"
  shows "dl_work s' < dl_work s"
proof (cases ev)
  case (EvSend k)
  with assms(3) have "k < length (dm_senders s)" by (auto simp: Download_send_def split: if_splits)
  with EvSend assms(3) show ?thesis
    by (cases "dm_phase s") (auto simp: dl_work_def Download_send_def Let_def split: if_splits)
next
  case EvEnQueue
  with assms(3) show ?thesis
    by (cases "dm_phase s") (auto simp: dl_work_def queueLoop_turn_def EnQueue_def split: list.splits)
next
  case (EvReturn n r)
  with assms show ?thesis
    by (auto simp: dl_work_def calm_def request_returns_def split: dl_phase.splits if_splits)
next
  case EvCallCancel
  with assms show ?thesis
    by (auto simp: dl_work_def calm_def request_cancels_def call_Cancel_def split: dl_phase.splits nat.splits if_splits)
next
  case EvStart
  with assms show ?thesis
    by (auto simp: dl_work_def calm_def start_job_def get_local_eq split: dl_phase.splits option.splits if_splits)
next
  case EvStore
  with assms(3) get_store_no_panic show ?thesis
    by (auto simp: dl_work_def store_body_def split: option.splits dl_phase.splits outcome.splits)
qed (use assms in \<open>auto simp: dl_work_def take_job_def context_done_def finish_job_def
    split: sum.splits option.splits list.splits dl_phase.splits if_splits outcome.splits\<close>)

text \<open>As long as work is left some event is possible.\<close>

lemma internal_possible:
  assumes "calm s" "complete_bodies s" "0 < dl_work s"
  shows "\<exists>ev s'. internal rep ev \<and> dl_run en ev s = Some s'"
proof (cases "dm_phase s")
  case WIdle
  show ?thesis
  proof (cases "dm_Q s")
    case (Cons dl q)
    with WIdle show ?thesis by (intro exI [of _ EvTake]) (simp add: take_job_def)
  next
    case Nil
    show ?thesis
    proof (cases "dm_c s")
      case (Cons dl c)
      then show ?thesis by (intro exI [of _ EvEnQueue]) (simp add: queueLoop_turn_def)
    next
      case c: Nil
      with Nil WIdle assms(3) have "0 < length (dm_senders s)" by (simp add: dl_work_def)
      with c show ?thesis by (intro exI [of _ "EvSend 0"]) (simp add: Download_send_def queue_cap_def Let_def)
    qed
  qed
next
  case (WStart dl)
  then show ?thesis
    by (intro exI [of _ EvStart]) (auto simp: start_job_def get_local_eq split: option.split)
next
  case (WWait dl n)
  with assms(1) consider "n \<in> dm_done s" | "n \<in> set (dm_reqs s)" | "dm_cancels s = 1"
    by (auto simp: calm_def split: if_splits)
  then show ?thesis
  proof cases
    case 1
    with WWait show ?thesis by (intro exI [of _ EvDone]) (auto simp: context_done_def split: option.split sum.split)
  next
    case 2
    then show ?thesis by (intro exI [of _ "EvReturn n (rep n)"]) (simp add: request_returns_def)
  next
    case 3
    then show ?thesis by (intro exI [of _ EvCallCancel]) (simp add: request_cancels_def)
  qed
next
  case (WStore dl body)
  with assms(2) have "cr_end body = EOF" by (simp add: complete_bodies_def)
  with WStore show ?thesis
    by (intro exI [of _ EvStore]) (auto simp: store_body_def get_store_eq Let_def)
next
  case (WEnd dl r)
  then show ?thesis by (intro exI [of _ EvFinish]) (simp add: finish_job_def)
qed

section \<open>Runs\<close>

lemma trace_keeps:
  assumes "\<And>ev s s'. dl_run en ev s = Some s' \<Longrightarrow> Q ev \<Longrightarrow> P s \<Longrightarrow> P s'"
    and "dl_trace en evs s = Some s'" "list_all Q evs" "P s"
  shows "P s'"
  using assms(2-4)
proof (induction evs arbitrary: s)
  case (Cons ev evs)
  then obtain s1 where "dl_run en ev s = Some s1" "dl_trace en evs s1 = Some s'"
    by (auto split: if_splits option.splits)
  with Cons assms(1) show ?case by auto
qed simp

lemma calm_trace: "dl_trace en evs s = Some s' \<Longrightarrow> list_all uncancelled evs \<Longrightarrow> calm s \<Longrightarrow> calm s'"
  by (rule trace_keeps [where P = calm and Q = uncancelled]) (auto intro: calm_run)

lemma complete_trace:
  "dl_trace en evs s = Some s' \<Longrightarrow> list_all complete_event evs \<Longrightarrow> complete_bodies s \<Longrightarrow> complete_bodies s'"
  by (rule trace_keeps [where P = complete_bodies and Q = complete_event]) (auto intro: complete_bodies_run)

lemma internal_bounded:
  "dl_trace en evs s = Some s' \<Longrightarrow> list_all (internal rep) evs \<Longrightarrow> calm s \<Longrightarrow> length evs + dl_work s' \<le> dl_work s"
proof (induction evs arbitrary: s)
  case (Cons ev evs)
  then obtain s1 where s1: "dl_run en ev s = Some s1" "dl_trace en evs s1 = Some s'"
    by (auto split: if_splits option.splits)
  have "calm s1" using calm_run [OF Cons.prems(3) _ s1(1)] Cons.prems(2) internal_uncancelled by auto
  with Cons.IH [OF s1(2)] Cons.prems(2) have "length evs + dl_work s' \<le> dl_work s1" by simp
  moreover have "dl_work s1 < dl_work s"
    using internal_decreases [OF Cons.prems(3) _ s1(1)] Cons.prems(2) by auto
  ultimately show ?case by simp
qed simp

text \<open>What is accepted or about to be, apart from what callers remove.\<close>

definition everything :: "dl_state \<Rightarrow> content_dl multiset" where
  "everything s = mset (dl_line s @ dm_senders s)"

lemma mset_take_nth_drop: "k < length xs \<Longrightarrow> mset xs = mset (take k xs) + {#xs ! k#} + mset (drop (Suc k) xs)"
  by (metis add_mset_add_single append_take_drop_id Cons_nth_drop_Suc mset.simps(2) mset_append union_mset_add_mset_right union_mset_add_mset_left)

lemma internal_everything:
  assumes "internal rep ev" "dl_run en ev s = Some s'"
  shows "everything s' = everything s"
proof (cases ev)
  case (EvSend k)
  with assms(2) have k: "k < length (dm_senders s)" by (auto simp: Download_send_def split: if_splits)
  from mset_take_nth_drop [OF this] EvSend assms(2) show ?thesis
    by (auto simp: everything_def dl_line_def Download_send_def Let_def split: if_splits)
qed (use assms in \<open>auto simp: everything_def dl_line_def queueLoop_turn_def EnQueue_def
    take_job_def start_job_def request_returns_def request_cancels_def context_done_def store_body_def
    finish_job_def call_Cancel_def
    split: sum.splits option.splits outcome.splits list.splits dl_phase.splits if_splits nat.splits\<close>)

lemma everything_trace:
  "dl_trace en evs s = Some s' \<Longrightarrow> list_all (internal rep) evs \<Longrightarrow> everything s' = everything s"
  using trace_keeps [where P = "\<lambda>t. everything t = everything s" and Q = "internal rep"] internal_everything by metis

text \<open>
  C9. In a run without expiry and cancellation whose replies come to their end: after the callers have stopped there are
  at most \<open>dl_work\<close> further steps, and when none is possible any more the worker is idle, nothing is queued, and
  the callbacks made are exactly those of the downloads that had been called back, were at work, queued or about to
  be sent.
\<close>

theorem every_download_called_back:
  assumes "dl_trace en evs (NewDownloader fs) = Some s" "list_all uncancelled evs" "list_all complete_event evs"
    and "\<And>n. complete (rep n)"
    and "dl_trace en evs' s = Some s'" "list_all (internal rep) evs'"
  shows "length evs' \<le> dl_work s
    \<and> ((\<forall>ev. internal rep ev \<longrightarrow> dl_run en ev s' = None) \<longrightarrow>
         dm_phase s' = WIdle \<and> dm_Q s' = [] \<and> dm_c s' = [] \<and> dm_senders s' = []
         \<and> mset (map fst (dm_called s')) = mset (dl_line s @ dm_senders s))"
proof -
  have "calm (NewDownloader fs)" "complete_bodies (NewDownloader fs)"
    by (simp_all add: calm_def complete_bodies_def NewDownloader_def)
  with assms(1-3) have s: "calm s" "complete_bodies s" by (blast intro: calm_trace complete_trace)+
  have "complete_event ev" if "internal rep ev" for ev using that assms(4) by (cases ev) auto
  with assms(6) internal_uncancelled have "list_all complete_event evs'" "list_all uncancelled evs'"
    by (auto simp: list_all_iff)
  with assms(5) s have s': "calm s'" "complete_bodies s'" by (blast intro: calm_trace complete_trace)+
  have drained: "dl_work s' = 0" if "\<forall>ev. internal rep ev \<longrightarrow> dl_run en ev s' = None"
    using internal_possible [OF s', of rep en] that by force
  have "dm_phase s' = WIdle \<and> dm_Q s' = [] \<and> dm_c s' = [] \<and> dm_senders s' = []" if "dl_work s' = 0"
    using that by (cases "dm_phase s'") (simp_all add: dl_work_def)
  moreover have "mset (map fst (dm_called s')) = everything s'" if "dl_work s' = 0"
    using that by (cases "dm_phase s'") (simp_all add: dl_work_def everything_def dl_line_def)
  moreover have "length evs' \<le> dl_work s" using internal_bounded [OF assms(5,6) s(1)] by simp
  ultimately show ?thesis using drained everything_trace [OF assms(5,6)] by (auto simp: everything_def)
qed

text \<open>Two downloads whose requests fail, to the end.\<close>

definition refuse :: "nat \<Rightarrow> string + chunk_reader" where
  "refuse n = Inl ''refused''"

definition worker_turn :: "nat \<Rightarrow> dl_event list" where
  "worker_turn n = [EvReturn n (refuse n), EvCallCancel, EvDone, EvFinish]"

definition rest_events :: "dl_event list" where
  "rest_events = worker_turn 0 @ [EvTake, EvStart] @ worker_turn 1"

theorem every_download_called_back_witness:
  "\<exists>s'. dl_trace demo_de (two_downloads @ rest_events) (NewDownloader Map.empty) = Some s' \<and> length rest_events \<le> 19
     \<and> dm_phase s' = WIdle \<and> mset (map fst (dm_called s')) = {#demo_dl ''a'' 5, demo_dl ''b'' 0#}"
proof -
  let ?s = "(NewDownloader Map.empty)
       \<lparr>dm_Q := [demo_dl ''b'' 0], dm_phase := WWait (demo_dl ''a'' 5) 0, w_Cancel := Some 0, dm_next := 1, dm_reqs := [0],
        dm_accepted := [demo_dl ''a'' 5, demo_dl ''b'' 0]\<rparr>"
  obtain s' where s': "dl_trace demo_de rest_events ?s = Some s'"
    "dm_phase s' = WIdle" "dm_Q s' = []" "dm_c s' = []" "dm_senders s' = []" "dm_reqs s' = []" "dm_cancels s' = 0"
    by (simp add: rest_events_def worker_turn_def refuse_def dl_run_defs demo_dl_def demo_de_def)
  have "dl_run demo_de ev s' = None" if "internal refuse ev" for ev
    using that s'(2-7)
    by (cases ev) (simp_all add: Download_send_def queueLoop_turn_def take_job_def start_job_def request_returns_def
        request_cancels_def context_done_def store_body_def finish_job_def)
  moreover have "list_all uncancelled two_downloads" "list_all complete_event two_downloads"
    "list_all (internal refuse) rest_events" "complete (refuse n)" for n
    by (simp_all add: two_downloads_def rest_events_def worker_turn_def refuse_def complete_def)
  moreover have "dl_work ?s \<le> 19" by (simp add: dl_work_def NewDownloader_def)
  moreover have "dl_line ?s @ dm_senders ?s = [demo_dl ''a'' 5, demo_dl ''b'' 0]" by (simp add: dl_line_def NewDownloader_def)
  moreover have "dl_trace demo_de (two_downloads @ rest_events) (NewDownloader Map.empty) = Some s'"
    using two_downloads_state s'(1) by (simp add: dl_trace_append)
  ultimately show ?thesis
    using every_download_called_back [OF two_downloads_state _ _ _ s'(1), of refuse]
    by (intro exI [of _ s']) auto
qed

end
