(* ===== verification/NetStats.thy ===== *)
theory NetStats
  imports GoPrelude
begin

text \<open>
  \<open>sys/netstats\<close>: the data usage of a mobile network, read from the output of a command by a state machine over
  its lines. The output of the command is an argument, and so is the start of a month in local time.
\<close>

section \<open>Lines and numbers\<close>

text \<open>
  \<open>bufio.Scanner\<close> with \<open>ScanLines\<close>: the lines without their ends; it stops at a line that does not fit its buffer
  of 65536 octets.
\<close>

definition line_feed :: char where "line_feed = CHR 0x0A"

definition drop_cr :: "string \<Rightarrow> string" where
  "drop_cr l = (if l \<noteq> [] \<and> last l = CHR 0x0D then butlast l else l)"

definition scan_lines :: "string \<Rightarrow> string list" where
  "scan_lines data =
     (let ls = str_split data [line_feed];
          ls = (if last ls = [] then butlast ls else ls)
      in map drop_cr (takeWhile (\<lambda>l. int (length l) < 65536) ls))"

fun str_contains :: "string \<Rightarrow> string \<Rightarrow> bool" where
  "str_contains p [] = (p = [])"
| "str_contains p (c # cs) = (str_prefix p (c # cs) \<or> str_contains p cs)"

text \<open>
  \<open>fmt.Sscanf\<close> for formats of text, spaces and \<open>%d\<close>: the numbers scanned before the first mismatch. A space
  matches one or more spaces or the end of the text; a number may have spaces and a sign before it.
\<close>

datatype fmt_item = FmtSpace | FmtChar char | FmtNum

fun parse_format :: "string \<Rightarrow> fmt_item list" where
  "parse_format [] = []"
| "parse_format [c] = [if c = CHR '' '' then FmtSpace else FmtChar c]"
| "parse_format (c # d # cs) =
     (if c = CHR ''%'' \<and> d = CHR ''d'' then FmtNum # parse_format cs
      else (if c = CHR '' '' then FmtSpace else FmtChar c) # parse_format (d # cs))"

definition scan_num :: "string \<Rightarrow> (i64 \<times> string) option" where
  "scan_num s =
     (let s = dropWhile (\<lambda>c. c \<in> ascii_space) s;
          sign = (if s \<noteq> [] \<and> (hd s = CHR ''-'' \<or> hd s = CHR ''+'') then [hd s] else []);
          s = drop (length sign) s;
          digits = takeWhile (\<lambda>c. char_digit c \<noteq> None) s
      in if digits = [] then None
         else (case ParseInt (sign @ digits) of
                 Inl e \<Rightarrow> None
               | Inr v \<Rightarrow> Some (word_of_int v, drop (length digits) s)))"

fun sscan :: "fmt_item list \<Rightarrow> string \<Rightarrow> i64 list" where
  "sscan [] s = []"
| "sscan (FmtNum # is) s = (case scan_num s of None \<Rightarrow> [] | Some (v, rest) \<Rightarrow> v # sscan is rest)"
| "sscan (FmtChar c # is) s = (case s of [] \<Rightarrow> [] | d # ds \<Rightarrow> if c = d then sscan is ds else [])"
| "sscan (FmtSpace # is) s =
     (case s of
        [] \<Rightarrow> sscan is []
      | c # cs \<Rightarrow> if c \<in> ascii_space then sscan is (dropWhile (\<lambda>c. c \<in> ascii_space) cs) else [])"

section \<open>Buckets\<close>

record bucket =
  bu_Start :: i64
  bu_Active :: i64
  bu_RxBytes :: i64
  bu_TxBytes :: i64
  bu_RxPackets :: i64
  bu_TxPackets :: i64

definition is_bucket_line :: "string \<Rightarrow> bool" where
  "is_bucket_line l = (str_prefix ''bucketStart='' l \<or> str_prefix ''st='' l)"

definition long_format :: string where
  "long_format = ''bucketStart=%d activeTime=%d rxBytes=%d rxPackets=%d txBytes=%d txPackets=%d''"

definition short_format :: string where
  "short_format = ''st=%d rb=%d rp=%d tb=%d tp=%d''"

text \<open>The bucket of a line; a line with too few numbers is logged and left out.\<close>

definition parse_bucket :: "string \<Rightarrow> bucket option" where
  "parse_bucket l =
     (if str_prefix ''bucketStart='' l then
        (case sscan (parse_format long_format) l of
           [st, act, rb, rp, tb, tp] \<Rightarrow>
             Some \<lparr>bu_Start = st, bu_Active = act, bu_RxBytes = rb, bu_TxBytes = tb, bu_RxPackets = rp, bu_TxPackets = tp\<rparr>
         | _ \<Rightarrow> None)
      else
        (case sscan (parse_format short_format) l of
           [st, rb, rp, tb, tp] \<Rightarrow>
             Some \<lparr>bu_Start = st * 1000, bu_Active = 3600000, bu_RxBytes = rb, bu_TxBytes = tb, bu_RxPackets = rp, bu_TxPackets = tp\<rparr>
         | _ \<Rightarrow> None))"

section \<open>The state machine\<close>

datatype scan_state =
    StateParsing | StateDevSectionFound | StateMobileTypeFound | StateBucketCollecting | StateBucketCollectingEnd

text \<open>One line, already trimmed.\<close>

definition collect_line :: "bucket list \<Rightarrow> string \<Rightarrow> scan_state \<times> bucket list" where
  "collect_line res l =
     (if \<not> is_bucket_line l then (StateBucketCollectingEnd, res)
      else (StateBucketCollecting, case parse_bucket l of None \<Rightarrow> res | Some bu \<Rightarrow> res @ [bu]))"

fun scan_line :: "scan_state \<times> bucket list \<Rightarrow> string \<Rightarrow> scan_state \<times> bucket list" where
  "scan_line (StateParsing, res) l = (if str_prefix ''Dev stats:'' l then StateDevSectionFound else StateParsing, res)"
| "scan_line (StateDevSectionFound, res) l =
     (if str_prefix ''ident='' l \<and> str_contains ''type=MOBILE'' l then StateMobileTypeFound else StateDevSectionFound, res)"
| "scan_line (StateMobileTypeFound, res) l =
     (if \<not> is_bucket_line l then (StateMobileTypeFound, res) else collect_line [] l)"
| "scan_line (StateBucketCollecting, res) l = collect_line res l"
| "scan_line (StateBucketCollectingEnd, res) l = (StateBucketCollectingEnd, res)"

fun scan_usage :: "scan_state \<times> bucket list \<Rightarrow> string list \<Rightarrow> scan_state \<times> bucket list" where
  "scan_usage st [] = st"
| "scan_usage st (l # ls) =
     (let st' = scan_line st (str_trim ascii_space l) in
      if fst st' = StateBucketCollectingEnd then st' else scan_usage st' ls)"

text \<open>The states are numbered in the order they are declared, and a line never leads back.\<close>

fun state_number :: "scan_state \<Rightarrow> nat" where
  "state_number StateParsing = 0"
| "state_number StateDevSectionFound = 1"
| "state_number StateMobileTypeFound = 2"
| "state_number StateBucketCollecting = 3"
| "state_number StateBucketCollectingEnd = 4"

lemma state_number_inject: "state_number a = state_number b \<Longrightarrow> a = b"
  by (cases a; cases b) simp_all

instantiation scan_state :: linorder
begin

definition less_eq_scan_state :: "scan_state \<Rightarrow> scan_state \<Rightarrow> bool" where
  "less_eq_scan_state a b \<longleftrightarrow> state_number a \<le> state_number b"

definition less_scan_state :: "scan_state \<Rightarrow> scan_state \<Rightarrow> bool" where
  "less_scan_state a b \<longleftrightarrow> state_number a < state_number b"

instance
  by standard (auto simp: less_eq_scan_state_def less_scan_state_def intro: state_number_inject)

end

lemma scan_line_mono: "fst st \<le> fst (scan_line st l)"
  by (induction st l rule: scan_line.induct) (simp_all add: less_eq_scan_state_def collect_line_def)

lemma scan_usage_mono: "fst st \<le> fst (scan_usage st ls)"
proof (induction ls arbitrary: st)
  case (Cons l ls)
  have "fst st \<le> fst (scan_line st (str_trim ascii_space l))" by (rule scan_line_mono)
  with Cons.IH [of "scan_line st (str_trim ascii_space l)"] show ?case by (auto simp: Let_def)
qed simp

lemma scan_usage_prefix: "fst (scan_usage st ls) \<le> fst (scan_usage st (ls @ ms))"
  by (induction ls arbitrary: st) (auto simp: Let_def scan_usage_mono)

datatype net_error = CommandFailed string | EmptyResponse | ParseFailed scan_state | NoUsage

definition GetMobileDataUsage :: "string + string \<Rightarrow> net_error + bucket list" where
  "GetMobileDataUsage out =
     (case out of
        Inl e \<Rightarrow> Inl (CommandFailed e)
      | Inr data \<Rightarrow>
          if data = [] then Inl EmptyResponse
          else
            (case scan_usage (StateParsing, []) (scan_lines data) of
               (st, res) \<Rightarrow> if st \<noteq> StateBucketCollectingEnd then Inl (ParseFailed st) else Inr res))"

text \<open>\<open>month_start t\<close> is the first second of the month of the second \<open>t\<close>, in local time.\<close>

definition add_usage :: "bucket \<Rightarrow> bucket \<Rightarrow> bucket" where
  "add_usage e u =
     u\<lparr>bu_TxBytes := bu_TxBytes u + bu_TxBytes e, bu_TxPackets := bu_TxPackets u + bu_TxPackets e,
       bu_RxBytes := bu_RxBytes u + bu_RxBytes e, bu_RxPackets := bu_RxPackets u + bu_RxPackets e,
       bu_Active := bu_Active u + bu_Active e\<rparr>"

definition GetTotalDataUsageOfCurrentMonth :: "(i64 \<Rightarrow> i64) \<Rightarrow> string + string \<Rightarrow> net_error + bucket" where
  "GetTotalDataUsageOfCurrentMonth month_start out =
     (case GetMobileDataUsage out of
        Inl e \<Rightarrow> Inl e
      | Inr res \<Rightarrow>
          if res = [] then Inl NoUsage
          else
            (let start = month_start (i64_quot (bu_Start (last res)) 1000) * 1000;
                 usage = \<lparr>bu_Start = start, bu_Active = 0, bu_RxBytes = 0, bu_TxBytes = 0, bu_RxPackets = 0, bu_TxPackets = 0\<rparr>
             in Inr (fold (\<lambda>e u. if bu_Start e <s bu_Start u then u else add_usage e u) res usage)))"

section \<open>Properties\<close>

text \<open>
  The result in terms of the sequence of lines: after the first line of the section and the first line of a mobile
  identity after it, the first run of bucket lines, wherever it is, provided that a line follows it.
\<close>

definition is_mobile_line :: "string \<Rightarrow> bool" where
  "is_mobile_line l = (str_prefix ''ident='' l \<and> str_contains ''type=MOBILE'' l)"

definition after_first :: "('a \<Rightarrow> bool) \<Rightarrow> 'a list \<Rightarrow> 'a list option" where
  "after_first P xs = (case dropWhile (\<lambda>x. \<not> P x) xs of [] \<Rightarrow> None | y # ys \<Rightarrow> Some ys)"

definition usage_of_lines :: "string list \<Rightarrow> net_error + bucket list" where
  "usage_of_lines ls =
     (case after_first (str_prefix ''Dev stats:'') ls of
        None \<Rightarrow> Inl (ParseFailed StateParsing)
      | Some section \<Rightarrow>
          (case after_first is_mobile_line section of
             None \<Rightarrow> Inl (ParseFailed StateDevSectionFound)
           | Some rest \<Rightarrow>
               let run = dropWhile (\<lambda>l. \<not> is_bucket_line l) rest in
               if run = [] then Inl (ParseFailed StateMobileTypeFound)
               else if dropWhile is_bucket_line run = [] then Inl (ParseFailed StateBucketCollecting)
               else Inr (List.map_filter parse_bucket (takeWhile is_bucket_line run))))"

lemma after_first_simps [simp]:
  "after_first P [] = None" "after_first P (x # xs) = (if P x then Some xs else after_first P xs)"
  by (simp_all add: after_first_def)

definition usage_result :: "scan_state \<times> bucket list \<Rightarrow> net_error + bucket list" where
  "usage_result st = (if fst st \<noteq> StateBucketCollectingEnd then Inl (ParseFailed (fst st)) else Inr (snd st))"

lemma usage_result_simps [simp]:
  "usage_result (StateBucketCollectingEnd, res) = Inr res"
  "st \<noteq> StateBucketCollectingEnd \<Longrightarrow> usage_result (st, res) = Inl (ParseFailed st)"
  by (simp_all add: usage_result_def)

lemma scan_usage_Cons:
  "scan_line st (str_trim ascii_space l) = (st', res') \<Longrightarrow>
   scan_usage st (l # ls) = (if st' = StateBucketCollectingEnd then (st', res') else scan_usage (st', res') ls)"
  by simp

declare scan_usage.simps(2) [simp del]

lemma scan_collecting:
  "usage_result (scan_usage (StateBucketCollecting, res) ls) =
     (let ls = map (str_trim ascii_space) ls in
      if dropWhile is_bucket_line ls = [] then Inl (ParseFailed StateBucketCollecting)
      else Inr (res @ List.map_filter parse_bucket (takeWhile is_bucket_line ls)))"
proof (induction ls arbitrary: res)
  case (Cons l ls)
  let ?l = "str_trim ascii_space l"
  show ?case
  proof (cases "is_bucket_line ?l")
    case True
    then have "scan_line (StateBucketCollecting, res) ?l =
        (StateBucketCollecting, case parse_bucket ?l of None \<Rightarrow> res | Some bu \<Rightarrow> res @ [bu])"
      by (simp add: collect_line_def)
    from scan_usage_Cons [OF this, of ls] True Cons.IH show ?thesis
      by (cases "parse_bucket ?l") (simp_all add: Let_def map_filter_simps)
  next
    case False
    then have "scan_line (StateBucketCollecting, res) ?l = (StateBucketCollectingEnd, res)" by (simp add: collect_line_def)
    from scan_usage_Cons [OF this, of ls] False show ?thesis by (simp add: Let_def map_filter_simps)
  qed
qed simp

lemma scan_mobile:
  "usage_result (scan_usage (StateMobileTypeFound, res) ls) =
     (let run = dropWhile (\<lambda>l. \<not> is_bucket_line l) (map (str_trim ascii_space) ls) in
      if run = [] then Inl (ParseFailed StateMobileTypeFound)
      else if dropWhile is_bucket_line run = [] then Inl (ParseFailed StateBucketCollecting)
      else Inr (List.map_filter parse_bucket (takeWhile is_bucket_line run)))"
proof (induction ls)
  case (Cons l ls)
  let ?l = "str_trim ascii_space l"
  show ?case
  proof (cases "is_bucket_line ?l")
    case True
    then have "scan_line (StateMobileTypeFound, res) ?l =
        (StateBucketCollecting, case parse_bucket ?l of None \<Rightarrow> [] | Some bu \<Rightarrow> [bu])"
      by (simp add: collect_line_def split: option.split)
    from scan_usage_Cons [OF this, of ls] True show ?thesis
      by (cases "parse_bucket ?l") (simp_all add: scan_collecting Let_def map_filter_simps)
  next
    case False
    then have "scan_line (StateMobileTypeFound, res) ?l = (StateMobileTypeFound, res)" by simp
    from scan_usage_Cons [OF this, of ls] False Cons show ?thesis by (simp add: Let_def)
  qed
qed simp

lemma scan_section:
  "usage_result (scan_usage (StateDevSectionFound, res) ls) =
     (case after_first is_mobile_line (map (str_trim ascii_space) ls) of
        None \<Rightarrow> Inl (ParseFailed StateDevSectionFound)
      | Some rest \<Rightarrow>
          let run = dropWhile (\<lambda>l. \<not> is_bucket_line l) rest in
          if run = [] then Inl (ParseFailed StateMobileTypeFound)
          else if dropWhile is_bucket_line run = [] then Inl (ParseFailed StateBucketCollecting)
          else Inr (List.map_filter parse_bucket (takeWhile is_bucket_line run)))"
proof (induction ls)
  case (Cons l ls)
  let ?l = "str_trim ascii_space l"
  have "scan_line (StateDevSectionFound, res) ?l = (if is_mobile_line ?l then StateMobileTypeFound else StateDevSectionFound, res)"
    by (simp add: is_mobile_line_def)
  from scan_usage_Cons [OF this, of ls] Cons show ?case by (simp add: scan_mobile split: if_splits)
qed simp

lemma scan_usage_eq: "usage_result (scan_usage (StateParsing, res) ls) = usage_of_lines (map (str_trim ascii_space) ls)"
proof (induction ls)
  case (Cons l ls)
  let ?l = "str_trim ascii_space l"
  have "scan_line (StateParsing, res) ?l = (if str_prefix ''Dev stats:'' ?l then StateDevSectionFound else StateParsing, res)"
    by simp
  from scan_usage_Cons [OF this, of ls] Cons show ?case
    by (auto simp: scan_section usage_of_lines_def split: if_splits)
qed (simp add: usage_of_lines_def)

text \<open>
  C29. The state machine computes what the description by runs of lines gives, for every output of the command:
  the same buckets and the same errors, with the state the machine stopped in.
\<close>

theorem GetMobileDataUsage_eq:
  "GetMobileDataUsage out =
     (case out of
        Inl e \<Rightarrow> Inl (CommandFailed e)
      | Inr data \<Rightarrow>
          if data = [] then Inl EmptyResponse else usage_of_lines (map (str_trim ascii_space) (scan_lines data)))"
proof -
  have "(case st of (st, res) \<Rightarrow> if st \<noteq> StateBucketCollectingEnd then Inl (ParseFailed st) else Inr res) = usage_result st" for st
    by (simp add: usage_result_def split: prod.split)
  then show ?thesis by (simp add: GetMobileDataUsage_def scan_usage_eq split: sum.split)
qed

lemma fold_usage:
  "fold (\<lambda>e u. if bu_Start e <s bu_Start u then u else add_usage e u) res u0 =
     (let es = filter (\<lambda>e. \<not> bu_Start e <s bu_Start u0) res in
      \<lparr>bu_Start = bu_Start u0, bu_Active = bu_Active u0 + sum_list (map bu_Active es),
       bu_RxBytes = bu_RxBytes u0 + sum_list (map bu_RxBytes es), bu_TxBytes = bu_TxBytes u0 + sum_list (map bu_TxBytes es),
       bu_RxPackets = bu_RxPackets u0 + sum_list (map bu_RxPackets es), bu_TxPackets = bu_TxPackets u0 + sum_list (map bu_TxPackets es)\<rparr>)"
  by (induction res arbitrary: u0) (simp_all add: Let_def add_usage_def add.assoc)

text \<open>
  The total of the month is the sum, with wrap-around, over the buckets that do not start before the month of the
  last bucket.
\<close>

theorem month_usage:
  assumes "GetMobileDataUsage out = Inr res" "res \<noteq> []"
  shows "let start = month_start (i64_quot (bu_Start (last res)) 1000) * 1000; es = filter (\<lambda>e. start \<le>s bu_Start e) res in
    GetTotalDataUsageOfCurrentMonth month_start out =
    Inr \<lparr>bu_Start = start, bu_Active = sum_list (map bu_Active es), bu_RxBytes = sum_list (map bu_RxBytes es),
      bu_TxBytes = sum_list (map bu_TxBytes es), bu_RxPackets = sum_list (map bu_RxPackets es),
      bu_TxPackets = sum_list (map bu_TxPackets es)\<rparr>"
proof -
  have "(\<not> bu_Start e <s start) = (start \<le>s bu_Start e)" for e :: bucket and start by (auto simp: i64_order)
  with assms(1,2) show ?thesis
    by (simp add: GetTotalDataUsageOfCurrentMonth_def fold_usage Let_def)
qed

definition demo_usage :: string where
  "demo_usage = str_join [line_feed]
     [''Dev stats:'', '' ident=[type=MOBILE, metered]'', '' ident=[type=WIFI]'', ''  st=10 rb=1 rp=2 tb=3 tp=4'',
      ''  st=20 rb=1 rp=2 tb=x'', ''  st=30 rb=5 rp=6 tb=7 tp=8'', ''Xt stats:'']"

lemma demo_usage_buckets:
  "GetMobileDataUsage (Inr demo_usage) =
     Inr [\<lparr>bu_Start = 10000, bu_Active = 3600000, bu_RxBytes = 1, bu_TxBytes = 3, bu_RxPackets = 2, bu_TxPackets = 4\<rparr>,
          \<lparr>bu_Start = 30000, bu_Active = 3600000, bu_RxBytes = 5, bu_TxBytes = 7, bu_RxPackets = 6, bu_TxPackets = 8\<rparr>]"
  by code_simp

theorem month_usage_witness:
  "\<exists>u. GetTotalDataUsageOfCurrentMonth (\<lambda>t. 20) (Inr demo_usage) = Inr u \<and> bu_RxBytes u = 5 \<and> bu_Active u = 3600000"
  using month_usage [OF demo_usage_buckets, of "\<lambda>t. 20"] by (simp add: i64_order Let_def)

text \<open>
  Buckets of another identity: when the first mobile identity has no bucket lines of its own, those after a later
  identity of any type are taken, as in this output, where they are those of a WLAN.
\<close>

lemma buckets_of_another_identity:
  "GetMobileDataUsage (Inr (str_join [line_feed] [''Dev stats:'', ''ident=[type=MOBILE]'', ''ident=[type=WIFI]'', ''st=1 rb=2 rp=3 tb=4 tp=5'', ''end'']))
     = Inr [\<lparr>bu_Start = 1000, bu_Active = 3600000, bu_RxBytes = 2, bu_TxBytes = 4, bu_RxPackets = 3, bu_TxPackets = 5\<rparr>]"
  by code_simp

end
