(* ===== verification/SysNet.thy ===== *)
theory SysNet
  imports NetStats GoPaths HelperUtil HelperSys IOHelper
begin

text \<open>
  \<open>sys\<close> on Linux and Android, and the commands of package \<open>helper\<close> on the network and the user of the process: what is
  read under \<open>/sys/class\<close>, the memory of processes, the route and the ARP table. The results of system calls, of the files
  read and of shell commands are arguments.
\<close>

section \<open>The surroundings\<close>

definition SysFSNet :: string where "SysFSNet = ''/sys/class/net''"
definition SysFSIEEE80211 :: string where "SysFSIEEE80211 = ''/sys/class/ieee80211''"
definition OperStateUnknown :: string where "OperStateUnknown = ''unknown''"
definition AllZeroMAC :: string where "AllZeroMAC = ''00:00:00:00:00:00''"
definition AllZeroMACNoColon :: string where "AllZeroMACNoColon = ''000000000000''"

text \<open>
  \<open>readdir\<close> lists the names of a directory with whether they are symbolic links; \<open>statistics dev\<close> is the output of the
  command that prints the six counters of a device.
\<close>

record sys_env =
  se_stat :: stat_fun
  se_lstat :: stat_fun
  se_fs :: file_system
  se_readlink :: "string \<Rightarrow> string + string"
  se_readdir :: "string \<Rightarrow> (string \<times> bool) list option"
  se_statistics :: "string \<Rightarrow> string + string"

definition octets_of_string :: "string \<Rightarrow> byte list" where
  "octets_of_string s = map (\<lambda>c. word_of_int (int (of_char c))) s"

definition string_of_octets :: "byte list \<Rightarrow> string" where
  "string_of_octets bs = map (\<lambda>b. char_of (unat b)) bs"

definition cat_text :: "sys_env \<Rightarrow> string \<Rightarrow> string \<Rightarrow> string" where
  "cat_text en fp dfl = string_of_octets (CatTextFile (se_fs en) fp (octets_of_string dfl))"

section \<open>Devices\<close>

datatype sys_error =
    NotExisted string | NotSymlink string | LinkFailed string string | NotDirectory string | IgnoreVirtual string

definition SysNetDevExist :: "sys_env \<Rightarrow> string \<Rightarrow> sys_error option" where
  "SysNetDevExist en name =
     (if \<not> IsDir (se_stat en) (se_lstat en) SysFSNet then Some (NotExisted SysFSNet)
      else
        let fp = path_Join [SysFSNet, name] in
        if \<not> IsSymbolLink (se_stat en) (se_lstat en) fp then Some (NotSymlink fp)
        else
          (case se_readlink en fp of
             Inl e \<Rightarrow> Some (LinkFailed fp e)
           | Inr link \<Rightarrow>
               if \<not> IsDir (se_stat en) (se_lstat en) (path_Join [SysFSNet, link]) then Some (NotDirectory link) else None))"

definition GetSysNetDevOperState :: "sys_env \<Rightarrow> string \<Rightarrow> string" where
  "GetSysNetDevOperState en dev = cat_text en (path_Join [SysFSNet, dev, ''operstate'']) OperStateUnknown"

definition GetSysNetAddr :: "sys_env \<Rightarrow> string \<Rightarrow> bool \<Rightarrow> string \<times> sys_error option" where
  "GetSysNetAddr en name allowVirtual =
     (if \<not> IsDir (se_stat en) (se_lstat en) SysFSNet then ([], Some (NotExisted SysFSNet))
      else
        let fp = path_Join [SysFSNet, name] in
        if \<not> IsSymbolLink (se_stat en) (se_lstat en) fp then ([], Some (NotSymlink fp))
        else
          (case se_readlink en fp of
             Inl e \<Rightarrow> ([], Some (LinkFailed fp e))
           | Inr link \<Rightarrow>
               if str_contains ''virtual'' link \<and> \<not> allowVirtual then ([], Some (IgnoreVirtual name))
               else (str_remove (CHR '':'') (cat_text en (path_Join [SysFSNet, name, ''address'']) AllZeroMAC), None)))"

record net_statistics =
  ns_RxBytes :: int
  ns_RxPackets :: int
  ns_TxBytes :: int
  ns_TxPackets :: int
  ns_RxErrors :: int
  ns_TxErrors :: int
  ns_Device :: string

definition GetNetStatistics :: "sys_env \<Rightarrow> string \<Rightarrow> net_statistics option" where
  "GetNetStatistics en dev =
     (case se_statistics en dev of
        Inl e \<Rightarrow> None
      | Inr out \<Rightarrow>
          (case str_split (str_trim ascii_space out) [line_feed] of
             [f0, f1, f2, f3, f4, f5] \<Rightarrow>
               Some \<lparr>ns_RxBytes = AtouDef f0 0, ns_RxPackets = AtouDef f1 0, ns_TxBytes = AtouDef f3 0, ns_TxPackets = AtouDef f4 0,
                     ns_RxErrors = AtouDef f2 0, ns_TxErrors = AtouDef f5 0, ns_Device = dev\<rparr>
           | _ \<Rightarrow> None))"

text \<open>\<open>None\<close> is the nil slice of a directory that cannot be read.\<close>

definition GetAllNetStatistics :: "sys_env \<Rightarrow> string \<Rightarrow> net_statistics list option" where
  "GetAllNetStatistics en operstate =
     (case se_readdir en SysFSNet of
        None \<Rightarrow> None
      | Some entries \<Rightarrow>
          Some (List.map_filter
            (\<lambda>(name, symlink).
               if \<not> symlink then None
               else if cat_text en (path_Join [SysFSNet, name, ''operstate'']) OperStateUnknown = operstate
               then GetNetStatistics en name else None)
            entries))"

section \<open>The identifier of the machine\<close>

definition valid_mac :: "string \<Rightarrow> bool" where
  "valid_mac mac \<longleftrightarrow> \<not> (length mac \<noteq> 12 \<or> mac = AllZeroMACNoColon)"

text \<open>The loops over a directory: the first entry with a valid address.\<close>

fun wifi_mac :: "sys_env \<Rightarrow> (string \<times> bool) list \<Rightarrow> string option" where
  "wifi_mac en [] = None"
| "wifi_mac en ((name, symlink) # elems) =
     (if \<not> symlink then wifi_mac en elems
      else
        let fp = path_Join [SysFSIEEE80211, name, ''macaddress''] in
        if \<not> IsFile (se_stat en) (se_lstat en) fp then wifi_mac en elems
        else
          let mac = str_remove (CHR '':'') (cat_text en fp AllZeroMAC) in
          if length mac \<noteq> 12 \<or> mac = AllZeroMACNoColon then wifi_mac en elems else Some mac)"

fun net_mac :: "sys_env \<Rightarrow> (string \<times> bool) list \<Rightarrow> string option" where
  "net_mac en [] = None"
| "net_mac en ((name, symlink) # elems) =
     (if \<not> symlink then net_mac en elems
      else
        let mac = str_remove (CHR '':'') (cat_text en (path_Join [SysFSNet, name, ''address'']) AllZeroMAC) in
        if length mac \<noteq> 12 \<or> mac = AllZeroMACNoColon then net_mac en elems else Some mac)"

definition GetMachineID :: "sys_env \<Rightarrow> string" where
  "GetMachineID en =
     (let sysnet =
        (if \<not> IsDir (se_stat en) (se_lstat en) SysFSNet then str_remove (CHR '':'') AllZeroMAC
         else
           (case se_readdir en SysFSNet of
              None \<Rightarrow> str_remove (CHR '':'') AllZeroMAC
            | Some elems \<Rightarrow> (case net_mac en elems of Some mac \<Rightarrow> mac | None \<Rightarrow> str_remove (CHR '':'') AllZeroMAC)))
      in if \<not> IsDir (se_stat en) (se_lstat en) SysFSIEEE80211 then sysnet
         else
           (case se_readdir en SysFSIEEE80211 of
              None \<Rightarrow> sysnet
            | Some elems \<Rightarrow> (case wifi_mac en elems of Some mac \<Rightarrow> mac | None \<Rightarrow> sysnet)))"

text \<open>
  On Darwin: the interfaces, with whether they are loopback or point to point, the text of the address, and the MTU.
\<close>

record net_interface =
  if_Excluded :: bool
  if_HardwareAddr :: string
  if_MTU :: int

fun darwin_mac :: "net_interface list \<Rightarrow> string option" where
  "darwin_mac [] = None"
| "darwin_mac (i # is) =
     (if if_Excluded i then darwin_mac is
      else if length (if_HardwareAddr i) \<ge> 17 \<and> if_MTU i \<ge> 1500 then Some (str_remove (CHR '':'') (if_HardwareAddr i))
      else darwin_mac is)"

definition darwin_GetMachineID :: "net_interface list option \<Rightarrow> string" where
  "darwin_GetMachineID intfs =
     (case intfs of
        None \<Rightarrow> str_remove (CHR '':'') AllZeroMAC
      | Some is \<Rightarrow> (case darwin_mac is of Some mac \<Rightarrow> mac | None \<Rightarrow> str_remove (CHR '':'') AllZeroMAC))"

section \<open>The memory of processes\<close>

record proc_mem_info =
  pm_Name :: string
  pm_OomCompactLabel :: string
  pm_PID :: int
  pm_Pss :: int
  pm_Left :: string

definition proc_mem_line :: "string \<Rightarrow> proc_mem_info option" where
  "proc_mem_line l =
     (if \<not> str_prefix ''proc,'' l then None
      else
        case str_splitN 5 (CHR '','') (drop 5 l) of
          [f0, f1, f2, f3, f4] \<Rightarrow>
            Some \<lparr>pm_Name = f1, pm_OomCompactLabel = f0, pm_PID = AtoiDef f2 (- 1), pm_Pss = AtoiDef f3 (- 1), pm_Left = f4\<rparr>
        | _ \<Rightarrow> None)"

definition DumpProcMemInfos :: "string + string \<Rightarrow> string + proc_mem_info list" where
  "DumpProcMemInfos out =
     (case out of
        Inl e \<Rightarrow> Inl e
      | Inr data \<Rightarrow> Inr (List.map_filter (\<lambda>l. proc_mem_line (str_trim ascii_space l)) (scan_lines data)))"

section \<open>ARP, route and user\<close>

datatype ip_error = InvalidIP string | ResolveFailed string string | NoARPEntry string

definition IP2Mac :: "(string \<Rightarrow> string + string) \<Rightarrow> string \<Rightarrow> bool \<Rightarrow> ip_error + string" where
  "IP2Mac arp ip withColon =
     (if length ip < 7 then Inl (InvalidIP ip)
      else
        case arp ip of
          Inl e \<Rightarrow> Inl (ResolveFailed ip e)
        | Inr out \<Rightarrow>
            (let out = str_trim ascii_space out in
             if length out < 17 then Inl (NoARPEntry ip)
             else Inr (if \<not> withColon then str_remove (CHR '':'') out else out)))"

text \<open>
  The regular expression \<open>default via (\S+) dev (\S+) *.*\<close> at the first place where it matches; what follows the second
  group always matches.
\<close>

definition re_space :: "char set" where
  "re_space = {CHR 0x09, CHR 0x0A, CHR 0x0C, CHR 0x0D, CHR '' ''}"

definition word_of :: "string \<Rightarrow> string" where
  "word_of s = takeWhile (\<lambda>c. c \<notin> re_space) s"

definition after_prefix :: "string \<Rightarrow> string \<Rightarrow> string option" where
  "after_prefix p s = (if str_prefix p s then Some (drop (length p) s) else None)"

definition match_route :: "string \<Rightarrow> (string \<times> string) option" where
  "match_route s =
     (case after_prefix ''default via '' s of
        None \<Rightarrow> None
      | Some s1 \<Rightarrow>
          (let hop = word_of s1 in
           if hop = [] then None
           else
             case after_prefix '' dev '' (drop (length hop) s1) of
               None \<Rightarrow> None
             | Some s2 \<Rightarrow> (let dev = word_of s2 in if dev = [] then None else Some (hop, dev))))"

fun find_route :: "string \<Rightarrow> (string \<times> string) option" where
  "find_route [] = match_route []"
| "find_route (c # cs) = (case match_route (c # cs) of Some m \<Rightarrow> Some m | None \<Rightarrow> find_route cs)"

datatype route_error = RouteCommand string | NoDefaultRoute

definition GetDefaultRoute :: "string + string \<Rightarrow> route_error + string \<times> string" where
  "GetDefaultRoute out =
     (case out of
        Inl e \<Rightarrow> Inl (RouteCommand e)
      | Inr data \<Rightarrow>
          (case find_route (str_trim ascii_space data) of Some m \<Rightarrow> Inr m | None \<Rightarrow> Inl NoDefaultRoute))"

text \<open>The user of the process; \<open>syscall.Setuid\<close> and, after it, the one of the C library give an error or the new user.\<close>

datatype user_error = LookupFailed string | InvalidUid string string | CgoSetuidFailed int string

definition SetProcessUser ::
    "(string \<Rightarrow> string + string) \<Rightarrow> (int \<Rightarrow> string option) \<Rightarrow> (int \<Rightarrow> string option) \<Rightarrow> string \<Rightarrow> int \<Rightarrow> user_error option \<times> int" where
  "SetProcessUser lookup setuid cgo_setuid userName uid =
     (case lookup userName of
        Inl e \<Rightarrow> (Some (LookupFailed e), uid)
      | Inr s \<Rightarrow>
          (case ParseInt s of
             Inl e \<Rightarrow> (Some (InvalidUid s userName), uid)
           | Inr want \<Rightarrow>
               if uid = want then (None, uid)
               else
                 (case setuid want of
                    None \<Rightarrow> (None, want)
                  | Some e \<Rightarrow>
                      (case cgo_setuid want of
                         None \<Rightarrow> (None, want)
                       | Some e' \<Rightarrow> (Some (CgoSetuidFailed want e'), uid)))))"

section \<open>Properties\<close>

lemma str_remove_AllZeroMAC: "str_remove (CHR '':'') AllZeroMAC = AllZeroMACNoColon" "length AllZeroMACNoColon = 12"
  by (simp_all add: str_remove_def AllZeroMAC_def AllZeroMACNoColon_def)

text \<open>The addresses the two loops look at, in order.\<close>

definition link_mac :: "sys_env \<Rightarrow> string \<Rightarrow> string" where
  "link_mac en fp = str_remove (CHR '':'') (cat_text en fp AllZeroMAC)"

definition wifi_macs :: "sys_env \<Rightarrow> string list" where
  "wifi_macs en =
     (if IsDir (se_stat en) (se_lstat en) SysFSIEEE80211 then
        map (link_mac en)
          (filter (IsFile (se_stat en) (se_lstat en))
            (map (\<lambda>(name, _). path_Join [SysFSIEEE80211, name, ''macaddress''])
              (filter snd (case se_readdir en SysFSIEEE80211 of None \<Rightarrow> [] | Some es \<Rightarrow> es))))
      else [])"

definition net_macs :: "sys_env \<Rightarrow> string list" where
  "net_macs en =
     (if IsDir (se_stat en) (se_lstat en) SysFSNet then
        map (link_mac en)
          (map (\<lambda>(name, _). path_Join [SysFSNet, name, ''address''])
            (filter snd (case se_readdir en SysFSNet of None \<Rightarrow> [] | Some es \<Rightarrow> es)))
      else [])"

lemma wifi_mac_find:
  "wifi_mac en es = find valid_mac (map (link_mac en) (filter (IsFile (se_stat en) (se_lstat en))
     (map (\<lambda>(name, _). path_Join [SysFSIEEE80211, name, ''macaddress'']) (filter snd es))))"
  by (induction en es rule: wifi_mac.induct) (auto simp: Let_def valid_mac_def link_mac_def)

lemma net_mac_find:
  "net_mac en es = find valid_mac (map (link_mac en) (map (\<lambda>(name, _). path_Join [SysFSNet, name, ''address'']) (filter snd es)))"
  by (induction en es rule: net_mac.induct) (auto simp: Let_def valid_mac_def link_mac_def)

lemma find_append: "find P (xs @ ys) = (case find P xs of None \<Rightarrow> find P ys | Some x \<Rightarrow> Some x)"
  by (induction xs) auto

text \<open>
  The identifier of the machine is the first valid address, twelve digits that are not all zero, among those of
  the wireless devices and then those of all network devices, and twelve zeros when there is none, whatever can be
  read; it always has twelve characters.
\<close>

theorem GetMachineID_first_valid:
  "GetMachineID en = (case find valid_mac (wifi_macs en @ net_macs en) of None \<Rightarrow> AllZeroMACNoColon | Some mac \<Rightarrow> mac)
   \<and> length (GetMachineID en) = 12"
proof -
  have "GetMachineID en = (case find valid_mac (wifi_macs en @ net_macs en) of None \<Rightarrow> AllZeroMACNoColon | Some mac \<Rightarrow> mac)"
    by (simp add: GetMachineID_def wifi_mac_find net_mac_find find_append wifi_macs_def net_macs_def Let_def
        str_remove_AllZeroMAC split: option.split)
  moreover have "length mac = 12" if "find valid_mac macs = Some mac" for macs mac
    using that by (auto simp: find_Some_iff valid_mac_def)
  ultimately show ?thesis by (simp add: str_remove_AllZeroMAC split: option.split)
qed

text \<open>
  A line of the memory report is read back, whatever its last field holds.\<close>

theorem proc_mem_round_trip:
  assumes "CHR '','' \<notin> set label \<union> set name" "in_i64 pid" "in_i64 pss"
  shows "proc_mem_line (''proc,'' @ label @ '','' @ name @ '','' @ FormatInt pid @ '','' @ FormatInt pss @ '','' @ rest) =
    Some \<lparr>pm_Name = name, pm_OomCompactLabel = label, pm_PID = pid, pm_Pss = pss, pm_Left = rest\<rparr>"
proof -
  have "CHR '','' \<noteq> digit_char d" if "d < 10" for d
    using that by (auto simp: digit_char_def dest!: arg_cong [of _ _ "of_char :: char \<Rightarrow> nat"])
  then have "CHR '','' \<notin> set (FormatInt v)" for v
    using set_nat_digits by (auto simp: FormatInt_def)
  with assms show ?thesis
    by (simp add: proc_mem_line_def numeral_eq_Suc AtoiDef_FormatInt del: str_splitN.simps(3))
qed

theorem proc_mem_round_trip_witness:
  "proc_mem_line (''proc,'' @ ''fore'' @ '','' @ ''app'' @ '','' @ FormatInt 17 @ '','' @ FormatInt 300 @ '','' @ ''a,b'') =
    Some \<lparr>pm_Name = ''app'', pm_OomCompactLabel = ''fore'', pm_PID = 17, pm_Pss = 300, pm_Left = ''a,b''\<rparr>"
  by (rule proc_mem_round_trip) (simp_all add: in_i64_def)

lemma word_of_append: "set w \<inter> re_space = {} \<Longrightarrow> c \<in> re_space \<Longrightarrow> word_of (w @ c # rest) = w"
  unfolding word_of_def by (subst takeWhile_append2) auto

lemma word_of_end: "set w \<inter> re_space = {} \<Longrightarrow> word_of w = w"
  unfolding word_of_def by (rule takeWhile_eq_all_conv [THEN iffD2]) blast

text \<open>
  The default route in what \<open>ip route\<close> prints is found, with and without further words on the line.\<close>

theorem default_route_found:
  assumes "set hop \<inter> re_space = {}" "set dev \<inter> re_space = {}" "hop \<noteq> []" "dev \<noteq> []"
    and "rest = [] \<or> hd rest \<in> re_space"
  shows "find_route (''default via '' @ hop @ '' dev '' @ dev @ rest) = Some (hop, dev)"
proof -
  have "word_of (dev @ rest) = dev"
    using assms(2,5) word_of_append [of dev "hd rest" "tl rest"] word_of_end [of dev] by (cases rest) auto
  moreover have "word_of (hop @ '' dev '' @ s) = hop" for s
    using word_of_append [OF assms(1), of "CHR '' ''" "''dev '' @ s"] by (simp add: re_space_def)
  ultimately have "match_route (''default via '' @ hop @ '' dev '' @ dev @ rest) = Some (hop, dev)"
    using assms(3,4) by (simp add: match_route_def after_prefix_def Let_def)
  then show ?thesis by simp
qed

theorem default_route_found_witness:
  "find_route (''default via '' @ ''10.0.0.1'' @ '' dev '' @ ''eth0'' @ '' proto static'') = Some (''10.0.0.1'', ''eth0'')"
  by (rule default_route_found) (simp_all add: re_space_def)

end
