(* ===== verification/SysCalls.thy ===== *)
theory SysCalls
  imports SysNet
begin

text \<open>
  What reaches the C library or the kernel: the log of Android (\<open>logger/logcat.go\<close>), the clock and the load of
  the machine (\<open>sys/sysCgo*.go\<close>), \<open>Setuid\<close>, and the small calls of package \<open>sys\<close>. The functions of C and of the kernel
  are arguments; memory the code gets from C is counted, as it has to be given back.
\<close>

section \<open>Memory of C\<close>

text \<open>The blocks in use, by number.\<close>

record c_heap =
  ch_live :: "nat list"
  ch_next :: nat

definition c_malloc :: "c_heap \<Rightarrow> nat \<times> c_heap" where
  "c_malloc h = (ch_next h, \<lparr>ch_live = ch_next h # ch_live h, ch_next = Suc (ch_next h)\<rparr>)"

definition c_free :: "nat \<Rightarrow> c_heap \<Rightarrow> c_heap" where
  "c_free p h = h\<lparr>ch_live := remove1 p (ch_live h)\<rparr>"

lemma c_free_malloc: "c_malloc h = (p, h') \<Longrightarrow> ch_live (c_free p h') = ch_live h"
  by (auto simp: c_malloc_def c_free_def)

text \<open>What C sees of a string: the part before the first zero octet.\<close>

definition c_text :: "string \<Rightarrow> string" where
  "c_text s = takeWhile (\<lambda>c. c \<noteq> CHR 0x00) s"

section \<open>The log of Android\<close>

datatype android_priority =
    AndroidLogUnknown | AndroidLogDefault | AndroidLogVerbose | AndroidLogDebug | AndroidLogInfo | AndroidLogWarn
  | AndroidLogError | AndroidLogFatal | AndroidLogSilent

fun android_code :: "android_priority \<Rightarrow> int" where
  "android_code AndroidLogUnknown = 0"
| "android_code AndroidLogDefault = 1"
| "android_code AndroidLogVerbose = 2"
| "android_code AndroidLogDebug = 3"
| "android_code AndroidLogInfo = 4"
| "android_code AndroidLogWarn = 5"
| "android_code AndroidLogError = 6"
| "android_code AndroidLogFatal = 7"
| "android_code AndroidLogSilent = 8"

record logcat_logger =
  lc_priority :: android_priority
  lc_tag :: string

text \<open>\<open>android_log\<close> is \<open>__android_log_write\<close> with its result and the \<open>errno\<close> it sets. A count is what the writer returns.\<close>

definition logcat_Write ::
    "(int \<Rightarrow> string \<Rightarrow> string \<Rightarrow> int \<times> string option) \<Rightarrow> logcat_logger \<Rightarrow> string \<Rightarrow> c_heap \<Rightarrow> (int \<times> string option) \<times> c_heap" where
  "logcat_Write android_log l p h =
     (case c_malloc h of (cstr, h1) \<Rightarrow>
        (case android_log (android_code (lc_priority l)) (lc_tag l) (c_text p) of
           (ret, Some e) \<Rightarrow> ((ret, Some e), c_free cstr h1)
         | (ret, None) \<Rightarrow> ((int (length p), None), c_free cstr h1)))"

text \<open>The logger, its prefix and its flags; the tag stays in memory of C.\<close>

definition NewLogcatLogger :: "android_priority \<Rightarrow> string \<Rightarrow> c_heap \<Rightarrow> (logcat_logger \<times> string \<times> int) \<times> c_heap" where
  "NewLogcatLogger priority tag h =
     (case c_malloc h of (p, h1) \<Rightarrow> ((\<lparr>lc_priority = priority, lc_tag = c_text tag\<rparr>, [], 0), h1))"

lemma logcat_Write_heap: "ch_live (snd (logcat_Write android_log l p h)) = ch_live h"
  by (auto simp: logcat_Write_def c_malloc_def c_free_def split: prod.splits option.splits)

section \<open>Clock and load\<close>

text \<open>\<open>settimeofday\<close> gives a result and an error.\<close>

definition SetTimeOfDay :: "(int \<times> int \<Rightarrow> int \<times> string option) \<Rightarrow> int \<Rightarrow> string option" where
  "SetTimeOfDay settimeofday sec = (case settimeofday (sec, 0) of (ret, err) \<Rightarrow> if ret \<noteq> 0 then err else None)"

definition avgSample :: int where "avgSample = 3"

text \<open>
  \<open>getloadavg\<close> gives the number of samples and the samples, \<open>to_float32\<close> narrows one. The block is freed by a
  deferred call that an early return does not reach.
\<close>

definition GetLoadAVG :: "int \<times> 'd list \<Rightarrow> ('d \<Rightarrow> 'f) \<Rightarrow> c_heap \<Rightarrow> (int + 'f list) \<times> c_heap" where
  "GetLoadAVG getloadavg to_float32 h =
     (case c_malloc h of (tmp, h1) \<Rightarrow>
        (case getloadavg of (ret, avg) \<Rightarrow>
           if ret \<noteq> avgSample then (Inl ret, h1)
           else (Inr (map to_float32 (take (nat avgSample) avg)), c_free tmp h1)))"

text \<open>Every call that fails leaves its block behind, and no other does.\<close>

theorem load_avg_leaks:
  "length (ch_live (fold (\<lambda>g h. snd (GetLoadAVG g to_float32 h)) gs h)) =
     length (ch_live h) + length (filter (\<lambda>g. fst g \<noteq> avgSample) gs)"
proof (induction gs arbitrary: h)
  case (Cons g gs)
  have "length (ch_live (snd (GetLoadAVG g to_float32 h))) = length (ch_live h) + (if fst g \<noteq> avgSample then 1 else 0)"
    by (cases g) (simp add: GetLoadAVG_def c_malloc_def c_free_def)
  with Cons.IH [of "snd (GetLoadAVG g to_float32 h)"] show ?case by simp
qed simp

section \<open>The system and its users\<close>

definition GetUptime_linux :: "string + int \<Rightarrow> int \<times> string option" where
  "GetUptime_linux sysinfo = (case sysinfo of Inl e \<Rightarrow> (0, Some e) | Inr up \<Rightarrow> (up, None))"

text \<open>On Darwin from the time of the last boot, \<open>now\<close> being the time of the call.\<close>

definition GetUptime_darwin :: "int \<times> int \<Rightarrow> int \<Rightarrow> int \<times> int option" where
  "GetUptime_darwin sysctl now = (case sysctl of (ret, boot) \<Rightarrow> if ret \<noteq> 0 then (0, Some ret) else (now - boot, None))"

definition GetAllNetStatistics_darwin :: "string \<Rightarrow> 'n list" where
  "GetAllNetStatistics_darwin operstate = []"

definition GetCurrentUsername :: "string + string \<Rightarrow> string \<times> string option" where
  "GetCurrentUsername current =
     (case current of Inl e \<Rightarrow> ([], Some (''get current user failed, '' @ e)) | Inr name \<Rightarrow> (name, None))"

text \<open>\<open>stat\<close> gives an error or the information of the system, which may be of another type.\<close>

datatype file_info_error = StatError string | NotStatT

definition GetFileInfo :: "string + 'i option \<Rightarrow> file_info_error + 'i" where
  "GetFileInfo stat =
     (case stat of Inl e \<Rightarrow> Inl (StatError e) | Inr None \<Rightarrow> Inl NotStatT | Inr (Some i) \<Rightarrow> Inr i)"

definition SetProcessFileLimit :: "(64 word \<Rightarrow> 64 word \<Rightarrow> string option) \<Rightarrow> 64 word \<Rightarrow> 64 word \<Rightarrow> string option" where
  "SetProcessFileLimit setrlimit soft hard =
     map_option (\<lambda>e. ''set rlimit for NOFILE failed: '' @ e) (setrlimit soft hard)"

text \<open>\<open>Setuid\<close> through C; the number goes through the 32-bit type of user identifiers.\<close>

definition Setuid :: "(32 word \<Rightarrow> int) \<Rightarrow> int \<Rightarrow> string option" where
  "Setuid c_setuid uid =
     (let res = c_setuid (word_of_int uid) in
      if res \<noteq> 0 then Some (''setuid('' @ FormatInt uid @ '') failed, ret: '' @ FormatInt res) else None)"

text \<open>
  Changing the user succeeds exactly when the name has a number and either the process has it already or one of the two
  ways to set it works; then, and only then, the process has it (a number of the system's users fits 32 bits).
\<close>

theorem set_process_user:
  "(fst (SetProcessUser lookup setuid (Setuid c_setuid) name uid) = None \<longleftrightarrow>
      (case lookup name of
         Inl e \<Rightarrow> False
       | Inr s \<Rightarrow> (case ParseInt s of
           Inl e \<Rightarrow> False | Inr want \<Rightarrow> uid = want \<or> setuid want = None \<or> c_setuid (word_of_int want) = 0)))
   \<and> (case SetProcessUser lookup setuid (Setuid c_setuid) name uid of
        (None, uid') \<Rightarrow> (\<exists>s. lookup name = Inr s \<and> ParseInt s = Inr uid')
      | (Some e, uid') \<Rightarrow> uid' = uid)"
  by (auto simp: SetProcessUser_def Setuid_def Let_def split: sum.splits option.splits)

end
