(* ===== verification/Logger.thy ===== *)
theory Logger
  imports GoPrelude
begin

text \<open>
  \<open>logger\<close>: levels, a logger for each, and filters. A message is a format with its values, of any type, and the
  text \<open>fmt.Sprintf\<close> gives for it is an argument; so is the position \<open>runtime.Caller\<close> finds.
\<close>

section \<open>State\<close>

text \<open>A \<open>LogLevel\<close> is an integer, and any integer can be passed.\<close>

definition EMERGENCY :: int where "EMERGENCY = 0"
definition ALERT :: int where "ALERT = 1"
definition CRITICAL :: int where "CRITICAL = 2"
definition ERROR_LEVEL :: int where "ERROR_LEVEL = 3"
definition WARNING :: int where "WARNING = 4"
definition NOTICE :: int where "NOTICE = 5"
definition INFO :: int where "INFO = 6"
definition DEBUG :: int where "DEBUG = 7"
definition LoggerNum :: int where "LoggerNum = DEBUG + 1"

lemmas level_defs = EMERGENCY_def ALERT_def CRITICAL_def ERROR_LEVEL_def WARNING_def NOTICE_def INFO_def DEBUG_def LoggerNum_def

definition LogLevelString :: "string list" where
  "LogLevelString = [''Emergency'', ''Alert'', ''Critical'', ''Error'', ''Warning'', ''Notice'', ''Info'', ''Debug'']"

datatype log_target = Stdout | Stderr

record go_logger =
  gl_out :: log_target
  gl_prefix :: string
  gl_flags :: int

text \<open>
  The variables of the package. A logger is \<open>None\<close> when it is nil; the filters are a map, listed in the order of an
  iteration.
\<close>

type_synonym 'm log_filter = "int \<Rightarrow> 'm \<Rightarrow> bool"

record 'm log_state =
  lg_level :: int
  lg_loggers :: "go_logger option list"
  lg_filters :: "(string \<times> 'm log_filter) list"

definition init_loggers :: "'m log_state" where
  "init_loggers =
     \<lparr>lg_level = INFO,
      lg_loggers = map (\<lambda>i. Some \<lparr>gl_out = (if int i > ERROR_LEVEL then Stdout else Stderr),
        gl_prefix = LogLevelString ! i @ '': '', gl_flags = 0\<rparr>) [0..<nat LoggerNum],
      lg_filters = []\<rparr>"

fun put_filter :: "string \<Rightarrow> 'a \<Rightarrow> (string \<times> 'a) list \<Rightarrow> (string \<times> 'a) list" where
  "put_filter name f [] = [(name, f)]"
| "put_filter name f ((n, g) # fs) = (if n = name then (n, f) # fs else (n, g) # put_filter name f fs)"

definition RegisterFilter :: "string \<Rightarrow> 'm log_filter \<Rightarrow> 'm log_state \<Rightarrow> 'm log_state" where
  "RegisterFilter name f s = s\<lparr>lg_filters := put_filter name f (lg_filters s)\<rparr>"

section \<open>Logging\<close>

text \<open>Element \<open>level\<close> of the loggers: out of range and a nil logger panic.\<close>

definition logger_at :: "'m log_state \<Rightarrow> int \<Rightarrow> go_logger option outcome" where
  "logger_at s level =
     (if level < 0 \<or> int (length (lg_loggers s)) \<le> level then Panics else Returns (lg_loggers s ! nat level))"

definition print_to :: "go_logger option \<Rightarrow> string \<Rightarrow> (go_logger \<times> string) list outcome" where
  "print_to l text = (case l of None \<Rightarrow> Panics | Some l \<Rightarrow> Returns [(l, text)])"

definition located :: "(string \<times> int) option \<Rightarrow> string \<Rightarrow> string" where
  "located caller text = (case caller of None \<Rightarrow> text | Some (f, l) \<Rightarrow> ''<'' @ f @ '':'' @ FormatInt l @ ''> '' @ text)"

text \<open>\<open>Caller\<close>, from the frame \<open>runtime.Caller\<close> finds, if there is one.\<close>

definition log_Caller :: "(string \<times> int) option \<Rightarrow> string" where
  "log_Caller frame = (case frame of Some (f, l) \<Rightarrow> f @ '':'' @ FormatInt l | None \<Rightarrow> [])"

text \<open>\<open>Log\<close>: what is printed, and on which logger.\<close>

definition Log ::
    "('m \<Rightarrow> string) \<Rightarrow> (string \<times> int) option \<Rightarrow> 'm log_state \<Rightarrow> int \<Rightarrow> 'm \<Rightarrow> (go_logger \<times> string) list outcome" where
  "Log show caller s level m =
     (if \<not> list_all (\<lambda>(_, f). f level m) (lg_filters s) then Returns []
      else if level \<le> lg_level s then
        (if level \<le> ERROR_LEVEL \<and> caller \<noteq> None
         then bind_outcome (logger_at s level) (\<lambda>l. print_to l (located caller (show m)))
         else bind_outcome (logger_at s level) (\<lambda>l. print_to l (show m)))
      else Returns [])"

definition LogE where "LogE show caller s m = Log show caller s ERROR_LEVEL m"

definition LogD where
  "LogD show caller s m = (if lg_level s < DEBUG then Returns [] else Log show caller s DEBUG m)"

definition LogI where
  "LogI show caller s m = (if lg_level s < INFO then Returns [] else Log show caller s INFO m)"

definition LogW where
  "LogW show caller s m = (if lg_level s < WARNING then Returns [] else Log show caller s WARNING m)"

text \<open>\<open>Panicf\<close>: the text of the panic.\<close>

definition Panicf :: "('m \<Rightarrow> string) \<Rightarrow> (string \<times> int) option \<Rightarrow> 'm \<Rightarrow> string" where
  "Panicf show caller m = located caller (show m)"

definition SetLevel ::
    "('m \<Rightarrow> string) \<Rightarrow> (string \<times> int) option \<Rightarrow> (int \<Rightarrow> 'm) \<Rightarrow> int \<Rightarrow> 'm log_state \<Rightarrow>
     ((go_logger \<times> string) list \<times> 'm log_state) outcome" where
  "SetLevel show caller msg level s =
     (let s' = s\<lparr>lg_level := level\<rparr> in bind_outcome (LogI show caller s' (msg level)) (\<lambda>out. Returns (out, s')))"

text \<open>A nil logger panics.\<close>

definition SetFlagForAll :: "int \<Rightarrow> 'm log_state \<Rightarrow> 'm log_state outcome" where
  "SetFlagForAll flag s =
     bind_outcome (collect_outcomes (map (\<lambda>l. case l of None \<Rightarrow> Panics | Some l \<Rightarrow> Returns (Some (l\<lparr>gl_flags := flag\<rparr>))) (lg_loggers s)))
       (\<lambda>ls. Returns (s\<lparr>lg_loggers := ls\<rparr>))"

definition GetLogger :: "'m log_state \<Rightarrow> int \<Rightarrow> go_logger option outcome" where
  "GetLogger s level = (if level > LoggerNum then Returns None else logger_at s level)"

definition SetLogger :: "int \<Rightarrow> go_logger option \<Rightarrow> 'm log_state \<Rightarrow> 'm log_state outcome" where
  "SetLogger level l s =
     (if level \<ge> LoggerNum then Returns s
      else if level < 0 then Panics
      else Returns (s\<lparr>lg_loggers := (lg_loggers s)[nat level := l]\<rparr>))"

section \<open>Properties\<close>

text \<open>There is a logger for each level, as after the initialisation.\<close>

definition lg_ok :: "'m log_state \<Rightarrow> bool" where
  "lg_ok s \<longleftrightarrow> length (lg_loggers s) = 8 \<and> None \<notin> set (lg_loggers s)"

lemma init_loggers_ok: "lg_ok init_loggers"
  by (auto simp: lg_ok_def init_loggers_def level_defs)

lemma SetLogger_ok:
  assumes "lg_ok s" "SetLogger level (Some l) s = Returns s'"
  shows "lg_ok s'"
proof -
  have "None \<notin> set ((lg_loggers s)[nat level := Some l])"
    using assms(1) set_update_subset_insert [of "lg_loggers s" "nat level" "Some l"] by (auto simp: lg_ok_def)
  with assms show ?thesis by (auto simp: lg_ok_def SetLogger_def split: if_splits)
qed

lemma logger_at_ok: "lg_ok s \<Longrightarrow> 0 \<le> level \<Longrightarrow> level < 8 \<Longrightarrow> \<exists>l. logger_at s level = Returns (Some l)"
proof -
  assume a: "lg_ok s" "0 \<le> level" "level < 8"
  then have "lg_loggers s ! nat level \<in> set (lg_loggers s)" by (simp add: lg_ok_def)
  with a have "lg_loggers s ! nat level \<noteq> None" by (metis lg_ok_def)
  with a show ?thesis by (auto simp: logger_at_def lg_ok_def)
qed

text \<open>
  With a logger for each level, \<open>Log\<close> prints a message of one of the levels once, on the logger of its level,
  exactly when all filters pass it and the level is at most the one that is set, and nothing otherwise; with
  the level set to at most \<open>DEBUG\<close> no message of a level that is not negative panics.
\<close>

theorem Log_prints_iff:
  assumes "lg_ok s" "0 \<le> level" "level < LoggerNum \<or> lg_level s < LoggerNum"
  shows "\<exists>out. Log show caller s level m = Returns out
    \<and> (if list_all (\<lambda>(_, f). f level m) (lg_filters s) \<and> level \<le> lg_level s
       then \<exists>l text. logger_at s level = Returns (Some l) \<and> out = [(l, text)] else out = [])"
proof (cases "list_all (\<lambda>(_, f). f level m) (lg_filters s) \<and> level \<le> lg_level s")
  case True
  with assms obtain l where "logger_at s level = Returns (Some l)"
    using logger_at_ok [of s level] by (auto simp: level_defs)
  with True show ?thesis by (auto simp: Log_def print_to_def)
qed (auto simp: Log_def)

theorem Log_prints_iff_witness:
  "\<exists>out. Log id None init_loggers WARNING ''disk full'' = Returns out \<and> length out = 1
     \<and> Log id None init_loggers DEBUG ''tick'' = Returns []"
proof -
  have w: "0 \<le> WARNING" "WARNING < LoggerNum" "0 \<le> DEBUG" "DEBUG < LoggerNum" "WARNING \<le> INFO" "\<not> DEBUG \<le> INFO"
    by (simp_all add: level_defs)
  from Log_prints_iff [OF init_loggers_ok w(1), of id None "''disk full''"] Log_prints_iff [OF init_loggers_ok w(3), of id None "''tick''"] w
  show ?thesis by (auto simp: init_loggers_def)
qed

text \<open>
  \<open>GetLogger\<close> panics for negative levels and for \<open>LoggerNum\<close> itself, the first level past the last, which the test
  lets through; \<open>SetLogger\<close> ignores that level.
\<close>

theorem GetLogger_panics_iff:
  assumes "lg_ok s"
  shows "GetLogger s level = Panics \<longleftrightarrow> level < 0 \<or> level = LoggerNum"
  using assms logger_at_ok [OF assms, of level]
  by (cases "0 \<le> level \<and> level < 8") (auto simp: GetLogger_def logger_at_def lg_ok_def level_defs)

theorem GetLogger_panics_iff_witness: "GetLogger (init_loggers :: string log_state) LoggerNum = Panics"
  using GetLogger_panics_iff [OF init_loggers_ok] by blast

end
