(* ===== verification/SyncMap.thy ===== *)
theory SyncMap
  imports FastJson
begin

text \<open>
  \<open>syncmap\<close> and \<open>conf\<close>: a map whose keys and values have the types given at its creation, and configurations kept in
  memory. The locks make each operation one step; \<open>ForEach\<close> holds the lock while it calls the function.
\<close>

section \<open>Typed maps\<close>

text \<open>The entries, without duplicate keys, in the order of an iteration.\<close>

record ('t, 'k, 'v) sync_map =
  sm_elems :: "('k \<times> 'v) list"
  sm_keyType :: 't
  sm_valueType :: 't

datatype 't sm_error = NilTypes | NotComparable 't | NilKey | WrongKeyType 't 't | WrongValueType 't 't

definition sm_New :: "('t \<Rightarrow> bool) \<Rightarrow> 't option \<Rightarrow> 't option \<Rightarrow> 't sm_error + ('t, 'k, 'v) sync_map" where
  "sm_New comparable keyType valueType =
     (case (keyType, valueType) of
        (Some kt, Some vt) \<Rightarrow>
          if \<not> comparable kt then Inl (NotComparable kt)
          else Inr \<lparr>sm_elems = [], sm_keyType = kt, sm_valueType = vt\<rparr>
      | _ \<Rightarrow> Inl NilTypes)"

text \<open>\<open>SetMapIndex\<close>; without a value it deletes.\<close>

fun set_index :: "'k \<Rightarrow> 'v option \<Rightarrow> ('k \<times> 'v) list \<Rightarrow> ('k \<times> 'v) list" where
  "set_index k v [] = (case v of None \<Rightarrow> [] | Some x \<Rightarrow> [(k, x)])"
| "set_index k v ((k', x') # es) =
     (if k' = k then (case v of None \<Rightarrow> es | Some x \<Rightarrow> (k, x) # es) else (k', x') # set_index k v es)"

definition sm_Add ::
    "('t, 'k) iface \<Rightarrow> ('t, 'v) iface \<Rightarrow> ('t, 'k, 'v) sync_map \<Rightarrow> 't sm_error option \<times> ('t, 'k, 'v) sync_map" where
  "sm_Add key val m =
     (case key of
        None \<Rightarrow> (Some NilKey, m)
      | Some (kt, k) \<Rightarrow>
          if kt \<noteq> sm_keyType m then (Some (WrongKeyType kt (sm_keyType m)), m)
          else
            (case val of
               None \<Rightarrow> (None, m\<lparr>sm_elems := set_index k None (sm_elems m)\<rparr>)
             | Some (vt, v) \<Rightarrow>
                 if vt \<noteq> sm_valueType m then (Some (WrongValueType vt (sm_valueType m)), m)
                 else (None, m\<lparr>sm_elems := set_index k (Some v) (sm_elems m)\<rparr>)))"

definition sm_Delete :: "('t, 'k) iface \<Rightarrow> ('t, 'k, 'v) sync_map \<Rightarrow> 't sm_error option \<times> ('t, 'k, 'v) sync_map" where
  "sm_Delete key m = sm_Add key None m"

definition sm_lookup :: "('t, 'k) iface \<Rightarrow> ('t, 'k, 'v) sync_map \<Rightarrow> 'v option" where
  "sm_lookup key m =
     (case key of
        None \<Rightarrow> None
      | Some (kt, k) \<Rightarrow> if kt \<noteq> sm_keyType m then None else map_of (sm_elems m) k)"

definition sm_Has :: "('t, 'k) iface \<Rightarrow> ('t, 'k, 'v) sync_map \<Rightarrow> bool" where
  "sm_Has key m = (sm_lookup key m \<noteq> None)"

definition sm_Get :: "('t, 'k) iface \<Rightarrow> ('t, 'k, 'v) sync_map \<Rightarrow> ('t, 'v) iface" where
  "sm_Get key m = (case sm_lookup key m of None \<Rightarrow> None | Some v \<Rightarrow> Some (sm_valueType m, v))"

definition sm_ValueSlice :: "('t, 'k, 'v) sync_map \<Rightarrow> 'v list" where
  "sm_ValueSlice m = fold (\<lambda>(k, v) s. s @ [v]) (sm_elems m) []"

definition sm_KeySlice :: "('t, 'k, 'v) sync_map \<Rightarrow> 'k list" where
  "sm_KeySlice m = fold (\<lambda>k s. s @ [k]) (map fst (sm_elems m)) []"

definition sm_ForEach :: "('k \<Rightarrow> 'v \<Rightarrow> 's \<Rightarrow> 's) \<Rightarrow> ('t, 'k, 'v) sync_map \<Rightarrow> 's \<Rightarrow> 's" where
  "sm_ForEach cb m s = fold (\<lambda>(k, v). cb k v) (sm_elems m) s"

definition sm_Size :: "('t, 'k, 'v) sync_map \<Rightarrow> nat" where
  "sm_Size m = length (sm_elems m)"

section \<open>Configurations\<close>

type_synonym 'f conf = "string \<rightharpoonup> 'f jval"

datatype conf_error = NoEntry string | BadType string | BadNumber string

definition NewConf :: "'f conf" where "NewConf = Map.empty"

definition conf_Get :: "'f conf \<Rightarrow> string \<Rightarrow> conf_error + 'f jval" where
  "conf_Get c uid = (case c uid of Some elem \<Rightarrow> Inr elem | None \<Rightarrow> Inl (NoEntry uid))"

definition conf_Set :: "string \<Rightarrow> 'f jval \<Rightarrow> 'f conf \<Rightarrow> 'f conf" where
  "conf_Set uid val c = c(uid \<mapsto> val)"

definition conf_GetString :: "'f conf \<Rightarrow> string \<Rightarrow> conf_error + string" where
  "conf_GetString c uid =
     (case conf_Get c uid of
        Inl e \<Rightarrow> Inl e
      | Inr val \<Rightarrow> (case val of JStr s \<Rightarrow> Inr s | _ \<Rightarrow> Inl (BadType uid)))"

definition conf_GetStringDef :: "'f conf \<Rightarrow> string \<Rightarrow> string \<Rightarrow> string" where
  "conf_GetStringDef c uid dfl = (case conf_GetString c uid of Inl e \<Rightarrow> dfl | Inr s \<Rightarrow> s)"

definition conf_SetString :: "string \<Rightarrow> string \<Rightarrow> 'f conf \<Rightarrow> 'f conf" where
  "conf_SetString uid val c = conf_Set uid (JStr val) c"

text \<open>\<open>parse\<close> is \<open>strconv.ParseFloat\<close>; numbers are of type \<open>float64\<close>.\<close>

definition conf_GetNumber :: "'f float_ops \<Rightarrow> (string \<Rightarrow> string + 'f) \<Rightarrow> 'f conf \<Rightarrow> string \<Rightarrow> conf_error + 'f" where
  "conf_GetNumber fo parse c uid =
     (case conf_Get c uid of
        Inl e \<Rightarrow> Inl e
      | Inr val \<Rightarrow>
          (case val of
             JFloat k x \<Rightarrow> Inr x
           | JInt k i \<Rightarrow> Inr (fo_of_int fo i)
           | JUint k u \<Rightarrow> if k = KUintptr then Inl (BadType uid) else Inr (fo_of_uint fo u)
           | JStr s \<Rightarrow> (case parse s of Inl e \<Rightarrow> Inl (BadNumber e) | Inr x \<Rightarrow> Inr x)
           | _ \<Rightarrow> Inl (BadType uid)))"

definition conf_GetNumberDef :: "'f float_ops \<Rightarrow> (string \<Rightarrow> string + 'f) \<Rightarrow> 'f conf \<Rightarrow> string \<Rightarrow> 'f \<Rightarrow> 'f" where
  "conf_GetNumberDef fo parse c uid dfl = (case conf_GetNumber fo parse c uid of Inl e \<Rightarrow> dfl | Inr x \<Rightarrow> x)"

definition conf_SetNumber :: "string \<Rightarrow> 'f \<Rightarrow> 'f conf \<Rightarrow> 'f conf" where
  "conf_SetNumber uid val c = conf_Set uid (JFloat KFloat64 val) c"

section \<open>The interfaces of configurations\<close>

text \<open>
  \<open>StringConfigurator\<close> and \<open>NumberConfigurator\<close>: what was set under a name is what the name has, until it is set
  again, and the getter with a default gives the default exactly when there is an error.
\<close>

locale value_configurator =
  fixes get :: "'c \<Rightarrow> string \<Rightarrow> conf_error + 'a"
    and get_def :: "'c \<Rightarrow> string \<Rightarrow> 'a \<Rightarrow> 'a"
    and set_val :: "string \<Rightarrow> 'a \<Rightarrow> 'c \<Rightarrow> 'c"
  assumes get_set_same: "get (set_val uid x c) uid = Inr x"
    and get_set_other: "uid' \<noteq> uid \<Longrightarrow> get (set_val uid x c) uid' = get c uid'"
    and get_def_eq: "get_def c uid dfl = (case get c uid of Inl e \<Rightarrow> dfl | Inr x \<Rightarrow> x)"
begin

lemma get_after_sets:
  "get (fold (\<lambda>(uid, x). set_val uid x) xs c) uid =
     (case map_of (rev xs) uid of Some x \<Rightarrow> Inr x | None \<Rightarrow> get c uid)"
proof (induction xs arbitrary: c)
  case (Cons p xs)
  then show ?case
    by (cases p) (auto simp: get_set_same get_set_other map_add_def split: option.split if_splits)
qed simp

lemma get_def_after_sets:
  "get_def (fold (\<lambda>(uid, x). set_val uid x) xs c) uid dfl =
     (case map_of (rev xs) uid of Some x \<Rightarrow> x | None \<Rightarrow> get_def c uid dfl)"
  by (simp add: get_def_eq get_after_sets split: option.split)

end

interpretation ram_string: value_configurator conf_GetString conf_GetStringDef conf_SetString
  by unfold_locales (auto simp: conf_GetString_def conf_GetStringDef_def conf_SetString_def conf_Set_def conf_Get_def)

interpretation ram_number: value_configurator "conf_GetNumber fo parse" "conf_GetNumberDef fo parse" conf_SetNumber for fo parse
  by unfold_locales (auto simp: conf_GetNumber_def conf_GetNumberDef_def conf_SetNumber_def conf_Set_def conf_Get_def)

section \<open>Properties\<close>

lemma map_of_set_index:
  "distinct (map fst es) \<Longrightarrow> map_of (set_index k v es) = (map_of es)(k := v)"
proof (induction es)
  case (Cons e es)
  obtain k' x' where e: "e = (k', x')" by fastforce
  have "map_of es k' = None" using Cons.prems e by (simp add: map_of_eq_None_iff)
  with Cons e show ?case by (auto split: option.split)
qed (auto split: option.split)

lemma set_index_in: "p \<in> set (set_index k v es) \<Longrightarrow> fst p = k \<or> p \<in> set es"
  by (induction es) (auto split: option.splits if_splits)

lemma set_index_keys: "set (map fst (set_index k v es)) \<subseteq> insert k (set (map fst es))"
  using set_index_in [of _ k v es] by auto

lemma set_index_distinct: "distinct (map fst es) \<Longrightarrow> distinct (map fst (set_index k v es))"
proof (induction es)
  case (Cons e es)
  then show ?case using set_index_keys [of k v es] by (cases e) (auto split: option.split)
qed (simp split: option.split)

lemma fold_snoc: "fold (\<lambda>x s. s @ [f x]) xs s = s @ map f xs"
  by (induction xs arbitrary: s) auto

text \<open>
  After \<open>Add\<close> on a map without duplicate keys: with a key and a value of the types of the map the key has
  this value, with a nil value it is absent, every other key is as before, and there are still no duplicates; with a
  nil key or a wrong type the map is unchanged and there is an error.
\<close>

theorem sm_Add_spec:
  assumes "distinct (map fst (sm_elems m))" "sm_Add key val m = (err, m')"
  shows "distinct (map fst (sm_elems m'))
    \<and> (err = None \<longleftrightarrow> TypeOf key = Some (sm_keyType m) \<and> (val = None \<or> TypeOf val = Some (sm_valueType m)))
    \<and> (\<forall>key'. sm_Get key' m' = (if err = None \<and> key' = key then val else sm_Get key' m))"
proof (cases "err = None")
  case True
  with assms(2) obtain k v where k: "key = Some (sm_keyType m, k)" "val = (case v of None \<Rightarrow> None | Some x \<Rightarrow> Some (sm_valueType m, x))"
    "m' = m\<lparr>sm_elems := set_index k v (sm_elems m)\<rparr>"
    by (fastforce simp: sm_Add_def split: option.splits prod.splits if_splits)
  with assms(1) True show ?thesis
    by (auto simp: set_index_distinct sm_Get_def sm_lookup_def map_of_set_index split: option.splits)
next
  case False
  with assms show ?thesis
    by (auto simp: sm_Add_def TypeOf_def split: option.splits prod.splits if_splits)
qed

theorem sm_Add_spec_witness:
  "\<exists>m'. sm_Add (Some (''string'', ''a'')) (Some (''int'', 5 :: int)) \<lparr>sm_elems = [(''b'', 1)], sm_keyType = ''string'', sm_valueType = ''int''\<rparr> = (None, m')
     \<and> sm_Get (Some (''string'', ''a'')) m' = Some (''int'', 5)"
proof -
  let ?m = "\<lparr>sm_elems = [(''b'', 1 :: int)], sm_keyType = ''string'', sm_valueType = ''int''\<rparr>"
  obtain err m' where add: "sm_Add (Some (''string'', ''a'')) (Some (''int'', 5 :: int)) ?m = (err, m')" by fastforce
  from sm_Add_spec [OF _ this] show ?thesis using add by (auto simp: TypeOf_def)
qed

lemma sm_slices: "sm_KeySlice m = map fst (sm_elems m)" "sm_ValueSlice m = map snd (sm_elems m)"
  using fold_snoc [of "\<lambda>x. x" "map fst (sm_elems m)" "[]"] fold_snoc [of snd "sm_elems m" "[]"]
  by (simp_all add: sm_KeySlice_def sm_ValueSlice_def case_prod_beta')

text \<open>
  The keys of a map are listed once each, and its size is their number.
\<close>

lemma sm_keys_listed:
  "distinct (map fst (sm_elems m)) \<Longrightarrow>
   distinct (sm_KeySlice m) \<and> length (sm_KeySlice m) = sm_Size m
   \<and> (\<forall>k. k \<in> set (sm_KeySlice m) \<longleftrightarrow> sm_Has (Some (sm_keyType m, k)) m)"
  by (auto simp: sm_slices sm_Size_def sm_Has_def sm_lookup_def map_of_eq_None_iff)

text \<open>
  A sequence of settings of strings and the getters of a configuration: a name has the value set last, or what it had
  before, and the default is given exactly when neither is a string.
\<close>

theorem conf_strings:
  "conf_GetStringDef (fold (\<lambda>(uid, x). conf_SetString uid x) xs c) uid dfl =
     (case map_of (rev xs) uid of Some x \<Rightarrow> x | None \<Rightarrow> conf_GetStringDef c uid dfl)"
  by (rule ram_string.get_def_after_sets)

end
