(* ===== verification/LBSQuery.thy ===== *)
theory LBSQuery
  imports GoPrelude
begin

text \<open>
  \<open>lbs/qq\<close>: the request to the geocoder and what becomes of its reply. The request itself and the decoding of the reply
  are arguments; the encoding of a query is the standard library's \<open>url.Values\<close>.
\<close>

section \<open>Replies\<close>

text \<open>
  The reply as it is decoded, \<open>'g\<close> being the type \<open>float32\<close>. An embedded struct is extended, a pointer is an option.
\<close>

record 'g location_ll =
  ll_Lat :: 'g
  ll_Lng :: 'g

record 'g location_info =
  li_ID :: string
  li_Title :: string
  li_Location :: "'g location_ll"
  li_Distance :: 'g
  li_DirDesc :: string

record ad_info_basic =
  ad_AdCode :: string
  ad_Province :: string
  ad_City :: string
  ad_District :: string

record 'g poi_info = "'g location_info" +
  pi_Address :: string
  pi_Category :: string
  pi_AdInfo :: ad_info_basic

record formatted_addresses =
  fa_Recommend :: string
  fa_Rough :: string

record address_component =
  ac_Nation :: string
  ac_Province :: string
  ac_City :: string
  ac_District :: string
  ac_Street :: string
  ac_StreetNumber :: string

record 'g ad_info = ad_info_basic +
  ai_NationCode :: string
  ai_Name :: string
  ai_CityCode :: string
  ai_Nation :: string
  ai_Location :: "'g location_ll"

record 'g address_reference =
  ar_Street :: "'g location_info option"
  ar_StreetNumber :: "'g location_info option"
  ar_CrossRoad :: "'g location_info option"
  ar_Town :: "'g location_info option"
  ar_FamousArea :: "'g location_info option"
  ar_LandmarkL1 :: "'g location_info option"
  ar_LandmarkL2 :: "'g location_info option"
  ar_Water :: "'g location_info option"

record 'g geo_coder_location =
  gl_Location :: "'g location_ll option"
  gl_Address :: string
  gl_FormattedAddresses :: "formatted_addresses option"
  gl_AddressComponent :: address_component
  gl_AdInfo :: "'g ad_info"
  gl_AddressReference :: "'g address_reference option"
  gl_POICount :: int
  gl_POIs :: "'g poi_info list"

record 'g location_response =
  lr_Status :: int
  lr_Message :: string
  lr_Result :: "'g geo_coder_location option"

section \<open>Queries\<close>

text \<open>\<open>url.QueryEscape\<close>\<close>

definition query_safe :: "char \<Rightarrow> bool" where
  "query_safe c =
     (let n = of_char c :: nat in
      (48 \<le> n \<and> n \<le> 57) \<or> (65 \<le> n \<and> n \<le> 90) \<or> (97 \<le> n \<and> n \<le> 122)
      \<or> c = CHR ''-'' \<or> c = CHR ''_'' \<or> c = CHR ''.'' \<or> c = CHR ''~'')"

definition upper_hex :: "nat \<Rightarrow> char" where
  "upper_hex d = ''0123456789ABCDEF'' ! d"

definition escape_char :: "char \<Rightarrow> string" where
  "escape_char c =
     (if query_safe c then [c]
      else if c = CHR '' '' then ''+''
      else [CHR ''%'', upper_hex (of_char c div 16), upper_hex (of_char c mod 16)])"

definition QueryEscape :: "string \<Rightarrow> string" where
  "QueryEscape s = concat (map escape_char s)"

text \<open>\<open>url.Values\<close> with one value for a key: \<open>Set\<close>, and \<open>Encode\<close>, which sorts by key.\<close>

fun values_Set :: "string \<Rightarrow> string \<Rightarrow> (string \<times> string) list \<Rightarrow> (string \<times> string) list" where
  "values_Set k v [] = [(k, v)]"
| "values_Set k v ((k', v') # vs) = (if k' = k then (k, v) # vs else (k', v') # values_Set k v vs)"

definition values_Encode :: "(string \<times> string) list \<Rightarrow> string" where
  "values_Encode vs = str_join ''&'' (map (\<lambda>(k, v). QueryEscape k @ ''='' @ QueryEscape v) (sort_key fst vs))"

section \<open>The request\<close>

record location_option =
  lo_ShortAddressFormat :: bool
  lo_GetPoi :: bool
  lo_Radius :: int
  lo_PageSize :: int
  lo_PageIndex :: int
  lo_Policy :: int
  lo_Category :: string

definition defaultPOIOption :: location_option where
  "defaultPOIOption =
     \<lparr>lo_ShortAddressFormat = True, lo_GetPoi = True, lo_Radius = 100, lo_PageSize = 20, lo_PageIndex = 1, lo_Policy = 3, lo_Category = []\<rparr>"

definition LBSBaseURL :: string where
  "LBSBaseURL = ''https://apis.map.qq.com/ws/geocoder/v1/''"

definition poi_options :: "location_option \<Rightarrow> string list" where
  "poi_options opt =
     (if lo_Radius opt > 0 then [''radius='' @ FormatInt (lo_Radius opt)] else [])
     @ (if lo_PageSize opt > 0 \<and> lo_PageIndex opt > 0
        then [''page_size='' @ FormatInt (lo_PageSize opt), ''page_index='' @ FormatInt (lo_PageIndex opt)] else [])
     @ (if lo_Policy opt \<ge> 1 \<and> lo_Policy opt \<le> 5 then [''policy='' @ FormatInt (lo_Policy opt)] else [])
     @ (if length (lo_Category opt) > 0 then [''category='' @ lo_Category opt] else [])"

definition geo_values :: "string \<Rightarrow> string \<Rightarrow> string \<Rightarrow> location_option \<Rightarrow> (string \<times> string) list" where
  "geo_values key lat lng opt =
     (let q = values_Set ''location'' (lat @ '','' @ lng) (values_Set ''key'' key []) in
      if lo_GetPoi opt then
        (let q = values_Set ''get_poi'' ''1'' q in
         if poi_options opt \<noteq> [] then values_Set ''poi_options'' (str_join '';'' (poi_options opt)) q else q)
      else q)"

definition geo_url :: "string \<Rightarrow> string \<Rightarrow> string \<Rightarrow> location_option \<Rightarrow> string" where
  "geo_url key lat lng opt = LBSBaseURL @ ''?'' @ values_Encode (geo_values key lat lng opt)"

text \<open>
  \<open>http_get\<close> gives the error of the request, or the error of reading the body or the body; \<open>decode\<close> gives the reply, whose
  result may be nil.
\<close>

datatype geo_error = GetFailed string | ReadFailed string | DecodeFailed string string | NonZeroStatus string string

definition QueryGeocoderLocation ::
    "(string \<Rightarrow> string + (string + string)) \<Rightarrow> (string \<Rightarrow> string + 'g location_response) \<Rightarrow> string \<Rightarrow> string \<Rightarrow> string \<Rightarrow>
     location_option option \<Rightarrow> geo_error + 'g geo_coder_location option" where
  "QueryGeocoderLocation http_get decode key lat lng opt =
     (let u = geo_url key lat lng (case opt of None \<Rightarrow> defaultPOIOption | Some o' \<Rightarrow> o') in
      case http_get u of
        Inl e \<Rightarrow> Inl (GetFailed e)
      | Inr (Inl e) \<Rightarrow> Inl (ReadFailed e)
      | Inr (Inr data) \<Rightarrow>
          (case decode data of
             Inl e \<Rightarrow> Inl (DecodeFailed data e)
           | Inr res \<Rightarrow> if lr_Status res \<noteq> 0 then Inl (NonZeroStatus u data) else Inr (lr_Result res)))"

definition QueryGeocoderLocationPois ::
    "(string \<Rightarrow> string + (string + string)) \<Rightarrow> (string \<Rightarrow> string + 'g location_response) \<Rightarrow> string \<Rightarrow> string \<Rightarrow> string \<Rightarrow>
     int \<Rightarrow> string \<Rightarrow> geo_error + 'g geo_coder_location option" where
  "QueryGeocoderLocationPois http_get decode key lat lng radius category =
     QueryGeocoderLocation http_get decode key lat lng
       (Some (defaultPOIOption\<lparr>lo_Radius := radius, lo_Category := category\<rparr>))"

section \<open>What a server reads in the query\<close>

definition hex_value :: "char \<Rightarrow> nat option" where
  "hex_value c =
     (let n = of_char c :: nat in
      if 48 \<le> n \<and> n \<le> 57 then Some (n - 48) else if 65 \<le> n \<and> n \<le> 70 then Some (n - 55)
      else if 97 \<le> n \<and> n \<le> 102 then Some (n - 87) else None)"

fun QueryUnescape :: "string \<Rightarrow> string option" where
  "QueryUnescape [] = Some []"
| "QueryUnescape (c # cs) =
     (if c = CHR ''%'' then
        (case cs of
           h # l # rest \<Rightarrow>
             (case (hex_value h, hex_value l) of
                (Some a, Some b) \<Rightarrow> map_option (Cons (char_of (16 * a + b))) (QueryUnescape rest)
              | _ \<Rightarrow> None)
         | _ \<Rightarrow> None)
      else map_option (Cons (if c = CHR ''+'' then CHR '' '' else c)) (QueryUnescape cs))"

fun split_on :: "char \<Rightarrow> string \<Rightarrow> string list" where
  "split_on c [] = [[]]"
| "split_on c (d # ds) = (if d = c then [] # split_on c ds else (case split_on c ds of [] \<Rightarrow> [[d]] | p # ps \<Rightarrow> (d # p) # ps))"

definition parse_param :: "string \<Rightarrow> (string \<times> string) option" where
  "parse_param p =
     (case (QueryUnescape (takeWhile (\<lambda>c. c \<noteq> CHR ''='') p), QueryUnescape (tl (dropWhile (\<lambda>c. c \<noteq> CHR ''='') p))) of
        (Some k, Some v) \<Rightarrow> Some (k, v)
      | _ \<Rightarrow> None)"

definition parse_query :: "string \<Rightarrow> (string \<times> string) option list" where
  "parse_query s = map parse_param (split_on (CHR ''&'') s)"

lemma hex_value_upper_hex: "d < 16 \<Longrightarrow> hex_value (upper_hex d) = Some d"
  by (auto simp: hex_value_def upper_hex_def less_Suc_eq numeral_eq_Suc)

lemma query_safe_plain: "query_safe c \<Longrightarrow> c \<noteq> CHR ''%'' \<and> c \<noteq> CHR ''+'' \<and> c \<noteq> CHR ''&'' \<and> c \<noteq> CHR ''=''"
  by (auto simp: query_safe_def)

lemma hex_digits_bound: "of_char (c :: char) div 16 < (16 :: nat)" "of_char c mod 16 < (16 :: nat)"
proof -
  have "(of_char c :: nat) < 16 * 16" using nat_of_char_less_256 [of c] by simp
  then show "of_char c div 16 < (16 :: nat)" by (rule less_mult_imp_div_less)
qed simp

lemma QueryUnescape_escape_char:
  "QueryUnescape (escape_char c @ t) = map_option (Cons c) (QueryUnescape t)"
  using query_safe_plain [of c] hex_digits_bound [of c]
  by (simp add: escape_char_def hex_value_upper_hex)

lemma QueryUnescape_QueryEscape: "QueryUnescape (QueryEscape s @ t) = map_option (append s) (QueryUnescape t)"
proof (induction s)
  case (Cons c s)
  then show ?case
    by (simp add: QueryEscape_def QueryUnescape_escape_char option.map_comp comp_def del: QueryUnescape.simps(2))
qed (simp add: QueryEscape_def option.map_ident)

lemma upper_hex_plain: "d < 16 \<Longrightarrow> upper_hex d \<noteq> CHR ''&'' \<and> upper_hex d \<noteq> CHR ''=''"
  by (auto simp: upper_hex_def less_Suc_eq numeral_eq_Suc)

lemma QueryEscape_plain: "c \<in> set (QueryEscape s) \<Longrightarrow> c \<noteq> CHR ''&'' \<and> c \<noteq> CHR ''=''"
proof -
  have "c \<noteq> CHR ''&'' \<and> c \<noteq> CHR ''=''" if "c \<in> set (escape_char d)" for d
    using that upper_hex_plain [OF hex_digits_bound(1)] upper_hex_plain [OF hex_digits_bound(2)] query_safe_plain [of d]
    by (auto simp: escape_char_def split: if_splits)
  then show "c \<in> set (QueryEscape s) \<Longrightarrow> ?thesis" by (auto simp: QueryEscape_def)
qed

lemma split_on_plain: "c \<notin> set s \<Longrightarrow> split_on c s = [s]"
  by (induction s) auto

lemma split_on_append: "c \<notin> set s \<Longrightarrow> split_on c (s @ c # t) = s # split_on c t"
  by (induction s) auto

lemma split_on_join: "ps \<noteq> [] \<Longrightarrow> (\<And>p. p \<in> set ps \<Longrightarrow> c \<notin> set p) \<Longrightarrow> split_on c (str_join [c] ps) = ps"
  by (induction "[c]" ps rule: str_join.induct) (auto simp: split_on_plain split_on_append)

lemma parse_param_encoded: "parse_param (QueryEscape k @ ''='' @ QueryEscape v) = Some (k, v)"
proof -
  have "\<forall>c \<in> set (QueryEscape k). c \<noteq> CHR ''=''" using QueryEscape_plain by blast
  then have "takeWhile (\<lambda>c. c \<noteq> CHR ''='') (QueryEscape k @ ''='' @ QueryEscape v) = QueryEscape k"
    "dropWhile (\<lambda>c. c \<noteq> CHR ''='') (QueryEscape k @ ''='' @ QueryEscape v) = ''='' @ QueryEscape v"
    by (simp_all add: takeWhile_append2 dropWhile_append2)
  then show ?thesis
    using QueryUnescape_QueryEscape [of k "[]"] QueryUnescape_QueryEscape [of v "[]"] by (simp add: parse_param_def)
qed

lemma parse_query_Encode: "vs \<noteq> [] \<Longrightarrow> parse_query (values_Encode vs) = map Some (sort_key fst vs)"
proof -
  assume vs: "vs \<noteq> []"
  let ?ps = "map (\<lambda>(k, v). QueryEscape k @ ''='' @ QueryEscape v) (sort_key fst vs)"
  have "CHR ''&'' \<notin> set p" if "p \<in> set ?ps" for p using that QueryEscape_plain by fastforce
  moreover have "?ps \<noteq> []" using vs by (metis length_0_conv length_map length_sort)
  ultimately have "split_on (CHR ''&'') (values_Encode vs) = ?ps"
    unfolding values_Encode_def by (intro split_on_join)
  then show ?thesis using parse_param_encoded by (simp add: parse_query_def case_prod_beta')
qed

text \<open>A result comes only from a reply to the request that was read whole, decoded, and has status zero.\<close>

lemma QueryGeocoderLocation_ok_iff:
  "QueryGeocoderLocation http_get decode key lat lng opt = Inr res \<longleftrightarrow>
     (\<exists>data r. http_get (geo_url key lat lng (case opt of None \<Rightarrow> defaultPOIOption | Some o' \<Rightarrow> o')) = Inr (Inr data)
        \<and> decode data = Inr r \<and> lr_Status r = 0 \<and> lr_Result r = res)"
  by (auto simp: QueryGeocoderLocation_def Let_def split: sum.splits)

text \<open>
  C30. What a server reads in the query of the request, for every key, position and category, whatever characters they
  have: exactly the key, the position, and with points of interest the option that asks for them and the
  options joined by semicolons; no value changes another parameter or adds one.
\<close>

theorem geo_query_read_back:
  "parse_query (drop (length LBSBaseURL + 1) (geo_url key lat lng opt)) =
     map Some
       ((if lo_GetPoi opt then [(''get_poi'', ''1'')] else [])
        @ [(''key'', key), (''location'', lat @ '','' @ lng)]
        @ (if lo_GetPoi opt \<and> poi_options opt \<noteq> [] then [(''poi_options'', str_join '';'' (poi_options opt))] else []))"
proof -
  have "geo_values key lat lng opt \<noteq> []" by (simp add: geo_values_def Let_def)
  from parse_query_Encode [OF this] show ?thesis
    by (simp add: geo_url_def geo_values_def Let_def less_list_code)
qed

end
