(* ===== verification/Spec2Isabelle.thy ===== *)
theory Spec2Isabelle
  imports HelperUtil HelperSys HelperProc FlushQueue Statistics SMProgress SourceSink Crypto KeyCursor RdbTool RpcService
    HttpAPI SqlImpl RedisMigrate DLProgress SysCalls Logger SyncMap LBSQuery
begin

text \<open>
  The Go library \<open>wseternal/helper\<close>: small packages used by servers and tools. They fall into five groups.

  \<^item> Data passing: a state machine with actions, a flush queue and a statistics counter, each with its own goroutine;
    filters, sources, sinks and the pump between them; files, copies, digests and downloads over the pump; a download
    manager with a queue and a worker, whose bodies also go through the pump.
  \<^item> Storage: the interface \<open>KeyValueImpl\<close> with its implementations on bolt and RocksDB; the RocksDB package with
    enumeration and deletion of key ranges, a JSON-RPC server on top of it, and the tool \<open>rdb\<close>; SQL tables, a Redis
    wrapper, and a program that copies the records of a table to Redis.
  \<^item> Encoding: JSON objects and arrays, JSON-RPC messages, JSON and gob helpers, AES filters for the pump.
  \<^item> Calls: the HTTP API package with contexts, callbacks and retries; a query to a geocoder, made with it.
  \<^item> System: the functions of the root package, a logger, a typed map, configuration in memory, identity and network
    state of the machine, and the usage of mobile data.

  \<^bold>\<open>Theories and sources\<close> (paths under \<open>src/\<close>; the functions keep their names, with a prefix where two packages use the
  same).

  \<^item> \<open>GoPrelude\<close>: what Go itself gives: panics as results (\<open>outcome\<close>), \<open>interface{}\<close> values, 64-bit integers, octet
    strings, \<open>strings\<close>, \<open>bytes\<close> and \<open>strconv\<close>. \<open>GoPaths\<close>: \<open>path\<close> and \<open>filepath\<close>.
  \<^item> \<open>HelperUtil\<close>, \<open>HelperSys\<close>: \<open>bytes.go\<close>, \<open>helper.go\<close>, \<open>sortedKV.go\<close>, \<open>flag.go\<close>. \<open>HelperProc\<close>: what \<open>helper.go\<close> does to
    the process, as a list of effects.
  \<^item> \<open>StateMachine\<close>: \<open>StateMachine/sm.go\<close>. \<open>FlushQueue\<close>: \<open>queue/queue.go\<close>. \<open>Statistics\<close>: \<open>stats/stats.go\<close>. Each has the
    operations under the mutex as functions on a record with the fields of the struct, and a step relation in which
    callers and goroutines meet at mutexes, channels and timers. \<open>SMProgress\<close>: the progress of the state machine.
  \<^item> \<open>IOPump\<close>: \<open>iohelper/filter\<close>, \<open>source\<close>, \<open>sink\<close>, \<open>pump\<close>; \<open>SourceSink\<close>: their files. \<open>IOHelper\<close>:
    \<open>iohelper/iohelper.go\<close>, \<open>iohelper/shared_preference.go\<close>. \<open>DLManager\<close>: \<open>dlmgr/dlmgr.go\<close>;
    \<open>DLProgress\<close>: its progress.
  \<^item> \<open>KeyValue\<close>: \<open>kvdb/kvdb.go\<close>, the interface as the locale \<open>key_value_impl\<close>. \<open>BoltDB\<close>: \<open>boltdb\<close>.
    \<open>KeyCursor\<close>: its iterators as the locale \<open>key_value_cursor\<close>, and the two implementations side by side.
  \<^item> \<open>RocksDB\<close>, \<open>RocksRange\<close>, \<open>RocksAdmin\<close>: \<open>rocksdb/rocksdb.go\<close>, \<open>rocksdb/kvdb.go\<close>. \<open>RocksServer\<close>:
    \<open>rocksdb/server.go\<close>; \<open>RpcService\<close>: the server and a client of \<open>jsonrpc/jsonrpc.go\<close> together. \<open>RdbCommand\<close>:
    \<open>rocksdb/cmd/rdb/rdb.go\<close>; \<open>RdbTool\<close>: the tool from the command line to the output.
  \<^item> \<open>SqlImpl\<close>: \<open>sqlimpl\<close>. \<open>Redisw\<close>: \<open>redisw/redis.go\<close>. \<open>RedisMigrate\<close>: \<open>redisw/cmd\<close>.
  \<^item> \<open>FastJson\<close>: \<open>fastjson\<close>, \<open>jsonrpc\<close>. \<open>Codec\<close>: \<open>codec/codec.go\<close>, \<open>codec/gob.go\<close>. \<open>Crypto\<close>: \<open>codec/aescbc.go\<close>,
    \<open>codec/aescfb.go\<close>.
  \<^item> \<open>HttpAPI\<close>: \<open>HttpAPI\<close>. \<open>LBSQuery\<close>: \<open>lbs/qq\<close>.
  \<^item> \<open>Logger\<close>, \<open>SyncMap\<close> (with \<open>conf\<close> and \<open>conf/ram\<close>), \<open>SysNet\<close> (\<open>sys\<close>, \<open>helperLinuxBased.go\<close>,
    \<open>helperPosixBased.go\<close>), \<open>NetStats\<close> (\<open>sys/netstats\<close>), \<open>SysCalls\<close> (\<open>logger/logcat.go\<close>, \<open>sys/sysCgo*.go\<close>,
    \<open>sys/sys_darwin.go\<close>, \<open>cgoHelper*.go\<close> and the calls of \<open>sys\<close> and \<open>helperPosixBased.go\<close> that only ask the system).

  \<^bold>\<open>How the code is represented.\<close> A struct is a record, a tag or enumeration a datatype, and an \<open>error\<close> a constructor of
  the package's error type. A panic is the result \<open>Panics\<close>, not an error. Machine integers are 64-bit words wherever a
  result can depend on their width; lengths and indices are natural numbers. A loop that need not end is a
  \<open>partial_function (option)\<close>, whose \<open>None\<close> means that it does not return; statements about its result say
  first that it is \<open>Some\<close>, and several say exactly when. There is no fuel except the number of retries and time-outs the
  code itself counts. Goroutines interleave in the steps of an \<open>inductive\<close> relation: what the code does between two
  operations that can block is one step; under a held mutex only the holder moves, and an unbuffered channel operation is
  one step of both sides.

  \<^bold>\<open>Code that is not in the repository\<close> is an argument: go-redis and the Redis server (a function that answers
  commands), gorocksdb and bolt (records of their operations, with their documented laws as the locales
  \<open>rocks_engine_laws\<close> and \<open>bolt_engine_laws\<close>), \<open>database/sql\<close> and its drivers, the HTTP client, decoders and encoders of
  JSON, XML and gob for one value, AES and the hash functions, the operating system's answers about files, and functions
  a user registers. A law of such an argument is a hypothesis of the property that needs it, and a witness
  instantiates the argument with a concrete function.

  \<^bold>\<open>What the lemmas show.\<close>

  \<^item> \<open>StateMachine\<close>: an action fires only in the state it asks for; the callbacks seen are those of a run of
    the abstract machine; the list of actions and the live goroutines agree; \<open>ClearActions\<close> ends every action, and
    (\<open>SMProgress\<close>) it can come to its end exactly when the goroutine of every action it still stops waits in its \<open>select\<close>.
  \<^item> \<open>FlushQueue\<close>: no value is lost or reordered between the queue and the batches handed out; when \<open>StopFlushThread\<close>
    completes, and when the mutex it holds makes it wait for ever.
  \<^item> \<open>Statistics\<close>: the counters of a running period are those of the messages since it began.
  \<^item> \<open>IOPump\<close>, \<open>IOHelper\<close>, \<open>Crypto\<close>: when the pump returns, and that the sink then has the filtered contents of the
    source; downloads that succeed have the digest asked for; rate-limited writes keep their distance; what CFB
    encrypts it decrypts, and what padding of chunks does to CBC.
  \<^item> \<open>DLManager\<close>: every download is queued, in work or done; a file reported as done has the expected sum; without
    cancellation no step crashes; with it the late reply of a request crashes or cancels the next download; a
    body that breaks off blocks the worker. \<open>DLProgress\<close>: without those, a measure of the work that is left gets
    less with every step, and at the end every download has got its callback.
  \<^item> \<open>KeyValue\<close>, \<open>BoltDB\<close>, \<open>RocksDB\<close>, \<open>RocksRange\<close>: both implementations refine a map of maps, with the laws of the
    interface; ranges are enumerated in the order of keys, within their limits, and deleted exactly; enumeration by time
    stamp visits one entry of each device and when it ends. \<open>KeyCursor\<close>: two stores with the same contents stay
    indistinguishable for a client of the interface.
  \<^item> \<open>RocksServer\<close>, \<open>RpcService\<close>: what a client sees of \<open>HandleRPC\<close>, errors and time-outs included; set then get through
    client, HTTP and server; read-only methods change nothing; default limits.
  \<^item> \<open>RdbCommand\<close>, \<open>RdbTool\<close>: only \<open>delete\<close> changes the database, and it removes what \<open>get\<close> prints for the same flags.
  \<^item> \<open>SqlImpl\<close>, \<open>Redisw\<close>, \<open>RedisMigrate\<close>: statements bind their arguments, scans and what a failing creation of tables
    drops; the batches of a migration write what one pass over the rows would, and when they do not end.
  \<^item> \<open>HttpAPI\<close>, \<open>LBSQuery\<close>: \<open>Do\<close> is a bounded iteration of attempts, with the callbacks in their order and its entry in
    the ongoing table only while it runs; a query to the geocoder reads back as its parameters.
  \<^item> \<open>FastJson\<close>, \<open>Codec\<close>, \<open>HelperUtil\<close>, \<open>HelperSys\<close>, \<open>Logger\<close>, \<open>SyncMap\<close>, \<open>SysNet\<close>, \<open>NetStats\<close>,
    \<open>HelperProc\<close>, \<open>SysCalls\<close>: the functional behaviour of each operation, errors and panics included, and round trips.

  \<^bold>\<open>Not modelled.\<close>

  \<^item> Values and calls that are a third-party package's: write batches of RocksDB, \<open>Close\<close> of bolt and of SQL databases.
  \<^item> \<open>rpc/rpc.go\<close>, an interface and a function type without code.
  \<^item> The text form of the values of an API context, which is \<open>json.Marshal\<close> of a map.
  \<^item> Debug output and usage texts; tests and examples.
\<close>

end
